(* ===== verification/Prelude.thy ===== *)
theory Prelude
  imports Main "HOL-Library.Word" "HOL-Library.Char_ord" "HOL-Library.List_Lexorder"
begin

text \<open>
  Shared vocabulary of the development: the result-and-state computations every component is
  written in, their weakest preconditions, and the rules that carry a relation between the
  states before and after a computation through its parts.

  A Rust function returning \<open>Result<A, E>\<close> and acting on the outside world is a function from
  the world to a pair of a result (\<open>Inl\<close> the error, \<open>Inr\<close> the value) and the world it leaves.
  The world is returned on the error branch too: an early return does not undo what was done.
\<close>

named_theorems wp_simps \<open>weakest preconditions of the combinators and of the operations\<close>
named_theorems run_iff \<open>inversion of a successful run\<close>
named_theorems steps_intro \<open>rules that show a computation stays inside a relation on states\<close>

unbundle bit_operations_syntax

section \<open>Computations\<close>

type_synonym ('s, 'e, 'a) io = "'s \<Rightarrow> ('e + 'a) \<times> 's"

type_synonym u8 = "8 word"
type_synonym u32 = "32 word"
type_synonym u64 = "64 word"

definition ret :: "'a \<Rightarrow> ('s, 'e, 'a) io" where
  "ret x = (\<lambda>w. (Inr x, w))"

definition fail :: "'e \<Rightarrow> ('s, 'e, 'a) io" where
  "fail e = (\<lambda>w. (Inl e, w))"

text \<open>\<open>bindE m k\<close> is \<open>let x = m?; k(x)\<close>.\<close>

definition bindE :: "('s, 'e, 'a) io \<Rightarrow> ('a \<Rightarrow> ('s, 'e, 'b) io) \<Rightarrow> ('s, 'e, 'b) io" where
  "bindE m k = (\<lambda>w. case m w of (Inl e, w') \<Rightarrow> (Inl e, w') | (Inr x, w') \<Rightarrow> k x w')"

text \<open>\<open>map_err f m\<close> is \<open>m.map_err(f)\<close> with a pure \<open>f\<close>.\<close>

definition map_err :: "('e \<Rightarrow> 'f) \<Rightarrow> ('s, 'e, 'a) io \<Rightarrow> ('s, 'f, 'a) io" where
  "map_err f m = (\<lambda>w. case m w of (Inl e, w') \<Rightarrow> (Inl (f e), w') | (Inr x, w') \<Rightarrow> (Inr x, w'))"

text \<open>\<open>on_err h m\<close> is \<open>m.map_err(|e| h(e))\<close> where the closure acts on the world and yields the
  new error.\<close>

definition on_err :: "('e \<Rightarrow> 's \<Rightarrow> 'f \<times> 's) \<Rightarrow> ('s, 'e, 'a) io \<Rightarrow> ('s, 'f, 'a) io" where
  "on_err h m = (\<lambda>w. case m w of
     (Inl e, w') \<Rightarrow> (case h e w' of (f, w'') \<Rightarrow> (Inl f, w''))
   | (Inr x, w') \<Rightarrow> (Inr x, w'))"

text \<open>\<open>ignore m\<close> is \<open>let _ = m;\<close>: the effect happens, the result is dropped.\<close>

definition ignore :: "('s, 'e, 'a) io \<Rightarrow> ('s, 'f, unit) io" where
  "ignore m = (\<lambda>w. (Inr (), snd (m w)))"

text \<open>\<open>attempt m\<close> makes the result of \<open>m\<close> a value, for a \<open>match\<close> on it.\<close>

definition attempt :: "('s, 'e, 'a) io \<Rightarrow> ('s, 'f, 'e + 'a) io" where
  "attempt m = (\<lambda>w. case m w of (r, w') \<Rightarrow> (Inr r, w'))"

definition lift_res :: "'e + 'a \<Rightarrow> ('s, 'e, 'a) io" where
  "lift_res r = (\<lambda>w. (r, w))"

definition check :: "bool \<Rightarrow> 'e \<Rightarrow> ('s, 'e, unit) io" where
  "check b e = (if b then ret () else fail e)"

definition ok_or :: "'e \<Rightarrow> 'a option \<Rightarrow> 'e + 'a" where
  "ok_or e x = (case x of None \<Rightarrow> Inl e | Some y \<Rightarrow> Inr y)"

definition map_inl :: "('e \<Rightarrow> 'f) \<Rightarrow> 'e + 'a \<Rightarrow> 'f + 'a" where
  "map_inl f r = (case r of Inl e \<Rightarrow> Inl (f e) | Inr x \<Rightarrow> Inr x)"

text \<open>A \<open>for\<close> loop whose body may return early with an error.\<close>

fun for_each :: "'i list \<Rightarrow> ('i \<Rightarrow> ('s, 'e, unit) io) \<Rightarrow> ('s, 'e, unit) io" where
  "for_each [] f = ret ()"
| "for_each (x # xs) f = bindE (f x) (\<lambda>_. for_each xs f)"

text \<open>A \<open>for\<close> loop that also pushes one value per round.\<close>

fun collect_each :: "'i list \<Rightarrow> ('i \<Rightarrow> ('s, 'e, 'a) io) \<Rightarrow> ('s, 'e, 'a list) io" where
  "collect_each [] f = ret []"
| "collect_each (x # xs) f = bindE (f x) (\<lambda>y. bindE (collect_each xs f) (\<lambda>ys. ret (y # ys)))"

text \<open>A computation that may also panic has two ways to stop: \<open>Err e\<close> returns an error, \<open>Panic\<close> unwinds to the next
  \<open>catch_unwind\<close>. \<open>?\<close> passes both on.\<close>

datatype 'e exn = Err 'e | Panic

definition no_panic :: "('s, 'e, 'a) io \<Rightarrow> ('s, 'e exn, 'a) io" where
  "no_panic m = map_err Err m"

definition panic :: "('s, 'e exn, 'a) io" where
  "panic = fail Panic"

lemma bindE_ret: "bindE (ret x) k = k x"
  by (rule ext) (simp add: bindE_def ret_def)

lemma bindE_assoc: "bindE (bindE m f) g = bindE m (\<lambda>x. bindE (f x) g)"
  by (rule ext) (auto simp: bindE_def split: prod.splits sum.splits)

section \<open>Weakest preconditions\<close>

definition wp :: "('s, 'e, 'a) io \<Rightarrow> ('a \<Rightarrow> 's \<Rightarrow> bool) \<Rightarrow> ('e \<Rightarrow> 's \<Rightarrow> bool) \<Rightarrow> 's \<Rightarrow> bool" where
  "wp m Q R w = (case m w of (Inl e, w') \<Rightarrow> R e w' | (Inr x, w') \<Rightarrow> Q x w')"

lemma wpI: "(\<And>e w'. m w = (Inl e, w') \<Longrightarrow> R e w') \<Longrightarrow> (\<And>x w'. m w = (Inr x, w') \<Longrightarrow> Q x w') \<Longrightarrow> wp m Q R w"
  by (auto simp: wp_def split: prod.splits sum.splits)

lemma wp_InrD: "wp m Q R w \<Longrightarrow> m w = (Inr x, w') \<Longrightarrow> Q x w'"
  by (simp add: wp_def)

lemma wp_InlD: "wp m Q R w \<Longrightarrow> m w = (Inl e, w') \<Longrightarrow> R e w'"
  by (simp add: wp_def)

lemma wp_mono:
  "wp m Q R w \<Longrightarrow> (\<And>x w'. Q x w' \<Longrightarrow> Q' x w') \<Longrightarrow> (\<And>e w'. R e w' \<Longrightarrow> R' e w') \<Longrightarrow> wp m Q' R' w"
  by (auto simp: wp_def split: prod.splits sum.splits)

lemma wp_ret [wp_simps]: "wp (ret x) Q R w = Q x w"
  by (simp add: wp_def ret_def)

lemma wp_fail [wp_simps]: "wp (fail e) Q R w = R e w"
  by (simp add: wp_def fail_def)

lemma wp_bindE [wp_simps]: "wp (bindE m k) Q R w = wp m (\<lambda>x. wp (k x) Q R) R w"
  by (simp add: wp_def bindE_def split: prod.splits sum.splits)

lemma wp_map_err [wp_simps]: "wp (map_err f m) Q R w = wp m Q (\<lambda>e. R (f e)) w"
  by (simp add: wp_def map_err_def split: prod.splits sum.splits)

lemma wp_on_err [wp_simps]:
  "wp (on_err h m) Q R w = wp m Q (\<lambda>e w'. R (fst (h e w')) (snd (h e w'))) w"
  by (simp add: wp_def on_err_def split: prod.splits sum.splits)

lemma wp_ignore [wp_simps]: "wp (ignore m) Q R w = Q () (snd (m w))"
  by (simp add: wp_def ignore_def)

lemma wp_attempt [wp_simps]: "wp (attempt m) Q R w = wp m (\<lambda>x. Q (Inr x)) (\<lambda>e. Q (Inl e)) w"
  by (simp add: wp_def attempt_def split: prod.splits sum.splits)

lemma wp_lift_res [wp_simps]:
  "wp (lift_res r) Q R w = (case r of Inl e \<Rightarrow> R e w | Inr x \<Rightarrow> Q x w)"
  by (simp add: wp_def lift_res_def)

lemma wp_check [wp_simps]: "wp (check b e) Q R w = (if b then Q () w else R e w)"
  by (simp add: check_def wp_simps)

section \<open>Inversion of a successful run\<close>

lemma ret_Inr [run_iff]: "ret x w = (Inr y, w') \<longleftrightarrow> y = x \<and> w' = w"
  by (auto simp: ret_def)

lemma fail_Inr [run_iff]: "fail e w = (Inr y, w') \<longleftrightarrow> False"
  by (simp add: fail_def)

lemma bindE_Inr [run_iff]:
  "bindE m k w = (Inr y, w') \<longleftrightarrow> (\<exists>x w1. m w = (Inr x, w1) \<and> k x w1 = (Inr y, w'))"
  by (auto simp: bindE_def split: prod.splits sum.splits)

lemma map_err_Inr [run_iff]: "map_err f m w = (Inr y, w') \<longleftrightarrow> m w = (Inr y, w')"
  by (auto simp: map_err_def split: prod.splits sum.splits)

lemma no_panic_Inr [run_iff]: "no_panic m w = (Inr y, w') \<longleftrightarrow> m w = (Inr y, w')"
  by (simp add: no_panic_def map_err_Inr)

lemma panic_Inr [run_iff]: "panic w = (Inr y, w') \<longleftrightarrow> False"
  by (simp add: panic_def fail_Inr)

lemma on_err_Inr [run_iff]: "on_err h m w = (Inr y, w') \<longleftrightarrow> m w = (Inr y, w')"
  by (auto simp: on_err_def split: prod.splits sum.splits)

lemma ignore_Inr [run_iff]: "ignore m w = (Inr y, w') \<longleftrightarrow> w' = snd (m w)"
  by (auto simp: ignore_def)

lemma attempt_Inr [run_iff]: "attempt m w = (Inr r, w') \<longleftrightarrow> m w = (r, w')"
  by (auto simp: attempt_def split: prod.splits)

lemma lift_res_Inr [run_iff]: "lift_res r w = (Inr y, w') \<longleftrightarrow> r = Inr y \<and> w' = w"
  by (auto simp: lift_res_def)

lemma check_Inr [run_iff]: "check b e w = (Inr y, w') \<longleftrightarrow> b \<and> w' = w"
  by (auto simp: check_def ret_def fail_def)

lemma ok_or_Inr [run_iff]: "ok_or e x = Inr y \<longleftrightarrow> x = Some y"
  by (auto simp: ok_or_def split: option.splits)

lemma map_inl_Inr [run_iff]: "map_inl f r = Inr y \<longleftrightarrow> r = Inr y"
  by (auto simp: map_inl_def split: sum.splits)

lemma map_inl_simps [simp]: "map_inl f (Inl e) = Inl (f e)" "map_inl f (Inr x) = Inr x"
  by (simp_all add: map_inl_def)

lemma ok_or_simps [simp]: "ok_or e None = Inl e" "ok_or e (Some y) = Inr y"
  by (simp_all add: ok_or_def)

section \<open>Relations between the states before and after\<close>

text \<open>\<open>steps R m\<close>: whatever \<open>m\<close> returns, the world it leaves is related by \<open>R\<close> to the world it
  was started in. Used with reflexive and transitive \<open>R\<close>: frames, monotone counters.\<close>

definition steps :: "('s \<Rightarrow> 's \<Rightarrow> bool) \<Rightarrow> ('s, 'e, 'a) io \<Rightarrow> bool" where
  "steps R m \<longleftrightarrow> (\<forall>w. R w (snd (m w)))"

definition preorder_rel :: "('s \<Rightarrow> 's \<Rightarrow> bool) \<Rightarrow> bool" where
  "preorder_rel R \<longleftrightarrow> reflp R \<and> transp R"

lemma stepsD: "steps R m \<Longrightarrow> m w = (r, w') \<Longrightarrow> R w w'"
  unfolding steps_def by (metis snd_conv)

lemma steps_snd: "steps R m \<Longrightarrow> R w (snd (m w))"
  by (simp add: steps_def)

lemma steps_ret [steps_intro]: "preorder_rel R \<Longrightarrow> steps R (ret x)"
  by (simp add: steps_def ret_def preorder_rel_def reflpD)

lemma steps_fail [steps_intro]: "preorder_rel R \<Longrightarrow> steps R (fail e)"
  by (simp add: steps_def fail_def preorder_rel_def reflpD)

lemma steps_lift_res [steps_intro]: "preorder_rel R \<Longrightarrow> steps R (lift_res r)"
  by (simp add: steps_def lift_res_def preorder_rel_def reflpD)

lemma steps_check [steps_intro]: "preorder_rel R \<Longrightarrow> steps R (check b e)"
  by (simp add: check_def steps_ret steps_fail)

lemma steps_bindE_run:
  assumes "preorder_rel R" "steps R m" "\<And>x w w'. m w = (Inr x, w') \<Longrightarrow> steps R (k x)"
  shows "steps R (bindE m k)"
  unfolding steps_def
proof
  fix w
  obtain p w1 where m: "m w = (p, w1)" by fastforce
  have 1: "R w w1" by (rule stepsD [OF assms(2) m])
  show "R w (snd (bindE m k w))"
  proof (cases p)
    case (Inr x)
    have "R w1 (snd (k x w1))" by (rule steps_snd, rule assms(3), rule m [unfolded Inr])
    with 1 m Inr transpD [OF conjunct2 [OF assms(1) [unfolded preorder_rel_def]]] show ?thesis by (auto simp: bindE_def)
  qed (use 1 m in \<open>simp add: bindE_def\<close>)
qed

lemma steps_bindE [steps_intro]: "preorder_rel R \<Longrightarrow> steps R m \<Longrightarrow> (\<And>x. steps R (k x)) \<Longrightarrow> steps R (bindE m k)"
  by (rule steps_bindE_run)

lemma steps_map_err [steps_intro]: "steps R m \<Longrightarrow> steps R (map_err f m)"
  by (auto simp: steps_def map_err_def split: prod.splits sum.splits) (metis snd_conv)+

lemma steps_no_panic [steps_intro]: "steps R m \<Longrightarrow> steps R (no_panic m)"
  by (simp add: no_panic_def steps_map_err)

lemma steps_panic [steps_intro]: "preorder_rel R \<Longrightarrow> steps R panic"
  by (simp add: panic_def steps_fail)

lemma steps_attempt [steps_intro]: "steps R m \<Longrightarrow> steps R (attempt m)"
  by (auto simp: steps_def attempt_def split: prod.splits) (metis snd_conv)

lemma steps_ignore [steps_intro]: "steps R m \<Longrightarrow> steps R (ignore m)"
  by (simp add: steps_def ignore_def)

lemma steps_on_err [steps_intro]:
  assumes "preorder_rel R" and m: "steps R m" and h: "\<And>e w. R w (snd (h e w))"
  shows "steps R (on_err h m)"
  unfolding steps_def
proof
  fix w
  have mw: "R w (snd (m w))" using m by (simp add: steps_def)
  have tr: "\<And>a b c. R a b \<Longrightarrow> R b c \<Longrightarrow> R a c"
    using assms(1) by (auto simp: preorder_rel_def dest: transpD)
  show "R w (snd (on_err h m w))"
    using mw h tr by (auto simp: on_err_def split: prod.splits sum.splits) (metis snd_conv)+
qed

lemma steps_for_each [steps_intro]:
  "preorder_rel R \<Longrightarrow> (\<And>x. x \<in> set xs \<Longrightarrow> steps R (f x)) \<Longrightarrow> steps R (for_each xs f)"
  by (induction xs) (auto intro!: steps_intro)

lemma for_each_Inr: "for_each xs f w = (Inr u, w') \<Longrightarrow> x \<in> set xs \<Longrightarrow> \<exists>v v'. f x v = (Inr (), v')"
  by (induction xs arbitrary: w) (auto simp: run_iff)

lemma steps_collect_each [steps_intro]:
  "preorder_rel R \<Longrightarrow> (\<And>x. x \<in> set xs \<Longrightarrow> steps R (f x)) \<Longrightarrow> steps R (collect_each xs f)"
  by (induction xs) (auto intro!: steps_intro)

lemma steps_case_sum [steps_intro]:
  "(\<And>e. r = Inl e \<Longrightarrow> steps R (f e)) \<Longrightarrow> (\<And>x. r = Inr x \<Longrightarrow> steps R (g x)) \<Longrightarrow>
   steps R (case r of Inl e \<Rightarrow> f e | Inr x \<Rightarrow> g x)"
  by (cases r) auto

lemma steps_case_option [steps_intro]:
  "(r = None \<Longrightarrow> steps R f) \<Longrightarrow> (\<And>x. r = Some x \<Longrightarrow> steps R (g x)) \<Longrightarrow>
   steps R (case r of None \<Rightarrow> f | Some x \<Rightarrow> g x)"
  by (cases r) auto

lemma steps_if [steps_intro]:
  "(b \<Longrightarrow> steps R f) \<Longrightarrow> (\<not> b \<Longrightarrow> steps R g) \<Longrightarrow> steps R (if b then f else g)"
  by simp

lemma steps_let [steps_intro]: "steps R (f x) \<Longrightarrow> steps R (let y = x in f y)"
  by simp

lemma steps_case_prod [steps_intro]:
  "(\<And>a b. p = (a, b) \<Longrightarrow> steps R (f a b)) \<Longrightarrow> steps R (case p of (a, b) \<Rightarrow> f a b)"
  by (cases p) auto

section \<open>Saturating arithmetic\<close>

text \<open>Rust's \<open>saturating_add\<close> and \<open>saturating_mul\<close>: the result is the largest value of the
  type when the exact one does not fit.\<close>

definition sat_add :: "'n::len word \<Rightarrow> 'n word \<Rightarrow> 'n word" where
  "sat_add a b = (if unat a + unat b < 2 ^ LENGTH('n) then a + b else - 1)"

definition sat_mul :: "'n::len word \<Rightarrow> 'n word \<Rightarrow> 'n word" where
  "sat_mul a b = (if unat a * unat b < 2 ^ LENGTH('n) then a * b else - 1)"

lemma unat_all_ones: "unat (- 1 :: 'n::len word) = 2 ^ LENGTH('n) - 1"
  by transfer (simp add: take_bit_minus_one_eq_mask mask_eq_exp_minus_1 nat_diff_distrib nat_power_eq)

lemma unat_sat_add:
  "unat (sat_add a b) = min (unat a + unat b) (2 ^ LENGTH('n) - 1)" for a b :: "'n::len word"
  by (auto simp: sat_add_def unat_word_ariths unat_all_ones)

lemma unat_sat_mul:
  "unat (sat_mul a b) = min (unat a * unat b) (2 ^ LENGTH('n) - 1)" for a b :: "'n::len word"
  by (auto simp: sat_mul_def unat_word_ariths unat_all_ones)

end
