(* ===== verification/Rust_Strings.thy ===== *)
theory Rust_Strings
  imports Prelude
begin

text \<open>
  Rust strings. A \<open>String\<close>, a \<open>&str\<close> and a byte buffer are all lists of bytes (\<open>char\<close> is an 8-bit
  value), a string being one whose bytes are valid UTF-8, so \<open>len()\<close> is \<open>length\<close> and \<open>as_bytes()\<close>
  is the identity. This theory holds what the program uses of the standard library on them: UTF-8
  validation and lossy decoding, \<open>trim\<close>, the case mappings as far as a comparison with ASCII text
  can see them, decimal printing, and parsing an unsigned number.
\<close>

type_synonym bytes = string

definition byte_val :: "char \<Rightarrow> nat" where
  "byte_val c = of_char c"

definition u8_of :: "char \<Rightarrow> u8" where
  "u8_of c = of_nat (byte_val c)"

lemma byte_val_less: "byte_val c < 256"
  by (simp add: byte_val_def)

lemma unat_u8_of: "unat (u8_of c) = byte_val c"
  using byte_val_less [of c] by (simp add: u8_of_def unat_of_nat)

lemma u8_of_inj: "u8_of c = u8_of d \<longleftrightarrow> c = d"
  by (metis byte_val_def of_char_eq_iff unat_u8_of)

section \<open>UTF-8\<close>

text \<open>\<open>utf8_step bs\<close> looks at the first character: \<open>(n, True)\<close> if \<open>bs\<close> starts with a well-formed
  sequence of \<open>n\<close> bytes, \<open>(n, False)\<close> if it starts with \<open>n\<close> bytes that \<open>from_utf8_lossy\<close> replaces by
  one U+FFFD (the longest prefix of a well-formed sequence, at least one byte).\<close>

definition cont :: "char \<Rightarrow> bool" where
  "cont c \<longleftrightarrow> 128 \<le> byte_val c \<and> byte_val c < 192"

definition second_ok :: "char \<Rightarrow> char \<Rightarrow> bool" where
  "second_ok c d \<longleftrightarrow>
     (if byte_val c = 224 then 160 \<le> byte_val d \<and> byte_val d < 192
      else if byte_val c = 237 then 128 \<le> byte_val d \<and> byte_val d < 160
      else if byte_val c = 240 then 144 \<le> byte_val d \<and> byte_val d < 192
      else if byte_val c = 244 then 128 \<le> byte_val d \<and> byte_val d < 144
      else cont d)"

definition seq_len :: "char \<Rightarrow> nat" where
  "seq_len c =
     (if byte_val c < 128 then 1
      else if 194 \<le> byte_val c \<and> byte_val c < 224 then 2
      else if 224 \<le> byte_val c \<and> byte_val c < 240 then 3
      else if 240 \<le> byte_val c \<and> byte_val c < 245 then 4 else 0)"

fun utf8_step :: "bytes \<Rightarrow> nat \<times> bool" where
  "utf8_step [] = (1, False)"
| "utf8_step (c # cs) =
     (if seq_len c = 0 then (1, False)
      else if seq_len c = 1 then (1, True)
      else case cs of [] \<Rightarrow> (1, False) | d # ds \<Rightarrow>
        if \<not> second_ok c d then (1, False)
        else if seq_len c = 2 then (2, True)
        else case ds of [] \<Rightarrow> (2, False) | e # es \<Rightarrow>
          if \<not> cont e then (2, False)
          else if seq_len c = 3 then (3, True)
          else case es of [] \<Rightarrow> (3, False) | f # _ \<Rightarrow>
            if \<not> cont f then (3, False) else (4, True))"

lemma utf8_step_pos: "0 < fst (utf8_step bs)"
  by (cases bs) (auto split: list.splits)

function valid_utf8 :: "bytes \<Rightarrow> bool" where
  "valid_utf8 [] = True"
| "valid_utf8 (c # cs) =
     (snd (utf8_step (c # cs)) \<and> valid_utf8 (drop (fst (utf8_step (c # cs)) - 1) cs))"
  by pat_completeness auto
termination
  by (relation "measure length") auto

function from_utf8_lossy :: "bytes \<Rightarrow> bytes" where
  "from_utf8_lossy [] = []"
| "from_utf8_lossy (c # cs) =
     (let n = fst (utf8_step (c # cs)); rest = from_utf8_lossy (drop (n - 1) cs)
      in if snd (utf8_step (c # cs)) then take n (c # cs) @ rest
         else [CHR 0xEF, CHR 0xBF, CHR 0xBD] @ rest)"
  by pat_completeness auto
termination
  by (relation "measure length") auto

lemma from_utf8_lossy_valid: "valid_utf8 s \<Longrightarrow> from_utf8_lossy s = s"
proof (induction s rule: from_utf8_lossy.induct)
  case (2 c cs)
  let ?n = "fst (utf8_step (c # cs))"
  have "take ?n (c # cs) @ drop (?n - 1) cs = c # cs"
    using utf8_step_pos [of "c # cs"] by (cases ?n) auto
  with 2 show ?case by (simp del: utf8_step.simps add: Let_def)
qed simp

declare valid_utf8.simps(2) [simp del] from_utf8_lossy.simps(2) [simp del]

definition em_dash :: string where
  "em_dash = [CHR 0xE2, CHR 0x80, CHR 0x94]"

section \<open>trim\<close>

text \<open>The UTF-8 encodings of the characters with the Unicode property White_Space.\<close>

definition ws_encodings :: "string list" where
  "ws_encodings =
     [[CHR 0x09], [CHR 0x0A], [CHR 0x0B], [CHR 0x0C], [CHR 0x0D], [CHR 0x20],
      [CHR 0xC2, CHR 0x85], [CHR 0xC2, CHR 0xA0], [CHR 0xE1, CHR 0x9A, CHR 0x80],
      [CHR 0xE2, CHR 0x80, CHR 0x80], [CHR 0xE2, CHR 0x80, CHR 0x81], [CHR 0xE2, CHR 0x80, CHR 0x82],
      [CHR 0xE2, CHR 0x80, CHR 0x83], [CHR 0xE2, CHR 0x80, CHR 0x84], [CHR 0xE2, CHR 0x80, CHR 0x85],
      [CHR 0xE2, CHR 0x80, CHR 0x86], [CHR 0xE2, CHR 0x80, CHR 0x87], [CHR 0xE2, CHR 0x80, CHR 0x88],
      [CHR 0xE2, CHR 0x80, CHR 0x89], [CHR 0xE2, CHR 0x80, CHR 0x8A], [CHR 0xE2, CHR 0x80, CHR 0xA8],
      [CHR 0xE2, CHR 0x80, CHR 0xA9], [CHR 0xE2, CHR 0x80, CHR 0xAF], [CHR 0xE2, CHR 0x81, CHR 0x9F],
      [CHR 0xE3, CHR 0x80, CHR 0x80]]"

fun strip_any :: "string list \<Rightarrow> string \<Rightarrow> string option" where
  "strip_any [] s = None"
| "strip_any (p # ps) s = (if p \<noteq> [] \<and> take (length p) s = p then Some (drop (length p) s) else strip_any ps s)"

lemma strip_any_shorter: "strip_any ps s = Some s' \<Longrightarrow> length s' < length s"
proof (induction ps)
  case (Cons p ps)
  show ?case
  proof (cases "p \<noteq> [] \<and> take (length p) s = p")
    case True
    then have "length p \<le> length s" by (metis length_take min.absorb_iff2 min.commute)
    with True Cons.prems show ?thesis by (cases p) auto
  next
    case False
    with Cons show ?thesis by auto
  qed
qed simp

function trim_front :: "string list \<Rightarrow> string \<Rightarrow> string" where
  "trim_front ps s = (case strip_any ps s of None \<Rightarrow> s | Some s' \<Rightarrow> trim_front ps s')"
  by pat_completeness auto
termination
  by (relation "measure (\<lambda>(ps, s). length s)") (auto dest: strip_any_shorter)

declare trim_front.simps [simp del]

definition trim :: "string \<Rightarrow> string" where
  "trim s = rev (trim_front (map rev ws_encodings) (rev (trim_front ws_encodings s)))"

lemma trim_Nil [simp]: "trim [] = []"
  by (simp add: trim_def ws_encodings_def trim_front.simps)

section \<open>Case mappings, as far as ASCII text can see\<close>

text \<open>
  The program compares an upper-cased (or lower-cased) string with ASCII literals only. Besides the
  ASCII letters, the characters whose full case mapping is ASCII are listed here; every other
  non-ASCII character maps to something that still contains a non-ASCII character, so leaving its
  bytes alone decides such a comparison in the same way.
\<close>

definition upper_special :: "(string \<times> string) list" where
  "upper_special =
     [([CHR 0xC4, CHR 0xB1], ''I''), ([CHR 0xC5, CHR 0xBF], ''S''), ([CHR 0xC3, CHR 0x9F], ''SS''),
      ([CHR 0xEF, CHR 0xAC, CHR 0x80], ''FF''), ([CHR 0xEF, CHR 0xAC, CHR 0x81], ''FI''),
      ([CHR 0xEF, CHR 0xAC, CHR 0x82], ''FL''), ([CHR 0xEF, CHR 0xAC, CHR 0x83], ''FFI''),
      ([CHR 0xEF, CHR 0xAC, CHR 0x84], ''FFL''), ([CHR 0xEF, CHR 0xAC, CHR 0x85], ''ST''),
      ([CHR 0xEF, CHR 0xAC, CHR 0x86], ''ST'')]"

definition lower_special :: "(string \<times> string) list" where
  "lower_special = [([CHR 0xE2, CHR 0x84, CHR 0xAA], ''k'')]"

definition up_char :: "char \<Rightarrow> char" where
  "up_char c = (if 97 \<le> byte_val c \<and> byte_val c \<le> 122 then char_of (byte_val c - 32) else c)"

definition low_char :: "char \<Rightarrow> char" where
  "low_char c = (if 65 \<le> byte_val c \<and> byte_val c \<le> 90 then char_of (byte_val c + 32) else c)"

fun special_at :: "(string \<times> string) list \<Rightarrow> string \<Rightarrow> (string \<times> nat) option" where
  "special_at [] s = None"
| "special_at ((p, r) # ps) s = (if take (length p) s = p then Some (r, length p) else special_at ps s)"

function case_map :: "(string \<times> string) list \<Rightarrow> (char \<Rightarrow> char) \<Rightarrow> string \<Rightarrow> string" where
  "case_map ps f [] = []"
| "case_map ps f (c # cs) =
     (case special_at ps (c # cs) of
        Some (r, n) \<Rightarrow> r @ case_map ps f (drop (n - 1) cs)
      | None \<Rightarrow> f c # case_map ps f cs)"
  by pat_completeness auto
termination
  by (relation "measure (\<lambda>(ps, f, s). length s)") auto

definition to_uppercase :: "string \<Rightarrow> string" where
  "to_uppercase s = case_map upper_special up_char s"

definition to_lowercase :: "string \<Rightarrow> string" where
  "to_lowercase s = case_map lower_special low_char s"

definition ascii :: "string \<Rightarrow> bool" where
  "ascii s \<longleftrightarrow> (\<forall>c \<in> set s. byte_val c < 128)"

lemma special_at_ascii:
  assumes "\<forall>(p, r) \<in> set ps. p \<noteq> [] \<and> 128 \<le> byte_val (hd p)" and "byte_val c < 128"
  shows "special_at ps (c # cs) = None"
  using assms
proof (induction ps)
  case (Cons pr ps)
  then show ?case by (cases pr; cases "fst pr") auto
qed simp

lemma case_map_ascii:
  assumes "\<forall>(p, r) \<in> set ps. p \<noteq> [] \<and> 128 \<le> byte_val (hd p)" and "ascii s"
  shows "case_map ps f s = map f s"
  using assms(2) by (induction s) (auto simp: ascii_def special_at_ascii [OF assms(1)])

lemma to_uppercase_ascii: "ascii s \<Longrightarrow> to_uppercase s = map up_char s"
  unfolding to_uppercase_def
  by (rule case_map_ascii) (auto simp: upper_special_def byte_val_def)

lemma to_lowercase_ascii: "ascii s \<Longrightarrow> to_lowercase s = map low_char s"
  unfolding to_lowercase_def
  by (rule case_map_ascii) (auto simp: lower_special_def byte_val_def)

section \<open>Decimal numbers\<close>

definition digit :: "nat \<Rightarrow> char" where
  "digit n = char_of (48 + n)"

fun show_nat :: "nat \<Rightarrow> string" where
  "show_nat n = (if n < 10 then [digit n] else show_nat (n div 10) @ [digit (n mod 10)])"

declare show_nat.simps [simp del]

definition show_int :: "int \<Rightarrow> string" where
  "show_int i = (if i < 0 then ''-'' @ show_nat (nat (- i)) else show_nat (nat i))"

definition is_digit :: "char \<Rightarrow> bool" where
  "is_digit c \<longleftrightarrow> 48 \<le> byte_val c \<and> byte_val c \<le> 57"

definition digits_val :: "string \<Rightarrow> nat" where
  "digits_val s = foldl (\<lambda>n c. 10 * n + (byte_val c - 48)) 0 s"

text \<open>\<open>str::parse::<u64>\<close>: an optional plus sign, at least one digit, no overflow.\<close>

definition parse_u64 :: "string \<Rightarrow> u64 option" where
  "parse_u64 s =
     (let ds = (if take 1 s = ''+'' then drop 1 s else s)
      in if ds \<noteq> [] \<and> list_all is_digit ds \<and> digits_val ds < 2 ^ 64
         then Some (of_nat (digits_val ds)) else None)"

lemma byte_val_digit: "n < 10 \<Longrightarrow> byte_val (digit n) = 48 + n"
  by (simp add: byte_val_def digit_def)

lemma is_digit_digit: "n < 10 \<Longrightarrow> is_digit (digit n)"
  by (simp add: is_digit_def byte_val_digit)

lemma show_nat_digits: "list_all is_digit (show_nat n) \<and> show_nat n \<noteq> []"
proof (induction n rule: show_nat.induct)
  case (1 n)
  then show ?case
    by (subst show_nat.simps, subst (2) show_nat.simps) (auto simp: is_digit_digit)
qed

lemma digits_val_snoc: "digits_val (s @ [c]) = 10 * digits_val s + (byte_val c - 48)"
  by (simp add: digits_val_def)

lemma digits_val_show_nat: "digits_val (show_nat n) = n"
proof (induction n rule: show_nat.induct)
  case (1 n)
  show ?case
  proof (cases "n < 10")
    case True
    then show ?thesis by (subst show_nat.simps) (simp add: digits_val_def byte_val_digit)
  next
    case False
    with 1 show ?thesis by (subst show_nat.simps) (simp add: digits_val_snoc byte_val_digit)
  qed
qed

lemma show_nat_inj: "show_nat m = show_nat n \<longleftrightarrow> m = n"
  by (metis digits_val_show_nat)

lemma show_nat_no_plus: "take 1 (show_nat n) \<noteq> ''+''"
proof
  assume "take 1 (show_nat n) = ''+''"
  moreover have "list_all is_digit (take 1 (show_nat n))"
    using show_nat_digits [of n] by (metis list_all_append append_take_drop_id)
  ultimately show False by (simp add: is_digit_def byte_val_def)
qed

lemma parse_u64_show: "parse_u64 (show_nat (unat (x :: u64))) = Some x"
proof -
  have "unat x < 2 ^ 64" using unsigned_less [of x] by simp
  then show ?thesis
    using show_nat_digits [of "unat x"] show_nat_no_plus [of "unat x"]
    by (simp add: parse_u64_def Let_def digits_val_show_nat)
qed

end
