(* ===== verification/Json.thy ===== *)
theory Json
  imports Rust_Strings
begin

text \<open>
  JSON values as the program handles them, and the canonical form all its message authentication
  codes and signatures are computed over.

  An object is the list of its entries in iteration order. The object type of the JSON library is the
  standard library's \<open>BTreeMap<String, Value>\<close> (its \<open>preserve_order\<close> feature is off), so a value that
  the library built has strictly increasing keys at every level: \<open>json_wf\<close>. Building a map from a
  sequence of entries (\<open>collect\<close>, \<open>insert\<close>, the \<open>json!\<close> macro) is \<open>bt_collect\<close> and \<open>bt_insert\<close>.
\<close>

datatype json_num = PosInt u64 | NegInt u64 | Float u64

datatype json =
    JNull
  | JBool bool
  | JNumber json_num
  | JString string
  | JArray "json list"
  | JObject "(string \<times> json) list"

section \<open>Ordered maps\<close>

fun bt_insert :: "string \<Rightarrow> 'v \<Rightarrow> (string \<times> 'v) list \<Rightarrow> (string \<times> 'v) list" where
  "bt_insert k v [] = [(k, v)]"
| "bt_insert k v ((k', v') # m) =
     (if k < k' then (k, v) # (k', v') # m
      else if k = k' then (k, v) # m
      else (k', v') # bt_insert k v m)"

definition bt_collect :: "(string \<times> 'v) list \<Rightarrow> (string \<times> 'v) list" where
  "bt_collect kvs = foldl (\<lambda>m (k, v). bt_insert k v m) [] kvs"

definition bt_remove :: "string \<Rightarrow> (string \<times> 'v) list \<Rightarrow> (string \<times> 'v) list" where
  "bt_remove k m = filter (\<lambda>(k', _). k' \<noteq> k) m"

abbreviation bt_sorted :: "(string \<times> 'v) list \<Rightarrow> bool" where
  "bt_sorted m \<equiv> sorted_wrt (<) (map fst m)"

lemma set_bt_insert_keys: "fst ` set (bt_insert k v m) = insert k (fst ` set m)"
proof (induction m)
  case (Cons kv m)
  then show ?case by (cases kv) (simp add: insert_commute)
qed simp

lemma bt_insert_sorted: "bt_sorted m \<Longrightarrow> bt_sorted (bt_insert k v m)"
proof (induction m)
  case (Cons kv m)
  have "k' < x" if "x \<in> fst ` set (bt_insert k v m)" "fst kv = k'" "k' < k" for x k'
    using that Cons.prems by (auto simp: set_bt_insert_keys)
  with Cons show ?case
    by (cases kv) (auto simp: image_iff dest: order.strict_trans)
qed simp

lemma map_of_bt_insert: "map_of (bt_insert k v m) = (map_of m)(k \<mapsto> v)"
  by (induction m) (auto simp: fun_eq_iff)

lemma foldl_bt_insert_sorted:
  "bt_sorted m \<Longrightarrow> bt_sorted (foldl (\<lambda>m (k, v). bt_insert k v m) m kvs)"
  by (induction kvs arbitrary: m) (auto simp: bt_insert_sorted)

lemma bt_collect_sorted: "bt_sorted (bt_collect kvs)"
  by (simp add: bt_collect_def foldl_bt_insert_sorted)

lemma map_of_foldl_bt_insert:
  "map_of (foldl (\<lambda>m (k, v). bt_insert k v m) m kvs) = map_of m ++ map_of (rev kvs)"
  by (induction kvs arbitrary: m) (auto simp: map_of_bt_insert map_add_def fun_eq_iff split: option.splits)

lemma map_of_bt_collect: "map_of (bt_collect kvs) = map_of (rev kvs)"
  by (simp add: bt_collect_def map_of_foldl_bt_insert)

lemma bt_sorted_distinct: "bt_sorted m \<Longrightarrow> distinct (map fst m)"
  by (simp add: strict_sorted_iff)

text \<open>An ordered map is determined by its lookups.\<close>

lemma bt_sorted_eqI:
  assumes "bt_sorted m" "bt_sorted n" "map_of m = map_of n"
  shows "m = n"
proof -
  have d: "distinct (map fst m)" "distinct (map fst n)"
    using assms(1,2) by (simp_all add: bt_sorted_distinct)
  with assms(3) have s: "set m = set n" by (metis map_of_inject_set)
  then have "set (map fst m) = set (map fst n)" by (metis set_map)
  with assms(1,2) have f: "map fst m = map fst n" by (metis strict_sorted_equal)
  have via: "xs = map (\<lambda>k. (k, the (map_of xs k))) (map fst xs)" if "distinct (map fst xs)" for xs :: "(string \<times> 'a) list"
    using that by (auto simp: map_idI intro!: map_idI [symmetric])
  show ?thesis
    using via [OF d(1)] via [OF d(2)] f assms(3) by metis
qed

lemma map_of_rev_distinct: "distinct (map fst m) \<Longrightarrow> map_of (rev m) = map_of m"
  by (subst map_of_inject_set) (simp_all flip: rev_map)

lemma bt_collect_id: "bt_sorted m \<Longrightarrow> bt_collect m = m"
  by (rule bt_sorted_eqI) (auto simp: bt_collect_sorted map_of_bt_collect bt_sorted_distinct map_of_rev_distinct)

lemma bt_remove_sorted: "bt_sorted m \<Longrightarrow> bt_sorted (bt_remove k m)"
  by (induction m) (auto simp: bt_remove_def)

lemma map_of_bt_remove: "map_of (bt_remove k m) = (map_of m)(k := None)"
  by (induction m) (auto simp: bt_remove_def fun_eq_iff)

lemma bt_remove_insert:
  assumes "bt_sorted m" "map_of m k = None"
  shows "bt_remove k (bt_insert k v m) = m"
  using assms
  by (intro bt_sorted_eqI) (auto simp: bt_remove_sorted bt_insert_sorted map_of_bt_remove map_of_bt_insert fun_eq_iff)

section \<open>Values\<close>

definition json_obj :: "(string \<times> json) list \<Rightarrow> json" where
  "json_obj kvs = JObject (bt_collect kvs)"

fun obj_get :: "json \<Rightarrow> string \<Rightarrow> json option" where
  "obj_get (JObject m) k = map_of m k"
| "obj_get _ k = None"

fun as_str :: "json \<Rightarrow> string option" where
  "as_str (JString s) = Some s"
| "as_str _ = None"

fun as_u64 :: "json \<Rightarrow> u64 option" where
  "as_u64 (JNumber (PosInt n)) = Some n"
| "as_u64 _ = None"

definition jnat :: "u64 \<Rightarrow> json" where
  "jnat n = JNumber (PosInt n)"

fun json_wf :: "json \<Rightarrow> bool" where
  "json_wf (JArray vs) = (\<forall>v \<in> set vs. json_wf v)"
| "json_wf (JObject m) = (bt_sorted m \<and> (\<forall>(k, v) \<in> set m. json_wf v))"
| "json_wf _ = True"

text \<open>Objects without repeated keys, in any order: what the library writes for a struct.\<close>

fun json_distinct :: "json \<Rightarrow> bool" where
  "json_distinct (JArray vs) = (\<forall>v \<in> set vs. json_distinct v)"
| "json_distinct (JObject m) = (distinct (map fst m) \<and> (\<forall>(k, v) \<in> set m. json_distinct v))"
| "json_distinct _ = True"

lemma json_wf_distinct: "json_wf v \<Longrightarrow> json_distinct v"
  by (induction v rule: json_wf.induct) (auto simp: bt_sorted_distinct)

text \<open>Values whose text is read back exactly: strings are valid UTF-8 (as every Rust string is) and
  there is no floating-point number.\<close>

fun json_plain :: "json \<Rightarrow> bool" where
  "json_plain (JNumber (Float _)) = False"
| "json_plain (JString s) = valid_utf8 s"
| "json_plain (JArray vs) = (\<forall>v \<in> set vs. json_plain v)"
| "json_plain (JObject m) = (\<forall>(k, v) \<in> set m. valid_utf8 k \<and> json_plain v)"
| "json_plain _ = True"

text \<open>How deep a value nests: a scalar has depth 0, an empty array depth 1. The reader of the library gives up
  at 128 nested arrays and objects, so values of depth at most 127 are read back (\<open>json_readable\<close>).\<close>

fun json_depth :: "json \<Rightarrow> nat" where
  "json_depth (JArray vs) = Suc (foldr (\<lambda>v n. max (json_depth v) n) vs 0)"
| "json_depth (JObject m) = Suc (foldr (\<lambda>(k, v) n. max (json_depth v) n) m 0)"
| "json_depth _ = 0"

definition JSON_MAX_DEPTH :: nat where
  "JSON_MAX_DEPTH = 127"

definition json_readable :: "json \<Rightarrow> bool" where
  "json_readable v \<longleftrightarrow> json_plain v \<and> json_depth v \<le> JSON_MAX_DEPTH"

lemma foldr_max_le: "foldr (\<lambda>v n. max (f v) n) vs 0 \<le> k \<longleftrightarrow> (\<forall>v \<in> set vs. f v \<le> k)" for f :: "'a \<Rightarrow> nat"
  by (induction vs) auto

lemma json_depth_object: "json_depth (JObject m) \<le> Suc k \<longleftrightarrow> (\<forall>(x, v) \<in> set m. json_depth v \<le> k)"
  using foldr_max_le [of "\<lambda>(x, v). json_depth v" m k] by (simp add: case_prod_unfold)

lemma json_wf_obj: "(\<forall>(k, v) \<in> set kvs. json_wf v) \<Longrightarrow> json_wf (json_obj kvs)"
proof -
  assume a: "\<forall>(k, v) \<in> set kvs. json_wf v"
  have "(k, v) \<in> set kvs" if "(k, v) \<in> set (bt_collect kvs)" for k v
  proof -
    have "map_of (bt_collect kvs) k = Some v"
      using that by (simp add: bt_collect_sorted bt_sorted_distinct)
    then show ?thesis by (simp add: map_of_bt_collect) (metis map_of_SomeD set_rev)
  qed
  with a show ?thesis by (auto simp: json_obj_def bt_collect_sorted)
qed

section \<open>The canonical form\<close>

fun sort_json_keys :: "json \<Rightarrow> json" where
  "sort_json_keys (JObject m) =
     JObject (bt_collect (sort_key fst (map (\<lambda>(k, v). (k, sort_json_keys v)) m)))"
| "sort_json_keys (JArray vs) = JArray (map sort_json_keys vs)"
| "sort_json_keys other = other"


text \<open>Sorting the entries first makes no difference to the collected map when the keys are distinct:
  the map does not depend on the order in which its entries were inserted.\<close>

lemma bt_collect_sort_key:
  assumes "distinct (map fst m)"
  shows "bt_collect (sort_key fst m) = bt_collect m"
proof (rule bt_sorted_eqI)
  have d: "distinct (map fst (sort_key fst m))"
    using assms by (metis distinct_map distinct_sort set_sort)
  show "map_of (bt_collect (sort_key fst m)) = map_of (bt_collect m)"
    using assms d by (simp add: map_of_bt_collect map_of_rev_distinct map_of_inject_set)
qed (simp_all add: bt_collect_sorted)

lemma bt_collect_perm:
  assumes "distinct (map fst m)" "distinct (map fst n)" "set m = set n"
  shows "bt_collect m = bt_collect n"
proof (rule bt_sorted_eqI)
  show "map_of (bt_collect m) = map_of (bt_collect n)"
    using assms by (simp add: map_of_bt_collect map_of_rev_distinct map_of_inject_set)
qed (simp_all add: bt_collect_sorted)

lemma map_fst_sort_children: "map fst (map (\<lambda>(k, v). (k, f v)) m) = map fst m"
  by auto

lemma set_bt_collect: "set (bt_collect kvs) \<subseteq> set kvs"
proof
  fix kv assume "kv \<in> set (bt_collect kvs)"
  then have "map_of (bt_collect kvs) (fst kv) = Some (snd kv)"
    by (simp add: bt_collect_sorted bt_sorted_distinct)
  then show "kv \<in> set kvs"
    by (simp add: map_of_bt_collect) (metis map_of_SomeD prod.collapse set_rev)
qed

lemma set_bt_insert: "set (bt_insert k v m) \<subseteq> insert (k, v) (set m)"
proof (induction m)
  case (Cons kv m)
  then show ?case by (cases kv) (auto split: if_splits)
qed simp

lemma json_wf_insert: "json_wf (JObject m) \<Longrightarrow> json_wf v \<Longrightarrow> json_wf (JObject (bt_insert k v m))"
  using set_bt_insert [of k v m] by (auto simp: bt_insert_sorted)

lemma json_plain_insert:
  "json_plain (JObject m) \<Longrightarrow> valid_utf8 k \<Longrightarrow> json_plain v \<Longrightarrow> json_plain (JObject (bt_insert k v m))"
  using set_bt_insert [of k v m] by auto

lemma json_plain_obj:
  "(\<forall>(k, v) \<in> set kvs. valid_utf8 k \<and> json_plain v) \<Longrightarrow> json_plain (json_obj kvs)"
  using set_bt_collect [of kvs] by (auto simp: json_obj_def)

lemma json_depth_insert:
  "json_depth (JObject m) \<le> Suc n \<Longrightarrow> json_depth v \<le> n \<Longrightarrow> json_depth (JObject (bt_insert k v m)) \<le> Suc n"
  using set_bt_insert [of k v m] unfolding json_depth_object by auto

lemma json_depth_obj:
  "(\<forall>(k, v) \<in> set kvs. json_depth v \<le> n) \<Longrightarrow> json_depth (json_obj kvs) \<le> Suc n"
  using set_bt_collect [of kvs] unfolding json_obj_def json_depth_object by auto

text \<open>An object of readable values that leave room for one more level is readable.\<close>

lemma json_readable_obj:
  "(\<forall>(k, v) \<in> set kvs. valid_utf8 k \<and> json_plain v \<and> json_depth v < JSON_MAX_DEPTH) \<Longrightarrow> json_readable (json_obj kvs)"
  using json_plain_obj [of kvs] json_depth_obj [of kvs "JSON_MAX_DEPTH - 1"]
  by (fastforce simp: json_readable_def JSON_MAX_DEPTH_def)

lemma json_readable_insert:
  "json_readable (JObject m) \<Longrightarrow> valid_utf8 k \<Longrightarrow> json_plain v \<Longrightarrow> json_depth v < JSON_MAX_DEPTH \<Longrightarrow>
   json_readable (JObject (bt_insert k v m))"
  using json_plain_insert [of m k v] json_depth_insert [of m "JSON_MAX_DEPTH - 1" v k]
  by (simp add: json_readable_def JSON_MAX_DEPTH_def del: json_plain.simps json_depth.simps)

text \<open>The canonical form has sorted keys at every level, whatever it is computed from.\<close>

lemma sort_json_keys_wf: "json_wf (sort_json_keys v)"
proof (induction v rule: sort_json_keys.induct)
  case (1 m)
  then show ?case
    using set_bt_collect [of "sort_key fst (map (\<lambda>(k, v). (k, sort_json_keys v)) m)"]
    by (auto simp: bt_collect_sorted dest!: subsetD)
qed auto

lemma sort_key_sorted_id: "bt_sorted m \<Longrightarrow> sort_key fst m = m"
  by (rule sort_key_id_if_sorted) (simp add: strict_sorted_imp_sorted)

text \<open>On a value the library built, sorting changes nothing.\<close>

lemma sort_json_keys_id: "json_wf v \<Longrightarrow> sort_json_keys v = v"
proof (induction v rule: sort_json_keys.induct)
  case (1 m)
  have m: "map (\<lambda>(k, v). (k, sort_json_keys v)) m = m"
    using 1 by (intro map_idI) auto
  show ?case
    using 1 by (simp add: m sort_key_sorted_id bt_collect_id)
next
  case (2 vs)
  then show ?case by (simp add: map_idI)
qed auto

lemma sort_json_keys_idem: "sort_json_keys (sort_json_keys v) = sort_json_keys v"
  by (simp add: sort_json_keys_id sort_json_keys_wf)

text \<open>Two objects with the same entries in any order have the same canonical form.\<close>

lemma sort_json_keys_perm:
  assumes "distinct (map fst m)" "distinct (map fst n)" "set m = set n"
  shows "sort_json_keys (JObject m) = sort_json_keys (JObject n)"
proof -
  let ?f = "map (\<lambda>(k, v). (k, sort_json_keys v))"
  have "bt_collect (?f m) = bt_collect (?f n)"
    using assms by (intro bt_collect_perm) (simp_all only: map_fst_sort_children set_map)
  with assms show ?thesis
    by (simp only: sort_json_keys.simps bt_collect_sort_key map_fst_sort_children)
qed

end
