(* ===== verification/Rust_Path.thy ===== *)
theory Rust_Path
  imports Rust_Strings "HOL-Library.Sublist"
begin

text \<open>
  What the program uses of \<open>std::path\<close> on Unix. A path is the sequence of its components, which is
  what \<open>Path\<close> compares, strips prefixes of and joins by (a trailing slash, which is no component but which the
  system calls see, is not kept: opening \<open>f/\<close> for a file \<open>f\<close> fails in the system and not in the model); \<open>parse_path\<close> is the parser behind
  \<open>Path::components\<close> (repeated and trailing slashes and inner dots disappear).
\<close>

datatype comp = RootDir | CurDir | ParentDir | Normal string

type_synonym path = "comp list"
type_synonym names = "string list"

section \<open>Parsing\<close>

fun split_on :: "char \<Rightarrow> string \<Rightarrow> string list" where
  "split_on d [] = [[]]"
| "split_on d (c # cs) =
     (if c = d then [] # split_on d cs
      else case split_on d cs of [] \<Rightarrow> [[c]] | x # xs \<Rightarrow> (c # x) # xs)"

definition segment :: "string \<Rightarrow> comp" where
  "segment s = (if s = ''..'' then ParentDir else if s = ''.'' then CurDir else Normal s)"

definition parse_path :: "string \<Rightarrow> path" where
  "parse_path s =
     (let segs = map segment (filter (\<lambda>x. x \<noteq> []) (split_on (CHR ''/'') s))
      in if take 1 s = ''/'' then RootDir # filter (\<lambda>c. c \<noteq> CurDir) segs
         else case segs of [] \<Rightarrow> [] | c # cs \<Rightarrow> c # filter (\<lambda>c. c \<noteq> CurDir) cs)"

section \<open>Operations\<close>

definition is_absolute :: "path \<Rightarrow> bool" where
  "is_absolute p \<longleftrightarrow> take 1 p = [RootDir]"

definition path_join :: "path \<Rightarrow> path \<Rightarrow> path" where
  "path_join p q =
     (if is_absolute q then q
      else if p = [] then q
      else p @ filter (\<lambda>c. c \<noteq> CurDir) q)"

definition file_name :: "path \<Rightarrow> string option" where
  "file_name p = (if p = [] then None else case last p of Normal s \<Rightarrow> Some s | _ \<Rightarrow> None)"

definition path_parent :: "path \<Rightarrow> path option" where
  "path_parent p = (if p = [] \<or> last p = RootDir then None else Some (butlast p))"

definition strip_prefix :: "path \<Rightarrow> path \<Rightarrow> path option" where
  "strip_prefix p base = (if take (length base) p = base then Some (drop (length base) p) else None)"

text \<open>\<open>file_stem\<close>: the name up to its last dot, unless that dot is the first character.\<close>

definition stem :: "string \<Rightarrow> string" where
  "stem s =
     (if CHR ''.'' \<in> set s \<and> tl (dropWhile (\<lambda>c. c \<noteq> CHR ''.'') (rev s)) \<noteq> []
      then rev (tl (dropWhile (\<lambda>c. c \<noteq> CHR ''.'') (rev s)))
      else s)"

definition with_extension :: "path \<Rightarrow> string \<Rightarrow> path" where
  "with_extension p ext =
     (case file_name p of None \<Rightarrow> p
      | Some s \<Rightarrow> butlast p @ [Normal (stem s @ ''.'' @ ext)])"

text \<open>The text of a path.\<close>

fun comp_text :: "comp \<Rightarrow> string" where
  "comp_text RootDir = []"
| "comp_text CurDir = ''.''"
| "comp_text ParentDir = ''..''"
| "comp_text (Normal s) = s"

definition path_text :: "path \<Rightarrow> string" where
  "path_text p = (if p = [RootDir] then ''/'' else tl (concat (map (\<lambda>c. CHR ''/'' # comp_text c) p)))"

section \<open>Resolution\<close>

text \<open>The absolute sequence of names a path denotes for a process whose working directory is \<open>cwd\<close>,
  in a file system without symbolic links.\<close>

fun resolve_from :: "names \<Rightarrow> path \<Rightarrow> names" where
  "resolve_from d [] = d"
| "resolve_from d (RootDir # p) = resolve_from [] p"
| "resolve_from d (CurDir # p) = resolve_from d p"
| "resolve_from d (ParentDir # p) = resolve_from (butlast d) p"
| "resolve_from d (Normal s # p) = resolve_from (d @ [s]) p"

definition abs_path :: "names \<Rightarrow> path" where
  "abs_path ns = RootDir # map Normal ns"

section \<open>Facts\<close>

lemma resolve_from_append: "resolve_from d (p @ q) = resolve_from (resolve_from d p) q"
  by (induction d p rule: resolve_from.induct) auto

lemma resolve_from_normals: "resolve_from d (map Normal ns) = d @ ns"
  by (induction ns arbitrary: d) auto

lemma resolve_abs_path [simp]: "resolve_from d (abs_path ns) = ns"
  by (simp add: abs_path_def resolve_from_normals)

lemma is_absolute_abs_path [simp]: "is_absolute (abs_path ns)"
  by (simp add: is_absolute_def abs_path_def)

lemma resolve_from_absolute: "is_absolute p \<Longrightarrow> resolve_from d p = resolve_from d' p"
  by (cases p) (auto simp: is_absolute_def)

lemma resolve_filter_curdir: "resolve_from d (filter (\<lambda>c. c \<noteq> CurDir) q) = resolve_from d q"
  by (induction d q rule: resolve_from.induct) auto

lemma resolve_path_join:
  "\<not> is_absolute q \<Longrightarrow> resolve_from d (path_join p q) = resolve_from (resolve_from d p) q"
  by (auto simp: path_join_def resolve_from_append resolve_filter_curdir)

lemma path_join_normal: "path_join p [Normal s] = p @ [Normal s]"
  by (simp add: path_join_def is_absolute_def)

text \<open>A path with no parent components stays below the directory it is resolved from.\<close>

lemma resolve_no_parent:
  "ParentDir \<notin> set p \<Longrightarrow> RootDir \<notin> set p \<Longrightarrow> \<exists>ns. resolve_from d p = d @ ns"
proof (induction d p rule: resolve_from.induct)
  case (5 d s p)
  then obtain ns where "resolve_from (d @ [s]) p = (d @ [s]) @ ns" by auto
  then show ?case by simp
qed auto

lemma strip_prefix_Some: "strip_prefix p base = Some r \<longleftrightarrow> p = base @ r"
  by (auto simp: strip_prefix_def) (metis append_take_drop_id)

lemma split_on_segments: "x \<in> set (split_on d s) \<Longrightarrow> d \<notin> set x"
proof (induction s arbitrary: x)
  case (Cons c cs)
  then show ?case by (fastforce split: if_splits list.splits)
qed simp

lemma split_on_single: "d \<notin> set s \<Longrightarrow> split_on d s = [s]"
  by (induction s) auto

text \<open>A plain file name is one normal component.\<close>

definition plain_name :: "string \<Rightarrow> bool" where
  "plain_name s \<longleftrightarrow> s \<noteq> [] \<and> CHR ''/'' \<notin> set s \<and> s \<noteq> ''.'' \<and> s \<noteq> ''..''"

lemma parse_plain_name: "plain_name s \<Longrightarrow> parse_path s = [Normal s]"
  by (cases s) (auto simp: plain_name_def parse_path_def split_on_single segment_def Let_def)

lemma segment_not_root: "segment s \<noteq> RootDir"
  by (simp add: segment_def)

lemma root_only_first: "RootDir \<notin> set (tl (parse_path s))"
proof -
  have r: "RootDir \<notin> set (map segment xs)" for xs
    using segment_not_root by (metis ex_map_conv)
  show ?thesis
  proof (cases "map segment (filter (\<lambda>x. x \<noteq> []) (split_on (CHR ''/'') s))")
    case Nil
    then show ?thesis by (simp add: parse_path_def Let_def)
  next
    case (Cons c cs)
    then have "RootDir \<notin> set (c # cs)" using r by metis
    then show ?thesis by (simp add: parse_path_def Let_def Cons)
  qed
qed

lemma stem_split:
  "stem s = s \<or> (\<exists>ext. s = stem s @ CHR ''.'' # ext \<and> CHR ''.'' \<notin> set ext)"
proof (cases "CHR ''.'' \<in> set s \<and> tl (dropWhile (\<lambda>c. c \<noteq> CHR ''.'') (rev s)) \<noteq> []")
  case True
  let ?P = "\<lambda>c. c \<noteq> CHR ''.''"
  have ne: "dropWhile ?P (rev s) \<noteq> []" using True by auto
  then have hd: "hd (dropWhile ?P (rev s)) = CHR ''.''" using hd_dropWhile [of ?P "rev s"] by blast
  have "rev s = takeWhile ?P (rev s) @ CHR ''.'' # tl (dropWhile ?P (rev s))"
    using ne hd by (metis list.collapse takeWhile_dropWhile_id)
  then have "s = stem s @ CHR ''.'' # rev (takeWhile ?P (rev s))"
    using True by (metis (no_types, lifting) append.assoc append_Cons append_Nil rev.simps(2) rev_append rev_rev_ident stem_def)
  moreover have "CHR ''.'' \<notin> set (rev (takeWhile ?P (rev s)))" by (auto dest: set_takeWhileD)
  ultimately show ?thesis by blast
qed (auto simp: stem_def)

lemma with_extension_other_name:
  "CHR ''.'' \<in> set ext \<Longrightarrow> stem s @ CHR ''.'' # ext \<noteq> s"
  using stem_split [of s] by (metis append_self_conv list.distinct(1) list.inject same_append_eq)

lemma stem_length: "length (stem s) \<le> length s"
proof -
  have "length (tl (dropWhile P xs)) \<le> length xs" for P :: "char \<Rightarrow> bool" and xs
    by (metis diff_le_self le_trans length_dropWhile_le length_tl)
  then show ?thesis by (auto simp: stem_def) (metis length_rev)
qed

end
