(* ===== verification/Errors.thy ===== *)
theory Errors
  imports Rust_Strings
begin

text \<open>
  The error type of the engine, its \<open>Display\<close> text, the C status codes, and the classification of
  \<open>src/error.rs\<close>. The constructors that wrap a foreign error (\<open>Io\<close>, \<open>Json\<close>, \<open>Yaml\<close>) carry that
  error's own text. The operations that act on the error counter and on the C heap are in
  \<open>Result_FFI\<close>.
\<close>

section \<open>Errors and their text\<close>

datatype synqro_error =
    InvalidInput string
  | Crypto string
  | Network string
  | SignatureVerification string
  | RollbackBlocked string
  | Permission string
  | Config string
  | Io string
  | Json string
  | Yaml string
  | Internal string
  | Signature string
  | Rollback string
  | Degraded
  | Keychain string

fun display_error :: "synqro_error \<Rightarrow> string" where
  "display_error (InvalidInput m) = ''invalid input: '' @ m"
| "display_error (Crypto m) = ''cryptographic error: '' @ m"
| "display_error (Network m) = ''network error: '' @ m"
| "display_error (SignatureVerification m) = ''signature verification failed: '' @ m"
| "display_error (RollbackBlocked m) = ''rollback blocked: '' @ m"
| "display_error (Permission m) = ''permission denied: '' @ m"
| "display_error (Config m) = ''configuration error: '' @ m"
| "display_error (Io m) = ''I/O error: '' @ m"
| "display_error (Json m) = ''JSON error: '' @ m"
| "display_error (Yaml m) = ''YAML error: '' @ m"
| "display_error (Internal m) = ''internal error''"
| "display_error (Signature m) = ''signature verification failed: '' @ m"
| "display_error (Rollback m) = ''rollback failed: '' @ m"
| "display_error Degraded = ''engine in degraded mode '' @ em_dash @ '' check audit log and reset''"
| "display_error (Keychain m) = ''keychain error: '' @ m"

section \<open>Status codes\<close>

datatype synqro_status =
    SynqroOk
  | SynqroErrInvalidInput
  | SynqroErrCrypto
  | SynqroErrNetwork
  | SynqroErrSignature
  | SynqroErrRollback
  | SynqroErrPermission
  | SynqroErrInternal

fun status_code :: "synqro_status \<Rightarrow> nat" where
  "status_code SynqroOk = 0"
| "status_code SynqroErrInvalidInput = 1"
| "status_code SynqroErrCrypto = 2"
| "status_code SynqroErrNetwork = 3"
| "status_code SynqroErrSignature = 4"
| "status_code SynqroErrRollback = 5"
| "status_code SynqroErrPermission = 6"
| "status_code SynqroErrInternal = 99"

fun status_of_error :: "synqro_error \<Rightarrow> synqro_status" where
  "status_of_error (InvalidInput _) = SynqroErrInvalidInput"
| "status_of_error (Crypto _) = SynqroErrCrypto"
| "status_of_error (Network _) = SynqroErrNetwork"
| "status_of_error (SignatureVerification _) = SynqroErrSignature"
| "status_of_error (RollbackBlocked _) = SynqroErrRollback"
| "status_of_error (Permission _) = SynqroErrPermission"
| "status_of_error (Config _) = SynqroErrInternal"
| "status_of_error (Io _) = SynqroErrInternal"
| "status_of_error (Json _) = SynqroErrInternal"
| "status_of_error (Yaml _) = SynqroErrInternal"
| "status_of_error (Internal _) = SynqroErrInternal"
| "status_of_error Degraded = SynqroErrInternal"
| "status_of_error (Signature _) = SynqroErrSignature"
| "status_of_error (Rollback _) = SynqroErrRollback"
| "status_of_error (Keychain _) = SynqroErrPermission"

lemma status_code_inj: "status_code s = status_code t \<longleftrightarrow> s = t"
  by (cases s; cases t) simp_all

lemma status_of_error_not_ok: "status_of_error e \<noteq> SynqroOk"
  by (cases e) simp_all

section \<open>Input validation\<close>

definition SYNQRO_MAX_INPUT_LEN :: nat where
  "SYNQRO_MAX_INPUT_LEN = 4096"

definition validate_input :: "string \<Rightarrow> synqro_error + unit" where
  "validate_input s =
     (if length s > SYNQRO_MAX_INPUT_LEN
      then Inl (InvalidInput (''input length '' @ show_nat (length s) @ '' exceeds maximum of '' @
                  show_nat SYNQRO_MAX_INPUT_LEN @ '' bytes''))
      else Inr ())"

lemma validate_input_iff: "validate_input s = Inr () \<longleftrightarrow> length s \<le> 4096"
  by (simp add: validate_input_def SYNQRO_MAX_INPUT_LEN_def)

section \<open>Messages that leave the library\<close>

text \<open>The text put into the result of a failed call: the five opaque variants are replaced by a
  generic sentence with the error's number.\<close>

fun opaque_error :: "synqro_error \<Rightarrow> bool" where
  "opaque_error (Internal _) = True"
| "opaque_error (Config _) = True"
| "opaque_error (Io _) = True"
| "opaque_error (Json _) = True"
| "opaque_error (Yaml _) = True"
| "opaque_error _ = False"

definition public_message :: "synqro_error \<Rightarrow> u64 \<Rightarrow> string" where
  "public_message e n =
     (if opaque_error e then ''an internal error occurred (id='' @ show_nat (unat n) @ '')''
      else display_error e)"

text \<open>Interior NUL bytes are replaced before the conversion to a C string.\<close>

definition sanitise :: "string \<Rightarrow> string" where
  "sanitise msg = map (\<lambda>c. if c = CHR 0x00 then CHR ''?'' else c) msg"

lemma sanitise_no_nul: "CHR 0x00 \<notin> set (sanitise msg)"
  by (auto simp: sanitise_def)

lemma sanitise_id: "CHR 0x00 \<notin> set msg \<Longrightarrow> sanitise msg = msg"
  by (induction msg) (auto simp: sanitise_def)

lemma opaque_same_message:
  "opaque_error e \<Longrightarrow> opaque_error e' \<Longrightarrow> public_message e n = public_message e' n"
  by (simp add: public_message_def)

end
