(* ===== verification/World.thy ===== *)
theory World
  imports Json Rust_Path Errors
begin

text \<open>
  What the engine acts on. \<open>env\<close> is everything the sources call but do not contain: cryptographic
  primitives, the JSON and date libraries, the HTTP client, child processes, the clock, the random
  source, and the faults of the operating system. \<open>world\<close> is the mutable state: the file system, the
  atomics, the C heap, and a trace of what left the process.

  The standard library's file operations are modelled on a file system of names without links. Any
  call may fail at any moment: \<open>e_io\<close> decides by the number of the call (\<open>w_tick\<close>), the kind of
  operation and the file, and a failing write may first have written a prefix.
\<close>

section \<open>The environment\<close>

datatype sysop =
    OpMkdir | OpCanon | OpRead | OpStat | OpCreate | OpWrite | OpFlush | OpSync | OpChmod
  | OpRename | OpRemove | OpOpenAppend | OpAppend | OpLock | OpFlock | OpReadDir | OpReadLine

datatype node = File bytes u32 | Dir u32

record command =
  cmd_program :: string
  cmd_args :: "string list"
  cmd_stdin :: "bytes option"

datatype proc_result =
    SpawnFailed string
  | NoStdin
  | StdinFailed string
  | WaitFailed string
  | TimedOut
  | Exited "int option" bytes

record http_request =
  rq_method :: string
  rq_url :: string
  rq_headers :: "(string \<times> string) list"

record http_response =
  rs_status :: nat
  rs_retry_after :: "string option"
  rs_chunks :: "(string + bytes) list"

text \<open>A YAML document; a scalar is its text and whether it is plain (not quoted).\<close>

datatype yaml = YScalar string bool | YSeq "yaml list" | YMap "(string \<times> yaml) list"

text \<open>One full TLS handshake, as far as the certificate verifier sees it: what it is called with, and whether
  TLS 1.3 was negotiated. A hop of a request is the connection it goes over: whether the address is one of
  \<open>https\<close>, its host, and the handshakes made; there are none when a connection is used again or a
  session resumed.\<close>

record tls_handshake =
  hs_end_entity :: bytes
  hs_intermediates :: "bytes list"
  hs_server_name :: string
  hs_ocsp_response :: bytes
  hs_now :: int
  hs_tls13 :: bool
  hs_message :: bytes
  hs_dss :: bytes

record hop =
  hop_https :: bool
  hop_host :: "string option"
  hop_handshakes :: "tls_handshake list"

text \<open>A request given to the HTTP client, one sent over a hop, a child process, a pause.\<close>

datatype event = EvHttp http_request | EvHop hop | EvCmd command | EvSleep u64

record env =
  e_sha256 :: "bytes \<Rightarrow> bytes"
  e_sha512 :: "bytes \<Rightarrow> bytes"
  e_hmac :: "bytes \<Rightarrow> bytes \<Rightarrow> string + bytes"
  e_hkdf :: "bytes \<Rightarrow> bytes \<Rightarrow> bytes \<Rightarrow> nat \<Rightarrow> string + bytes"
  e_hex :: "bytes \<Rightarrow> string"
  e_b64 :: "string \<Rightarrow> bytes option"
  e_sig_from_slice :: "bytes \<Rightarrow> bytes option"
  e_key_from_bytes :: "bytes \<Rightarrow> string + bytes"
  e_verify_strict :: "bytes \<Rightarrow> bytes \<Rightarrow> bytes \<Rightarrow> string + unit"
  e_json_str :: "json \<Rightarrow> string + string"
  e_json_pretty :: "json \<Rightarrow> string + string"
  e_json_parse :: "bytes \<Rightarrow> string + json"
  e_json_dup :: "string \<Rightarrow> bytes \<Rightarrow> bool"
  e_json_shape_err :: "string \<Rightarrow> bytes \<Rightarrow> string"
  e_rfc3339 :: "int \<Rightarrow> string"
  e_parse_dt :: "string \<Rightarrow> int option"
  e_header_ok :: "string \<Rightarrow> bool"
  e_http :: "nat \<Rightarrow> http_request \<Rightarrow> string + http_response"
  e_url :: "string \<Rightarrow> string + (bool \<times> string option)"
  e_handshakes :: "nat \<Rightarrow> http_request \<Rightarrow> tls_handshake list"
  e_redirects :: "nat \<Rightarrow> http_request \<Rightarrow> hop list"
  e_tls_failure :: "http_request \<Rightarrow> string \<Rightarrow> string"
  e_proc :: "nat \<Rightarrow> event list \<Rightarrow> command \<Rightarrow> proc_result"
  e_clock :: "nat \<Rightarrow> int"
  e_rand :: "nat \<Rightarrow> u64 \<Rightarrow> u64"
  e_io :: "nat \<Rightarrow> sysop \<Rightarrow> names \<Rightarrow> (string \<times> nat) option"
  e_readdir :: "nat \<Rightarrow> (names \<Rightarrow> node option) \<Rightarrow> names \<Rightarrow> (string \<times> bool) option list"
  e_cwd :: names
  e_create_mode :: u32
  e_mkdir_mode :: u32
  e_debug_path :: "path \<Rightarrow> string"
  e_exe :: "string + path"
  e_pid :: u32
  e_arch :: string
  e_os :: string
  e_status_text :: "nat \<Rightarrow> string"
  e_tls_provider :: bool
  e_http_client :: "u64 \<Rightarrow> string + unit"
  e_runtime :: "nat \<Rightarrow> string + unit"
  e_spki :: "bytes \<Rightarrow> string + bytes"
  e_webpki_build :: "string + unit"
  e_webpki_cert :: "bytes \<Rightarrow> bytes list \<Rightarrow> string \<Rightarrow> bytes \<Rightarrow> int \<Rightarrow> string + unit"
  e_webpki_tls13 :: "bytes \<Rightarrow> bytes \<Rightarrow> bytes \<Rightarrow> string + unit"
  e_yaml_parse :: "bytes \<Rightarrow> string + yaml"
  e_yaml_string :: "string \<Rightarrow> bool \<Rightarrow> string option"
  e_yaml_u64 :: "string \<Rightarrow> bool \<Rightarrow> u64 option"
  e_yaml_bool :: "string \<Rightarrow> bool \<Rightarrow> bool option"
  e_yaml_shape_err :: "bytes \<Rightarrow> string"

section \<open>The world\<close>

record dl_cells =
  dl_failures :: u32
  dl_degraded :: bool

record world =
  w_fs :: "names \<Rightarrow> node option"
  w_tick :: nat
  w_next_id :: u64
  w_heap :: "nat \<Rightarrow> string option"
  w_brk :: nat
  w_dl :: "nat \<Rightarrow> dl_cells"
  w_dl_next :: nat
  w_trace :: "event list"

type_synonym ('z, 'a) sio = "('z world_scheme, string, 'a) io"
type_synonym ('z, 'a) eio = "('z world_scheme, synqro_error, 'a) io"

definition file_at :: "'z world_scheme \<Rightarrow> names \<Rightarrow> bytes option" where
  "file_at w ns = (case w_fs w ns of Some (File b m) \<Rightarrow> Some b | _ \<Rightarrow> None)"

definition is_dir :: "'z world_scheme \<Rightarrow> names \<Rightarrow> bool" where
  "is_dir w ns \<longleftrightarrow> ns = [] \<or> (case w_fs w ns of Some (Dir m) \<Rightarrow> True | _ \<Rightarrow> False)"

definition fs_put :: "names \<Rightarrow> node option \<Rightarrow> 'z world_scheme \<Rightarrow> 'z world_scheme" where
  "fs_put ns n w = w\<lparr>w_fs := (w_fs w)(ns := n)\<rparr>"

definition resolve :: "env \<Rightarrow> path \<Rightarrow> names" where
  "resolve E p = resolve_from (e_cwd E) p"

text \<open>The operating system's own error texts.\<close>

definition ENOENT :: string where "ENOENT = ''No such file or directory (os error 2)''"
definition EEXIST :: string where "EEXIST = ''File exists (os error 17)''"
definition ENOTDIR :: string where "ENOTDIR = ''Not a directory (os error 20)''"
definition EISDIR :: string where "EISDIR = ''Is a directory (os error 21)''"

section \<open>System calls\<close>

text \<open>\<open>sys E op ns part k\<close> is one call of kind \<open>op\<close> on the file \<open>ns\<close>: it costs a tick; if the
  environment lets it fail, the world is changed by \<open>part n\<close> only (\<open>n\<close> the bytes written so far),
  otherwise \<open>k\<close> is its effect.\<close>

definition sys :: "env \<Rightarrow> sysop \<Rightarrow> names \<Rightarrow> (nat \<Rightarrow> 'z world_scheme \<Rightarrow> 'z world_scheme) \<Rightarrow> ('z, 'a) sio \<Rightarrow> ('z, 'a) sio" where
  "sys E op ns part k = (\<lambda>w. let w' = w\<lparr>w_tick := Suc (w_tick w)\<rparr> in
     case e_io E (w_tick w) op ns of
       Some (msg, n) \<Rightarrow> (Inl msg, part n w')
     | None \<Rightarrow> k w')"

definition no_effect :: "nat \<Rightarrow> 'z world_scheme \<Rightarrow> 'z world_scheme" where
  "no_effect n w = w"

definition append_to :: "names \<Rightarrow> bytes \<Rightarrow> 'z world_scheme \<Rightarrow> 'z world_scheme" where
  "append_to ns b w =
     (case w_fs w ns of Some (File old m) \<Rightarrow> fs_put ns (Some (File (old @ b) m)) w | _ \<Rightarrow> w)"

definition fs_read :: "env \<Rightarrow> path \<Rightarrow> ('z, bytes) sio" where
  "fs_read E p = (let ns = resolve E p in sys E OpRead ns no_effect (\<lambda>w.
     case w_fs w ns of
       Some (File b m) \<Rightarrow> (Inr b, w)
     | Some (Dir m) \<Rightarrow> (Inl EISDIR, w)
     | None \<Rightarrow> (Inl ENOENT, w)))"

text \<open>\<open>File::open\<close>: the handle is the name.\<close>

definition file_open :: "env \<Rightarrow> path \<Rightarrow> ('z, names) sio" where
  "file_open E p = (let ns = resolve E p in sys E OpRead ns no_effect (\<lambda>w.
     if ns = [] \<or> w_fs w ns \<noteq> None then (Inr ns, w) else (Inl ENOENT, w)))"

definition file_create :: "env \<Rightarrow> path \<Rightarrow> ('z, unit) sio" where
  "file_create E p = (let ns = resolve E p in sys E OpCreate ns no_effect (\<lambda>w.
     case w_fs w ns of
       Some (File b m) \<Rightarrow> (Inr (), fs_put ns (Some (File [] m)) w)
     | Some (Dir m) \<Rightarrow> (Inl EISDIR, w)
     | None \<Rightarrow> if ns = [] then (Inl EISDIR, w)
              else if is_dir w (butlast ns) then (Inr (), fs_put ns (Some (File [] (e_create_mode E))) w)
              else (Inl ENOENT, w)))"

definition write_all :: "env \<Rightarrow> path \<Rightarrow> bytes \<Rightarrow> ('z, unit) sio" where
  "write_all E p b = (let ns = resolve E p in
     sys E OpWrite ns (\<lambda>n. append_to ns (take n b)) (\<lambda>w. (Inr (), append_to ns b w)))"

definition file_flush :: "env \<Rightarrow> path \<Rightarrow> ('z, unit) sio" where
  "file_flush E p = sys E OpFlush (resolve E p) no_effect (\<lambda>w. (Inr (), w))"

definition sync_all :: "env \<Rightarrow> path \<Rightarrow> ('z, unit) sio" where
  "sync_all E p = sys E OpSync (resolve E p) no_effect (\<lambda>w. (Inr (), w))"

text \<open>\<open>std::fs::write\<close>.\<close>

definition fs_write :: "env \<Rightarrow> path \<Rightarrow> bytes \<Rightarrow> ('z, unit) sio" where
  "fs_write E p b = bindE (file_create E p) (\<lambda>_. write_all E p b)"

definition fs_rename :: "env \<Rightarrow> path \<Rightarrow> path \<Rightarrow> ('z, unit) sio" where
  "fs_rename E p q = (let a = resolve E p; b = resolve E q in sys E OpRename b no_effect (\<lambda>w.
     case w_fs w a of
       None \<Rightarrow> (Inl ENOENT, w)
     | Some (Dir m) \<Rightarrow> (Inl ENOTDIR, w)
     | Some (File c m) \<Rightarrow>
         if is_dir w b then (Inl EISDIR, w)
         else if \<not> is_dir w (butlast b) then (Inl ENOENT, w)
         else (Inr (), fs_put b (Some (File c m)) (fs_put a None w))))"

definition remove_file :: "env \<Rightarrow> path \<Rightarrow> ('z, unit) sio" where
  "remove_file E p = (let ns = resolve E p in sys E OpRemove ns no_effect (\<lambda>w.
     case w_fs w ns of
       None \<Rightarrow> (Inl ENOENT, w)
     | Some (Dir m) \<Rightarrow> (Inl EISDIR, w)
     | Some (File c m) \<Rightarrow> (Inr (), fs_put ns None w)))"

fun mkdirs :: "env \<Rightarrow> u32 \<Rightarrow> names list \<Rightarrow> ('z, unit) sio" where
  "mkdirs E m [] = ret ()"
| "mkdirs E m (d # ds) = (\<lambda>w.
     if is_dir w d then mkdirs E m ds w
     else bindE (sys E OpMkdir d no_effect (\<lambda>w.
            case w_fs w d of
              Some n \<Rightarrow> (Inl EEXIST, w)
            | None \<Rightarrow> if is_dir w (butlast d) then (Inr (), fs_put d (Some (Dir m)) w) else (Inl ENOTDIR, w)))
          (\<lambda>_. mkdirs E m ds) w)"

text \<open>\<open>create_dir_all\<close>, and a recursive \<open>DirBuilder\<close> with a mode.\<close>

definition create_dir_all :: "env \<Rightarrow> u32 \<Rightarrow> path \<Rightarrow> ('z, unit) sio" where
  "create_dir_all E m p = (if p = [] then ret () else mkdirs E m (prefixes (resolve E p)))"

definition canonicalize :: "env \<Rightarrow> path \<Rightarrow> ('z, path) sio" where
  "canonicalize E p = (let ns = resolve E p in sys E OpCanon ns no_effect (\<lambda>w.
     if ns = [] \<or> w_fs w ns \<noteq> None then (Inr (abs_path ns), w) else (Inl ENOENT, w)))"

text \<open>\<open>st_mode\<close>: the permission bits together with the file type bits.\<close>

definition metadata_mode :: "env \<Rightarrow> path \<Rightarrow> ('z, u32) sio" where
  "metadata_mode E p = (let ns = resolve E p in sys E OpStat ns no_effect (\<lambda>w.
     case w_fs w ns of
       Some (File b m) \<Rightarrow> (Inr (m OR 0x8000), w)
     | Some (Dir m) \<Rightarrow> (Inr (m OR 0x4000), w)
     | None \<Rightarrow> (Inl ENOENT, w)))"

definition set_mode :: "env \<Rightarrow> path \<Rightarrow> u32 \<Rightarrow> ('z, unit) sio" where
  "set_mode E p m = (let ns = resolve E p in sys E OpChmod ns no_effect (\<lambda>w.
     case w_fs w ns of
       Some (File b _) \<Rightarrow> (Inr (), fs_put ns (Some (File b (m AND 0xFFF))) w)
     | Some (Dir _) \<Rightarrow> (Inr (), fs_put ns (Some (Dir (m AND 0xFFF))) w)
     | None \<Rightarrow> (Inl ENOENT, w)))"

definition path_exists :: "env \<Rightarrow> path \<Rightarrow> 'z world_scheme \<Rightarrow> bool" where
  "path_exists E p w \<longleftrightarrow> resolve E p = [] \<or> w_fs w (resolve E p) \<noteq> None"

text \<open>Opening for appending creates the file when it is missing; appending through the handle reaches
  the file that was opened.\<close>

definition open_append :: "env \<Rightarrow> path \<Rightarrow> ('z, names) sio" where
  "open_append E p = (let ns = resolve E p in sys E OpOpenAppend ns no_effect (\<lambda>w.
     case w_fs w ns of
       Some (File b m) \<Rightarrow> (Inr ns, w)
     | Some (Dir m) \<Rightarrow> (Inl EISDIR, w)
     | None \<Rightarrow> if ns = [] then (Inl EISDIR, w)
              else if is_dir w (butlast ns) then (Inr ns, fs_put ns (Some (File [] (e_create_mode E))) w)
              else (Inl ENOENT, w)))"

definition append_all :: "env \<Rightarrow> names \<Rightarrow> bytes \<Rightarrow> ('z, unit) sio" where
  "append_all E ns b =
     sys E OpAppend ns (\<lambda>n. append_to ns (take n b)) (\<lambda>w. (Inr (), append_to ns b w))"

text \<open>A call with no effect on the model's state that may fail: locking a mutex, \<open>flock\<close>, flushing.\<close>

definition may_fail :: "env \<Rightarrow> sysop \<Rightarrow> names \<Rightarrow> ('z, unit) sio" where
  "may_fail E op ns = sys E op ns no_effect (\<lambda>w. (Inr (), w))"

definition read_dir :: "env \<Rightarrow> path \<Rightarrow> ('z, (string \<times> bool) option list) sio" where
  "read_dir E p = (let ns = resolve E p in sys E OpReadDir ns no_effect (\<lambda>w.
     if is_dir w ns then (Inr (e_readdir E (w_tick w) (w_fs w) ns), w) else (Inl ENOENT, w)))"

section \<open>Clock, random source, processes, network\<close>

definition utc_now :: "env \<Rightarrow> ('z world_scheme, 'e, int) io" where
  "utc_now E = (\<lambda>w. (Inr (e_clock E (w_tick w)), w\<lparr>w_tick := Suc (w_tick w)\<rparr>))"

definition gen_upto :: "env \<Rightarrow> u64 \<Rightarrow> ('z world_scheme, 'e, u64) io" where
  "gen_upto E b = (\<lambda>w. (Inr (e_rand E (w_tick w) b), w\<lparr>w_tick := Suc (w_tick w)\<rparr>))"

definition run_command :: "env \<Rightarrow> command \<Rightarrow> ('z world_scheme, 'e, proc_result) io" where
  "run_command E c = (\<lambda>w.
     (Inr (e_proc E (w_tick w) (w_trace w) c),
      w\<lparr>w_tick := Suc (w_tick w), w_trace := w_trace w @ [EvCmd c]\<rparr>))"

text \<open>A request: it is given to the client, it goes over its hops (\<open>client_send\<close> of the downloader), it is answered.\<close>

definition http_begin :: "http_request \<Rightarrow> ('z, unit) sio" where
  "http_begin r = (\<lambda>w. (Inr (), w\<lparr>w_trace := w_trace w @ [EvHttp r]\<rparr>))"

definition http_hop :: "hop \<Rightarrow> ('z, unit) sio" where
  "http_hop h = (\<lambda>w. (Inr (), w\<lparr>w_trace := w_trace w @ [EvHop h]\<rparr>))"

definition http_answer :: "env \<Rightarrow> http_request \<Rightarrow> ('z, http_response) sio" where
  "http_answer E r = (\<lambda>w. (e_http E (w_tick w) r, w\<lparr>w_tick := Suc (w_tick w)\<rparr>))"

definition sleep_for :: "u64 \<Rightarrow> ('z world_scheme, 'e, unit) io" where
  "sleep_for s = (\<lambda>w. (Inr (), w\<lparr>w_tick := Suc (w_tick w), w_trace := w_trace w @ [EvSleep s]\<rparr>))"

text \<open>Building the single-threaded runtime a blocking call runs on.\<close>

definition runtime_build :: "env \<Rightarrow> ('z, unit) sio" where
  "runtime_build E = (\<lambda>w. (e_runtime E (w_tick w), w\<lparr>w_tick := Suc (w_tick w)\<rparr>))"

section \<open>Typed deserialisation\<close>

text \<open>\<open>from_slice::<T>\<close> of a struct with derived \<open>Deserialize\<close>: the text is parsed, a repeated field
  is refused, and the fields are read by \<open>dec\<close>. The whole text is parsed as a value first, while the derived
  code skips the values of unknown fields: where such a value is well formed but no \<open>Value\<close> can hold it (a number
  out of range), the model refuses a text that the code accepts.\<close>

definition json_typed :: "env \<Rightarrow> string \<Rightarrow> (json \<Rightarrow> 'a option) \<Rightarrow> bytes \<Rightarrow> string + 'a" where
  "json_typed E ty dec s =
     (case e_json_parse E s of
        Inl msg \<Rightarrow> Inl msg
      | Inr v \<Rightarrow> if e_json_dup E ty s then Inl (e_json_shape_err E ty s)
                else case dec v of None \<Rightarrow> Inl (e_json_shape_err E ty s) | Some x \<Rightarrow> Inr x)"

text \<open>The fields of a struct: an object, or an array with exactly the fields in declaration order.
  Unknown fields are ignored.\<close>

fun as_struct :: "string list \<Rightarrow> json \<Rightarrow> (string \<times> json) list option" where
  "as_struct fs (JObject m) = Some m"
| "as_struct fs (JArray vs) = (if length vs = length fs then Some (zip fs vs) else None)"
| "as_struct fs _ = None"

definition fld_string :: "(string \<times> json) list \<Rightarrow> string \<Rightarrow> string option" where
  "fld_string m k = Option.bind (map_of m k) as_str"

definition fld_u64 :: "(string \<times> json) list \<Rightarrow> string \<Rightarrow> u64 option" where
  "fld_u64 m k = Option.bind (map_of m k) as_u64"

definition fld_u32 :: "(string \<times> json) list \<Rightarrow> string \<Rightarrow> u32 option" where
  "fld_u32 m k = Option.bind (fld_u64 m k) (\<lambda>n. if unat n < 2 ^ 32 then Some (ucast n) else None)"

text \<open>\<open>Option<String>\<close>: absent and \<open>null\<close> are \<open>None\<close>.\<close>

definition fld_opt_string :: "(string \<times> json) list \<Rightarrow> string \<Rightarrow> string option option" where
  "fld_opt_string m k = (case map_of m k of
     None \<Rightarrow> Some None | Some JNull \<Rightarrow> Some None | Some (JString s) \<Rightarrow> Some (Some s) | Some _ \<Rightarrow> None)"

fun as_array :: "json \<Rightarrow> json list option" where
  "as_array (JArray vs) = Some vs"
| "as_array _ = None"

fun all_some :: "'a option list \<Rightarrow> 'a list option" where
  "all_some [] = Some []"
| "all_some (None # xs) = None"
| "all_some (Some x # xs) = map_option ((#) x) (all_some xs)"

definition fld_list :: "(string \<times> json) list \<Rightarrow> string \<Rightarrow> (json \<Rightarrow> 'a option) \<Rightarrow> 'a list option" where
  "fld_list m k dec = Option.bind (Option.bind (map_of m k) as_array) (\<lambda>vs. all_some (map dec vs))"

lemma all_some_map_Some [simp]: "all_some (map (\<lambda>x. Some (f x)) xs) = Some (map f xs)"
  by (induction xs) auto

lemma all_some_map_eq: "(\<And>x. x \<in> set xs \<Longrightarrow> g x = Some (f x)) \<Longrightarrow> all_some (map g xs) = Some (map f xs)"
  by (induction xs) auto

end
