(* ===== verification/Mac.thy ===== *)
theory Mac
  imports World
begin

text \<open>
  Message authentication as the audit log, the snapshot manifests and the blacklist use it: the
  canonical JSON of a payload, its HMAC in hexadecimal, and the comparison in constant time. The
  contract of a record that carries such a tag is the locale \<open>sealed_record\<close>; the audit line, the
  snapshot manifest and the blacklist interpret it.
\<close>

definition canonical_json :: "env \<Rightarrow> json \<Rightarrow> synqro_error + string" where
  "canonical_json E v =
     map_inl (\<lambda>e. Internal (''Canonical JSON failed: '' @ e)) (e_json_str E (sort_json_keys v))"

definition compute_hmac :: "env \<Rightarrow> bytes \<Rightarrow> bytes \<Rightarrow> synqro_error + string" where
  "compute_hmac E key data =
     (case e_hmac E key data of
        Inl e \<Rightarrow> Inl (Crypto (''HMAC init failed: '' @ e))
      | Inr mac \<Rightarrow> Inr (e_hex E mac))"

fun ct_diff :: "u8 \<Rightarrow> bytes \<Rightarrow> bytes \<Rightarrow> u8" where
  "ct_diff diff (x # a) (y # b) = ct_diff (diff OR (u8_of x XOR u8_of y)) a b"
| "ct_diff diff _ _ = diff"

definition constant_time_eq :: "bytes \<Rightarrow> bytes \<Rightarrow> bool" where
  "constant_time_eq a b = (if length a \<noteq> length b then False else ct_diff 0 a b = 0)"

section \<open>The comparison is equality\<close>

lemma or_eq_0: "(a OR b = 0) \<longleftrightarrow> a = 0 \<and> b = 0" for a b :: "'n::len word"
  by (simp add: bit_eq_iff bit_or_iff) blast

lemma xor_eq_0: "(a XOR b = 0) \<longleftrightarrow> a = b" for a b :: "'n::len word"
  by (simp add: bit_eq_iff bit_xor_iff)

lemma ct_diff_0: "length a = length b \<Longrightarrow> ct_diff d a b = 0 \<longleftrightarrow> d = 0 \<and> a = b"
  by (induction d a b rule: ct_diff.induct) (auto simp: or_eq_0 xor_eq_0 u8_of_inj)

lemma constant_time_eq_iff [simp]: "constant_time_eq a b \<longleftrightarrow> a = b"
  by (auto simp: constant_time_eq_def ct_diff_0)

section \<open>Sealing\<close>

definition bind_res :: "'e + 'a \<Rightarrow> ('a \<Rightarrow> 'e + 'b) \<Rightarrow> 'e + 'b" where
  "bind_res r k = (case r of Inl e \<Rightarrow> Inl e | Inr x \<Rightarrow> k x)"

lemma bind_res_simps [simp]: "bind_res (Inl e) k = Inl e" "bind_res (Inr x) k = k x"
  by (simp_all add: bind_res_def)

lemma bind_res_Inr [run_iff]: "bind_res r k = Inr y \<longleftrightarrow> (\<exists>x. r = Inr x \<and> k x = Inr y)"
  by (cases r) auto

text \<open>The tag of a payload.\<close>

definition seal :: "env \<Rightarrow> bytes \<Rightarrow> json \<Rightarrow> synqro_error + string" where
  "seal E key v = bind_res (canonical_json E v) (compute_hmac E key)"

lemma seal_Inr:
  "seal E key v = Inr tag \<longleftrightarrow>
   (\<exists>c mac. e_json_str E (sort_json_keys v) = Inr c \<and> e_hmac E key c = Inr mac \<and> tag = e_hex E mac)"
proof (cases "e_json_str E (sort_json_keys v)")
  case (Inr c)
  then show ?thesis
    by (cases "e_hmac E key c") (auto simp: seal_def canonical_json_def compute_hmac_def)
qed (simp add: seal_def canonical_json_def)

text \<open>Documented behaviour of the JSON library, for values whose text is exact and that do not nest deeper than
  its reader goes: what it prints compactly is one line that is read back as the same value; what it prints in the pretty format is
  read back as the same value with its keys in order; there are no repeated fields.\<close>

definition json_laws :: "env \<Rightarrow> bool" where
  "json_laws E \<longleftrightarrow>
     (\<forall>v. json_wf v \<and> json_readable v \<longrightarrow>
        (\<exists>s. e_json_str E v = Inr s \<and> e_json_parse E s = Inr v \<and> (\<forall>ty. \<not> e_json_dup E ty s) \<and>
             valid_utf8 s \<and> CHR 0x0A \<notin> set s \<and> CHR 0x0D \<notin> set s \<and> trim s \<noteq> [])) \<and>
     (\<forall>v. json_distinct v \<and> json_readable v \<longrightarrow>
        (\<exists>s. e_json_pretty E v = Inr s \<and> e_json_parse E s = Inr (sort_json_keys v) \<and> (\<forall>ty. \<not> e_json_dup E ty s)))"

text \<open>HMAC accepts keys of every length, so building it never fails.\<close>

definition hmac_total :: "env \<Rightarrow> bool" where
  "hmac_total E \<longleftrightarrow> (\<forall>k d. \<exists>m. e_hmac E k d = Inr m)"

text \<open>Printing a JSON value never fails.\<close>

definition json_prints :: "env \<Rightarrow> bool" where
  "json_prints E \<longleftrightarrow> (\<forall>v. \<exists>s. e_json_str E v = Inr s)"

lemma json_laws_str:
  assumes "json_laws E" "json_wf v" "json_readable v"
  obtains s where "e_json_str E v = Inr s" "e_json_parse E s = Inr v" "\<And>ty. \<not> e_json_dup E ty s"
    "valid_utf8 s" "CHR 0x0A \<notin> set s" "CHR 0x0D \<notin> set s" "trim s \<noteq> []"
  using assms unfolding json_laws_def by blast

lemma json_laws_pretty:
  assumes "json_laws E" "json_distinct v" "json_readable v"
  obtains s where "e_json_pretty E v = Inr s" "e_json_parse E s = Inr (sort_json_keys v)" "\<And>ty. \<not> e_json_dup E ty s"
  using assms unfolding json_laws_def by blast

lemma seal_total:
  assumes "json_laws E" "hmac_total E" "json_wf v" "json_readable v"
  obtains tag where "seal E key v = Inr tag"
proof -
  from json_laws_str [OF assms(1,3,4)] obtain s where "e_json_str E v = Inr s" by blast
  moreover from assms(2) obtain m where "e_hmac E key s = Inr m" unfolding hmac_total_def by blast
  ultimately have "seal E key v = Inr (e_hex E m)"
    using assms(3) by (simp add: seal_def canonical_json_def sort_json_keys_id compute_hmac_def)
  then show thesis by (rule that)
qed

text \<open>Two payloads are told apart by the MAC: the key yields different codes on their canonical
  texts.\<close>

definition mac_separates :: "env \<Rightarrow> bytes \<Rightarrow> json \<Rightarrow> json \<Rightarrow> bool" where
  "mac_separates E key v v' \<longleftrightarrow> seal E key v \<noteq> seal E key v'"

section \<open>The contract of a sealed record\<close>

locale sealed_record =
  fixes payload :: "'r \<Rightarrow> json"
    and tag :: "'r \<Rightarrow> string"
    and accepts :: "env \<Rightarrow> bytes \<Rightarrow> 'r \<Rightarrow> bool"
  assumes accepts_iff: "accepts E key r \<longleftrightarrow> seal E key (payload r) = Inr (tag r)"
begin

text \<open>A record whose tag was computed from its payload is accepted.\<close>

lemma sealed_accepted: "seal E key (payload r) = Inr (tag r) \<Longrightarrow> accepts E key r"
  by (simp add: accepts_iff)

text \<open>A record that keeps an authentic tag but not its payload is rejected, as far as the MAC tells
  the two payloads apart.\<close>

lemma altered_rejected:
  "accepts E key r \<Longrightarrow> tag r' = tag r \<Longrightarrow> mac_separates E key (payload r) (payload r') \<Longrightarrow> \<not> accepts E key r'"
  by (auto simp: accepts_iff mac_separates_def)

text \<open>A record that keeps its payload but not its tag is rejected.\<close>

lemma retagged_rejected:
  "accepts E key r \<Longrightarrow> payload r' = payload r \<Longrightarrow> tag r' \<noteq> tag r \<Longrightarrow> \<not> accepts E key r'"
  by (auto simp: accepts_iff)

text \<open>Acceptance depends on the canonical form of the payload only.\<close>

lemma accepts_canonical:
  "sort_json_keys (payload r) = sort_json_keys (payload r') \<Longrightarrow> tag r = tag r' \<Longrightarrow>
   accepts E key r = accepts E key r'"
  by (simp add: accepts_iff seal_def canonical_json_def)

end

end
