(* ===== verification/Configuration.thy ===== *)
theory Configuration
  imports Errors
begin

text \<open>
  The configuration of \<open>src/config.rs\<close>: one record per section of \<open>synqro_ota.yaml\<close> and the semantic
  validation that runs after the YAML has been deserialised. Strings keep their bytes, counters and
  sizes their width. Reading the file is in \<open>Config_File\<close>.
\<close>

section \<open>The sections\<close>

record source_config =
  sc_provider :: string
  sc_owner :: string
  sc_repo :: string
  sc_branch :: string
  sc_manifest_path :: string

record auth_config =
  ac_token_source :: string
  ac_env_var :: string

record crypto_config =
  cc_release_signing_pubkey :: string
  cc_github_api_cert_pin :: string

record update_config =
  uc_check_interval_seconds :: u64
  uc_max_retries :: u32
  uc_retry_backoff_base_seconds :: u64
  uc_download_timeout_seconds :: u64
  uc_max_payload_size_bytes :: u64
  uc_staging_dir :: string
  uc_backup_dir :: string

record rollback_config =
  rc_enabled :: bool
  rc_health_check_timeout_seconds :: u64
  rc_max_backup_versions :: u32

record reporting_config =
  rp_enabled :: bool
  rp_telegram_token_source :: string
  rp_telegram_token_env_var :: string
  rp_telegram_chat_id :: string
  rp_scrub_patterns :: "string list"

record logging_config =
  lc_level :: string
  lc_structured :: bool
  lc_audit_log_path :: string
  lc_audit_hmac_enabled :: bool

record synqro_config =
  cfg_version :: string
  cfg_installation_id :: string
  cfg_source :: source_config
  cfg_auth :: auth_config
  cfg_crypto :: crypto_config
  cfg_update :: update_config
  cfg_rollback :: rollback_config
  cfg_reporting :: reporting_config
  cfg_logging :: logging_config

section \<open>Validation\<close>

definition SENTINEL_REPLACE_ME :: string where
  "SENTINEL_REPLACE_ME = ''REPLACE_ME''"

definition VALID_LOG_LEVELS :: "string list" where
  "VALID_LOG_LEVELS = [''trace'', ''debug'', ''info'', ''warn'', ''error'']"

definition validate_config :: "synqro_config \<Rightarrow> synqro_error + unit" where
  "validate_config cfg =
    (let upd = cfg_update cfg; cry = cfg_crypto cfg; src = cfg_source cfg;
         rep = cfg_reporting cfg; lg = cfg_logging cfg in
     if uc_check_interval_seconds upd < 60 then
       Inl (Config (''update.check_interval_seconds is '' @ show_nat (unat (uc_check_interval_seconds upd)) @
              '' but must be >= 60''))
     else if uc_download_timeout_seconds upd = 0 then
       Inl (Config ''update.download_timeout_seconds must be > 0'')
     else if uc_max_payload_size_bytes upd = 0 then
       Inl (Config ''update.max_payload_size_bytes must be > 0'')
     else if uc_staging_dir upd = [] then
       Inl (Config ''update.staging_dir must not be empty'')
     else if uc_backup_dir upd = [] then
       Inl (Config ''update.backup_dir must not be empty'')
     else if trim (cc_release_signing_pubkey cry) = SENTINEL_REPLACE_ME
             \<or> trim (cc_release_signing_pubkey cry) = [] then
       Inl (Config ''crypto.release_signing_pubkey must be set to a real Ed25519 public key; remove the REPLACE_ME placeholder before deployment'')
     else if trim (cc_github_api_cert_pin cry) = SENTINEL_REPLACE_ME
             \<or> trim (cc_github_api_cert_pin cry) = [] then
       Inl (Config ''crypto.github_api_cert_pin must be set to a real SHA-256 fingerprint; remove the REPLACE_ME placeholder before deployment'')
     else if trim (ac_env_var (cfg_auth cfg)) = SENTINEL_REPLACE_ME
             \<or> trim (ac_env_var (cfg_auth cfg)) = [] then
       Inl (Config ''auth.env_var must not be empty or a REPLACE_ME sentinel'')
     else if trim (cfg_installation_id cfg) = [] \<or> trim (cfg_installation_id cfg) = SENTINEL_REPLACE_ME then
       Inl (Config ''installation_id must be set to a unique identifier'')
     else if sc_provider src = [] then Inl (Config ''source.provider must not be empty'')
     else if sc_owner src = [] then Inl (Config ''source.owner must not be empty'')
     else if sc_repo src = [] then Inl (Config ''source.repo must not be empty'')
     else if sc_branch src = [] then Inl (Config ''source.branch must not be empty'')
     else if sc_manifest_path src = [] then Inl (Config ''source.manifest_path must not be empty'')
     else if cfg_version cfg = [] then Inl (Config ''version must not be empty'')
     else if rc_enabled (cfg_rollback cfg) \<and> rc_health_check_timeout_seconds (cfg_rollback cfg) = 0 then
       Inl (Config ''rollback.health_check_timeout_seconds must be > 0 when rollback is enabled'')
     else if rp_enabled rep \<and> (trim (rp_telegram_token_env_var rep) = []
             \<or> trim (rp_telegram_token_env_var rep) = SENTINEL_REPLACE_ME) then
       Inl (Config ''reporting.telegram_token_env_var must be configured when reporting is enabled'')
     else if rp_enabled rep \<and> trim (rp_telegram_chat_id rep) = [] then
       Inl (Config ''reporting.telegram_chat_id must be set when reporting is enabled'')
     else if to_lowercase (lc_level lg) \<notin> set VALID_LOG_LEVELS then
       Inl (Config (''logging.level '' @ [CHR 0x27] @ lc_level lg @ [CHR 0x27] @ '' is not valid; expected one of: trace, debug, info, warn, error''))
     else if lc_audit_log_path lg = [] then
       Inl (Config ''logging.audit_log_path must not be empty'')
     else Inr ())"

section \<open>The constraints, declaratively\<close>

text \<open>A value that must not be left blank or at the placeholder.\<close>

definition is_set_value :: "string \<Rightarrow> bool" where
  "is_set_value s \<longleftrightarrow> trim s \<noteq> [] \<and> trim s \<noteq> SENTINEL_REPLACE_ME"

text \<open>The constraints in the order in which they are tested: the key a constraint is about, whether
  it holds, and what is said of the key when it does not.\<close>

definition config_table :: "synqro_config \<Rightarrow> (string \<times> bool \<times> string) list" where
  "config_table c =
     [(''update.check_interval_seconds'', 60 \<le> unat (uc_check_interval_seconds (cfg_update c)),
         '' is '' @ show_nat (unat (uc_check_interval_seconds (cfg_update c))) @ '' but must be >= 60''),
      (''update.download_timeout_seconds'', 0 < unat (uc_download_timeout_seconds (cfg_update c)), '' must be > 0''),
      (''update.max_payload_size_bytes'', 0 < unat (uc_max_payload_size_bytes (cfg_update c)), '' must be > 0''),
      (''update.staging_dir'', uc_staging_dir (cfg_update c) \<noteq> [], '' must not be empty''),
      (''update.backup_dir'', uc_backup_dir (cfg_update c) \<noteq> [], '' must not be empty''),
      (''crypto.release_signing_pubkey'', is_set_value (cc_release_signing_pubkey (cfg_crypto c)),
         '' must be set to a real Ed25519 public key; remove the REPLACE_ME placeholder before deployment''),
      (''crypto.github_api_cert_pin'', is_set_value (cc_github_api_cert_pin (cfg_crypto c)),
         '' must be set to a real SHA-256 fingerprint; remove the REPLACE_ME placeholder before deployment''),
      (''auth.env_var'', is_set_value (ac_env_var (cfg_auth c)), '' must not be empty or a REPLACE_ME sentinel''),
      (''installation_id'', is_set_value (cfg_installation_id c), '' must be set to a unique identifier''),
      (''source.provider'', sc_provider (cfg_source c) \<noteq> [], '' must not be empty''),
      (''source.owner'', sc_owner (cfg_source c) \<noteq> [], '' must not be empty''),
      (''source.repo'', sc_repo (cfg_source c) \<noteq> [], '' must not be empty''),
      (''source.branch'', sc_branch (cfg_source c) \<noteq> [], '' must not be empty''),
      (''source.manifest_path'', sc_manifest_path (cfg_source c) \<noteq> [], '' must not be empty''),
      (''version'', cfg_version c \<noteq> [], '' must not be empty''),
      (''rollback.health_check_timeout_seconds'',
         \<not> rc_enabled (cfg_rollback c) \<or> rc_health_check_timeout_seconds (cfg_rollback c) \<noteq> 0,
         '' must be > 0 when rollback is enabled''),
      (''reporting.telegram_token_env_var'',
         \<not> rp_enabled (cfg_reporting c) \<or> is_set_value (rp_telegram_token_env_var (cfg_reporting c)),
         '' must be configured when reporting is enabled''),
      (''reporting.telegram_chat_id'',
         \<not> rp_enabled (cfg_reporting c) \<or> trim (rp_telegram_chat_id (cfg_reporting c)) \<noteq> [],
         '' must be set when reporting is enabled''),
      (''logging.level'',
         to_lowercase (lc_level (cfg_logging c)) \<in> {''trace'', ''debug'', ''info'', ''warn'', ''error''},
         '' '' @ [CHR 0x27] @ lc_level (cfg_logging c) @ [CHR 0x27] @
         '' is not valid; expected one of: trace, debug, info, warn, error''),
      (''logging.audit_log_path'', lc_audit_log_path (cfg_logging c) \<noteq> [], '' must not be empty'')]"

definition config_valid :: "synqro_config \<Rightarrow> bool" where
  "config_valid c \<longleftrightarrow> list_all (\<lambda>(key, ok, why). ok) (config_table c)"

definition first_violation :: "(string \<times> bool \<times> string) list \<Rightarrow> synqro_error + unit" where
  "first_violation t =
     (case find (\<lambda>(key, ok, why). \<not> ok) t of
        None \<Rightarrow> Inr ()
      | Some (key, ok, why) \<Rightarrow> Inl (Config (key @ why)))"

lemma first_violation_step:
  "(b \<longleftrightarrow> \<not> ok) \<Longrightarrow> m = key @ why \<Longrightarrow> r = first_violation t \<Longrightarrow>
   (if b then Inl (Config m) else r) = first_violation ((key, ok, why) # t)"
  by (simp add: first_violation_def)

lemma first_violation_Nil: "Inr () = first_violation []"
  by (simp add: first_violation_def)

text \<open>The cascade of tests reports the first violated constraint of the table.\<close>

lemma validate_config_table: "validate_config c = first_violation (config_table c)"
  unfolding validate_config_def config_table_def Let_def
  by (intro first_violation_step first_violation_Nil)
     (auto simp: is_set_value_def VALID_LOG_LEVELS_def word_less_nat_alt unat_gt_0 not_less)

lemma first_violation_ok: "first_violation t = Inr () \<longleftrightarrow> list_all (\<lambda>(key, ok, why). ok) t"
  by (induction t) (auto simp: first_violation_def)

lemma first_violation_error: "first_violation t = Inl e \<Longrightarrow> \<exists>m. e = Config m"
  by (auto simp: first_violation_def split: option.splits)

lemma validate_config_iff: "validate_config c = Inr () \<longleftrightarrow> config_valid c"
  by (simp add: validate_config_table first_violation_ok config_valid_def)

lemma validate_config_error: "validate_config c = Inl e \<Longrightarrow> \<exists>m. e = Config m"
  by (simp add: validate_config_table first_violation_error)

end
