(* ===== verification/Fs_Facts.thy ===== *)
theory Fs_Facts
  imports World
begin

text \<open>
  Frames of the file operations: what each of them can have changed, whatever the environment let
  fail. \<open>fs_only S\<close> relates two worlds that differ in the tick and in the nodes of \<open>S\<close> alone.
\<close>

definition fs_only :: "names set \<Rightarrow> 'z world_scheme \<Rightarrow> 'z world_scheme \<Rightarrow> bool" where
  "fs_only S w w' \<longleftrightarrow> (\<exists>f t. w' = w\<lparr>w_fs := f, w_tick := t\<rparr> \<and> (\<forall>q. q \<notin> S \<longrightarrow> f q = w_fs w q))"

text \<open>\<open>outside_fs\<close>: the file system is untouched.\<close>

definition same_fs :: "'z world_scheme \<Rightarrow> 'z world_scheme \<Rightarrow> bool" where
  "same_fs w w' \<longleftrightarrow> w_fs w' = w_fs w"

lemma fs_onlyI:
  "w' = w\<lparr>w_fs := f, w_tick := t\<rparr> \<Longrightarrow> (\<And>q. q \<notin> S \<Longrightarrow> f q = w_fs w q) \<Longrightarrow> fs_only S w w'"
  by (auto simp: fs_only_def)

lemma fs_only_refl: "fs_only S w w"
  by (rule fs_onlyI [where f = "w_fs w" and t = "w_tick w"]) (cases w, simp_all)

lemma fs_only_trans: "fs_only S a b \<Longrightarrow> fs_only S b c \<Longrightarrow> fs_only S a c"
  unfolding fs_only_def by (elim exE conjE) (rule exI, rule exI, rule conjI, simp, simp)

lemma preorder_fs_only [intro, simp]: "preorder_rel (fs_only S)"
  unfolding preorder_rel_def by (auto intro!: reflpI transpI intro: fs_only_refl fs_only_trans)

lemma preorder_same_fs [intro, simp]: "preorder_rel same_fs"
  by (auto simp: preorder_rel_def same_fs_def intro!: reflpI transpI)

lemma fs_only_mono: "fs_only S w w' \<Longrightarrow> S \<subseteq> T \<Longrightarrow> fs_only T w w'"
  unfolding fs_only_def by blast

lemma fs_only_same: "fs_only S w w' \<Longrightarrow> q \<notin> S \<Longrightarrow> w_fs w' q = w_fs w q"
  by (auto simp: fs_only_def)

lemma fs_only_file_at: "fs_only S w w' \<Longrightarrow> q \<notin> S \<Longrightarrow> file_at w' q = file_at w q"
  by (simp add: file_at_def fs_only_same)

lemma fs_only_is_dir: "fs_only S w w' \<Longrightarrow> q \<notin> S \<Longrightarrow> is_dir w' q = is_dir w q"
  by (simp add: is_dir_def fs_only_same)

lemma fs_only_put: "ns \<in> S \<Longrightarrow> fs_only S w (fs_put ns n w)"
  by (rule fs_onlyI [where f = "(w_fs w)(ns := n)" and t = "w_tick w"]) (cases w, auto simp: fs_put_def)

lemma fs_only_tick: "fs_only S w (w\<lparr>w_tick := t\<rparr>)"
  by (rule fs_onlyI [where f = "w_fs w" and t = t]) (cases w, simp_all)

lemma fs_only_append_to: "ns \<in> S \<Longrightarrow> fs_only S w (append_to ns b w)"
  by (auto simp: append_to_def fs_only_refl fs_only_put split: option.splits node.splits)

lemma steps_mono: "steps R m \<Longrightarrow> (\<And>w w'. R w w' \<Longrightarrow> R' w w') \<Longrightarrow> steps R' m"
  by (auto simp: steps_def)

lemma steps_fs_only_mono: "steps (fs_only S) m \<Longrightarrow> S \<subseteq> T \<Longrightarrow> steps (fs_only T) m"
  by (erule steps_mono) (erule fs_only_mono)

section \<open>Frames of the calls\<close>

lemma steps_sys:
  fixes k :: "('a, 'b) sio"
  assumes "\<And>n w. fs_only S w (part n w)" and "\<And>w. fs_only S w (snd (k w))"
  shows "steps (fs_only S) (sys E op ns part k)"
  unfolding steps_def sys_def Let_def
proof
  fix w :: "'a world_scheme"
  let ?w = "w\<lparr>w_tick := Suc (w_tick w)\<rparr>"
  show "fs_only S w (snd (case e_io E (w_tick w) op ns of
          None \<Rightarrow> k ?w | Some (msg, n) \<Rightarrow> (Inl msg, part n ?w)))"
    using fs_only_trans [OF fs_only_tick [of S w "Suc (w_tick w)"]] assms
    by (auto split: option.splits)
qed

lemma fs_only_no_effect: "fs_only S w (no_effect n w)"
  by (simp add: no_effect_def fs_only_refl)

lemma steps_fs_read [steps_intro]: "steps (fs_only S) (fs_read E p)"
  unfolding fs_read_def Let_def
  by (rule steps_sys) (auto simp: fs_only_no_effect fs_only_refl split: option.splits node.splits)

lemma steps_file_open [steps_intro]: "steps (fs_only S) (file_open E p)"
  unfolding file_open_def Let_def by (rule steps_sys) (auto simp: fs_only_no_effect fs_only_refl)

lemma steps_file_create [steps_intro]: "resolve E p \<in> S \<Longrightarrow> steps (fs_only S) (file_create E p)"
  unfolding file_create_def Let_def
  by (rule steps_sys) (auto simp: fs_only_no_effect fs_only_refl fs_only_put split: option.splits node.splits)

lemma steps_write_all [steps_intro]: "resolve E p \<in> S \<Longrightarrow> steps (fs_only S) (write_all E p b)"
  unfolding write_all_def Let_def
  by (rule steps_sys) (auto simp: fs_only_append_to)

lemma steps_file_flush [steps_intro]: "steps (fs_only S) (file_flush E p)"
  unfolding file_flush_def by (rule steps_sys) (auto simp: fs_only_no_effect fs_only_refl)

lemma steps_sync_all [steps_intro]: "steps (fs_only S) (sync_all E p)"
  unfolding sync_all_def by (rule steps_sys) (auto simp: fs_only_no_effect fs_only_refl)

lemma steps_fs_write [steps_intro]: "resolve E p \<in> S \<Longrightarrow> steps (fs_only S) (fs_write E p b)"
  unfolding fs_write_def by (auto intro!: steps_intro)

lemma steps_fs_rename [steps_intro]:
  "resolve E p \<in> S \<Longrightarrow> resolve E q \<in> S \<Longrightarrow> steps (fs_only S) (fs_rename E p q)"
  unfolding fs_rename_def Let_def
  by (rule steps_sys)
     (auto simp: fs_only_no_effect fs_only_refl split: option.splits node.splits
       intro: fs_only_trans fs_only_put)

lemma steps_remove_file [steps_intro]: "resolve E p \<in> S \<Longrightarrow> steps (fs_only S) (remove_file E p)"
  unfolding remove_file_def Let_def
  by (rule steps_sys) (auto simp: fs_only_no_effect fs_only_refl fs_only_put split: option.splits node.splits)

lemma steps_mkdirs: "set ds \<subseteq> S \<Longrightarrow> steps (fs_only S) (mkdirs E m ds :: ('z, unit) sio)"
proof (induction ds)
  case (Cons d ds)
  let ?mk = "sys E OpMkdir d no_effect (\<lambda>w :: 'z world_scheme.
            case w_fs w d of
              Some n \<Rightarrow> (Inl EEXIST, w)
            | None \<Rightarrow> if is_dir w (butlast d) then (Inr (), fs_put d (Some (Dir m)) w) else (Inl ENOTDIR, w))"
  have "steps (fs_only S) ?mk"
    using Cons.prems
    by (intro steps_sys) (auto simp: fs_only_no_effect fs_only_refl fs_only_put split: option.splits)
  then have "steps (fs_only S) (bindE ?mk (\<lambda>_. mkdirs E m ds))"
    using Cons by (intro steps_bindE) auto
  moreover have "steps (fs_only S) (mkdirs E m ds :: ('z, unit) sio)" using Cons by simp
  ultimately show ?case by (simp add: steps_def)
qed (auto intro!: steps_intro)

lemma steps_create_dir_all [steps_intro]:
  "set (prefixes (resolve E p)) \<subseteq> S \<Longrightarrow> steps (fs_only S) (create_dir_all E m p)"
  unfolding create_dir_all_def by (auto intro!: steps_intro steps_mkdirs)

lemma steps_canonicalize [steps_intro]: "steps (fs_only S) (canonicalize E p)"
  unfolding canonicalize_def Let_def by (rule steps_sys) (auto simp: fs_only_no_effect fs_only_refl)

lemma steps_metadata_mode [steps_intro]: "steps (fs_only S) (metadata_mode E p)"
  unfolding metadata_mode_def Let_def
  by (rule steps_sys) (auto simp: fs_only_no_effect fs_only_refl split: option.splits node.splits)

lemma steps_set_mode [steps_intro]: "resolve E p \<in> S \<Longrightarrow> steps (fs_only S) (set_mode E p m)"
  unfolding set_mode_def Let_def
  by (rule steps_sys) (auto simp: fs_only_no_effect fs_only_refl fs_only_put split: option.splits node.splits)

lemma steps_open_append [steps_intro]: "resolve E p \<in> S \<Longrightarrow> steps (fs_only S) (open_append E p)"
  unfolding open_append_def Let_def
  by (rule steps_sys) (auto simp: fs_only_no_effect fs_only_refl fs_only_put split: option.splits node.splits)

lemma steps_append_all [steps_intro]: "ns \<in> S \<Longrightarrow> steps (fs_only S) (append_all E ns b)"
  unfolding append_all_def by (rule steps_sys) (auto simp: fs_only_append_to)

lemma steps_may_fail [steps_intro]: "steps (fs_only S) (may_fail E op ns)"
  unfolding may_fail_def by (rule steps_sys) (auto simp: fs_only_no_effect fs_only_refl)

lemma steps_read_dir [steps_intro]: "steps (fs_only S) (read_dir E p)"
  unfolding read_dir_def Let_def by (rule steps_sys) (auto simp: fs_only_no_effect fs_only_refl)

lemma steps_runtime_build [steps_intro]: "steps (fs_only S) (runtime_build E)"
  unfolding steps_def runtime_build_def by (simp add: fs_only_tick)

lemma steps_utc_now [steps_intro]: "steps (fs_only S) (utc_now E)"
  by (simp add: steps_def utc_now_def fs_only_tick)

end
