(* ===== verification/Atomic.thy ===== *)
theory Atomic
  imports Fs_Facts
begin

text \<open>
  Replacing a file through a temporary one: the contract that \<open>write_json_atomic\<close>, the restoring of a
  backup file and the publication of a downloaded artifact share, as the locale \<open>atomic_replace\<close>, and
  the lemma by which each of them meets it. The contract speaks of every outcome: whatever call of
  the operating system fails, the target holds its old content or the whole new one.
\<close>

section \<open>Outcomes of single calls\<close>

lemma sys_Inr:
  "sys E op ns part k w = (Inr x, w') \<Longrightarrow> k (w\<lparr>w_tick := Suc (w_tick w)\<rparr>) = (Inr x, w')"
  by (auto simp: sys_def Let_def split: option.splits)

lemma fs_read_Inr:
  assumes "fs_read E p w = (Inr b, w')"
  shows "file_at w (resolve E p) = Some b" and "w_fs w' = w_fs w"
  using assms by (auto simp: fs_read_def Let_def file_at_def dest!: sys_Inr split: option.splits node.splits)

lemma file_create_Inr:
  "file_create E p w = (Inr x, w') \<Longrightarrow> \<exists>m. w_fs w' (resolve E p) = Some (File [] m)"
  by (auto simp: file_create_def Let_def fs_put_def dest!: sys_Inr split: option.splits node.splits if_splits)

lemma write_all_Inr:
  "write_all E p b w = (Inr x, w') \<Longrightarrow> w_fs w (resolve E p) = Some (File old m) \<Longrightarrow>
   w_fs w' (resolve E p) = Some (File (old @ b) m)"
  by (auto simp: write_all_def Let_def append_to_def fs_put_def dest!: sys_Inr)

lemma fs_write_Inr:
  assumes "fs_write E p b w = (Inr x, w')"
  shows "\<exists>m. w_fs w' (resolve E p) = Some (File b m)"
proof -
  from assms obtain u w1 where c: "file_create E p w = (Inr u, w1)" and wr: "write_all E p b w1 = (Inr x, w')"
    by (auto simp: fs_write_def run_iff)
  from file_create_Inr [OF c] obtain m where "w_fs w1 (resolve E p) = Some (File [] m)" by blast
  from write_all_Inr [OF wr this] show ?thesis by auto
qed

lemma fs_write_file_at: "fs_write E p b w = (Inr x, w') \<Longrightarrow> file_at w' (resolve E p) = Some b"
  by (auto simp: file_at_def dest: fs_write_Inr)

lemma file_at_Some: "file_at w ns = Some b \<longleftrightarrow> (\<exists>m. w_fs w ns = Some (File b m))"
  by (auto simp: file_at_def split: option.splits node.splits)

lemma set_mode_Inr:
  "set_mode E p m w = (Inr x, w') \<Longrightarrow> file_at w' ns = file_at w ns"
  by (cases "w_fs w (resolve E p)"; cases "the (w_fs w (resolve E p))")
     (auto simp: set_mode_def Let_def file_at_def fs_put_def dest!: sys_Inr)

lemma set_mode_node:
  "set_mode E p m w = (Inr x, w') \<Longrightarrow> w_fs w (resolve E p) = Some (File b m0) \<Longrightarrow>
   w_fs w' (resolve E p) = Some (File b (m AND 0xFFF))"
  by (auto simp: set_mode_def Let_def fs_put_def dest!: sys_Inr)

lemma fs_rename_Inr:
  assumes "fs_rename E p q w = (Inr x, w')" and "resolve E p \<noteq> resolve E q"
  shows "\<exists>c m. w_fs w (resolve E p) = Some (File c m) \<and> w_fs w' (resolve E q) = Some (File c m) \<and>
               w_fs w' (resolve E p) = None"
  using assms
  by (auto simp: fs_rename_def Let_def fs_put_def dest!: sys_Inr split: option.splits node.splits if_splits)

lemma fs_rename_Inl: "fs_rename E p q w = (Inl e, w') \<Longrightarrow> w_fs w' = w_fs w"
  by (auto simp: fs_rename_def Let_def sys_def no_effect_def split: option.splits node.splits if_splits)

section \<open>Publishing through a temporary file\<close>

text \<open>The closure \<open>|e| { let _ = remove_file(temp); f(e) }\<close>.\<close>

definition remove_then :: "env \<Rightarrow> path \<Rightarrow> (string \<Rightarrow> synqro_error) \<Rightarrow> string \<Rightarrow> 'z world_scheme \<Rightarrow> synqro_error \<times> 'z world_scheme" where
  "remove_then E temp f e w = (f e, snd (remove_file E temp w))"

lemma remove_then_frame: "resolve E temp \<in> S \<Longrightarrow> fs_only S w (snd (remove_then E temp f e w))"
  unfolding remove_then_def snd_conv by (rule steps_snd [OF steps_remove_file])

definition publish :: "env \<Rightarrow> path \<Rightarrow> path \<Rightarrow> (string \<Rightarrow> synqro_error) \<Rightarrow> ('z, unit) eio" where
  "publish E temp dest f = on_err (remove_then E temp f) (fs_rename E temp dest)"

lemma steps_publish [steps_intro]:
  "resolve E temp \<in> S \<Longrightarrow> resolve E dest \<in> S \<Longrightarrow> steps (fs_only S) (publish E temp dest f)"
  unfolding publish_def by (intro steps_on_err steps_fs_rename remove_then_frame preorder_fs_only)

lemma publish_Inr:
  "publish E temp dest f w = (Inr x, w') \<Longrightarrow> resolve E temp \<noteq> resolve E dest \<Longrightarrow>
   \<exists>c m. w_fs w (resolve E temp) = Some (File c m) \<and> w_fs w' (resolve E dest) = Some (File c m)"
  by (auto simp: publish_def run_iff dest: fs_rename_Inr)

lemma publish_dest:
  assumes "publish E temp dest f w = (r, w')" and ne: "resolve E temp \<noteq> resolve E dest"
  shows "file_at w' (resolve E dest) \<in> {file_at w (resolve E dest), file_at w (resolve E temp)}"
proof (cases r)
  case (Inr x)
  with publish_Inr [of E temp dest f w x w'] assms show ?thesis by (auto simp: file_at_def)
next
  case (Inl e)
  with assms(1) obtain e' w1 where mv: "fs_rename E temp dest w = (Inl e', w1)"
    and rm: "w' = snd (remove_file E temp w1)"
    by (auto simp: publish_def on_err_def remove_then_def split: prod.splits sum.splits)
  have "fs_only {resolve E temp} w1 w'"
    unfolding rm by (rule steps_snd [OF steps_remove_file]) simp
  then have "file_at w' (resolve E dest) = file_at w1 (resolve E dest)"
    by (rule fs_only_file_at) (use ne in auto)
  with fs_rename_Inl [OF mv] show ?thesis by (simp add: file_at_def)
qed

text \<open>A preparation that touches the temporary file only, and on success leaves \<open>content\<close> in it,
  followed by \<open>publish\<close>.\<close>

lemma prepare_publish:
  assumes run: "bindE prep (\<lambda>_. publish E temp dest f) w = (r, w')"
    and frame: "steps (fs_only {resolve E temp}) prep"
    and prep: "\<And>x w1. prep w = (Inr x, w1) \<Longrightarrow> file_at w1 (resolve E temp) = Some content"
    and ne: "resolve E temp \<noteq> resolve E dest"
  shows "file_at w' (resolve E dest) \<in> {file_at w (resolve E dest), Some content}"
    and "r = Inr y \<Longrightarrow> file_at w' (resolve E dest) = Some content"
proof -
  obtain q w1 where p: "prep w = (q, w1)" by fastforce
  have same: "file_at w1 (resolve E dest) = file_at w (resolve E dest)"
    using fs_only_file_at [OF stepsD [OF frame p]] ne by auto
  have goal: "file_at w' (resolve E dest) \<in> {file_at w (resolve E dest), Some content} \<and>
        (\<forall>y. r = Inr y \<longrightarrow> file_at w' (resolve E dest) = Some content)"
  proof (cases q)
    case (Inl e)
    with run p same show ?thesis by (auto simp: bindE_def)
  next
    case (Inr x)
    with run p have pub: "publish E temp dest f w1 = (r, w')" by (simp add: bindE_def)
    have c: "file_at w1 (resolve E temp) = Some content" using prep p Inr by simp
    have "file_at w' (resolve E dest) = Some content" if "r = Inr y" for y
      using publish_Inr [of E temp dest f w1 y w'] pub that ne c by (auto simp: file_at_def)
    with publish_dest [OF pub ne] c same show ?thesis by auto
  qed
  from goal show "file_at w' (resolve E dest) \<in> {file_at w (resolve E dest), Some content}" by simp
  from goal show "r = Inr y \<Longrightarrow> file_at w' (resolve E dest) = Some content" by simp
qed

section \<open>The contract\<close>

locale atomic_replace =
  fixes put :: "'i \<Rightarrow> ('z, 'a) eio"
    and ok :: "'i \<Rightarrow> bool"
    and target :: "'i \<Rightarrow> names"
    and content :: "'i \<Rightarrow> bytes"
    and scratch :: "'i \<Rightarrow> names set"
  assumes put_frame: "ok i \<Longrightarrow> steps (fs_only (insert (target i) (scratch i))) (put i)"
    and put_old_or_new: "ok i \<Longrightarrow> put i w = (r, w') \<Longrightarrow> file_at w' (target i) \<in> {file_at w (target i), Some (content i)}"
    and put_done: "ok i \<Longrightarrow> put i w = (Inr x, w') \<Longrightarrow> file_at w' (target i) = Some (content i)"
begin

text \<open>A file that is neither the target nor a temporary file is not touched.\<close>

lemma put_other:
  "ok i \<Longrightarrow> put i w = (r, w') \<Longrightarrow> q \<noteq> target i \<Longrightarrow> q \<notin> scratch i \<Longrightarrow> file_at w' q = file_at w q"
  using fs_only_file_at [OF stepsD [OF put_frame]] by blast

text \<open>A loop of replacements, stopping at the first that fails: at every moment each file that is
  not a temporary one holds what it held before or the content of one of its replacements.\<close>

lemma put_each_old_or_new:
  assumes "\<forall>i \<in> set is. ok i" and "for_each is (\<lambda>i. bindE (put i) (\<lambda>_. ret ())) w = (r, w')"
    and "\<forall>i \<in> set is. q \<notin> scratch i"
  shows "file_at w' q = file_at w q \<or> (\<exists>i \<in> set is. target i = q \<and> file_at w' q = Some (content i))"
  using assms
proof (induction "is" arbitrary: w)
  case Nil
  then show ?case by (simp add: ret_def)
next
  case (Cons i js)
  obtain p w1 where p: "put i w = (p, w1)" by fastforce
  have first: "file_at w1 q = file_at w q \<or> target i = q \<and> file_at w1 q = Some (content i)"
    using put_old_or_new [OF _ p] put_other [OF _ p, of q] Cons.prems(1,3) by (cases "q = target i") auto
  show ?case
  proof (cases p)
    case (Inl e)
    with Cons.prems(2) p first show ?thesis by (auto simp: bindE_def)
  next
    case (Inr x)
    with Cons.prems(2) p have "for_each js (\<lambda>i. bindE (put i) (\<lambda>_. ret ())) w1 = (r, w')"
      by (simp add: bindE_def ret_def)
    from Cons.IH [OF _ this] Cons.prems(1,3) first show ?thesis by auto
  qed
qed

text \<open>A loop that succeeds has put every content in place, if no target is a temporary file or the
  target of a later round.\<close>

lemma put_each_done:
  assumes "\<forall>i \<in> set is. ok i" and "for_each is (\<lambda>i. bindE (put i) (\<lambda>_. ret ())) w = (Inr x, w')"
    and "\<forall>i \<in> set is. \<forall>j \<in> set is. target i \<notin> scratch j" and "distinct (map target is)"
  shows "\<forall>i \<in> set is. file_at w' (target i) = Some (content i)"
  using assms
proof (induction "is" arbitrary: w)
  case (Cons i js)
  from Cons.prems(2) obtain y w1 where p: "put i w = (Inr y, w1)"
    and rest: "for_each js (\<lambda>i. bindE (put i) (\<lambda>_. ret ())) w1 = (Inr x, w')"
    by (auto simp: run_iff)
  have "file_at w1 (target i) = Some (content i)" using put_done p Cons.prems(1) by auto
  moreover have "file_at w' (target i) = file_at w1 (target i)"
    using put_each_old_or_new [OF _ rest, of "target i"] Cons.prems by (auto simp: image_iff)
  moreover have "\<forall>j \<in> set js. file_at w' (target j) = Some (content j)"
    using Cons.IH [OF _ rest] Cons.prems by auto
  ultimately show ?case by simp
qed simp

end

end
