(* ===== verification/Json_Codec.thy ===== *)
theory Json_Codec
  imports Mac
begin

text \<open>
  A concrete text format for JSON values: a tagged, self-delimiting notation with a printer, a parser
  and the proof that the parser inverts the printer. It shows that the documented behaviour assumed of
  the JSON library (\<open>json_laws\<close>) can be had, and serves as that library in the witnesses.
\<close>

section \<open>Printing\<close>

definition nib :: "nat \<Rightarrow> char" where
  "nib n = char_of (97 + n)"

fun enc_str :: "string \<Rightarrow> string" where
  "enc_str [] = ''.''"
| "enc_str (c # cs) = nib (byte_val c div 16) # nib (byte_val c mod 16) # enc_str cs"

fun bits :: "nat \<Rightarrow> nat \<Rightarrow> string" where
  "bits 0 n = []"
| "bits (Suc k) n = nib (n mod 2) # bits k (n div 2)"

fun enc :: "json \<Rightarrow> string" where
  "enc JNull = ''n''"
| "enc (JBool b) = (if b then ''t'' else ''f'')"
| "enc (JNumber (PosInt u)) = ''p'' @ bits 64 (unat u)"
| "enc (JNumber (NegInt u)) = ''m'' @ bits 64 (unat u)"
| "enc (JNumber (Float u)) = ''r'' @ bits 64 (unat u)"
| "enc (JString s) = ''s'' @ enc_str s"
| "enc (JArray vs) = ''['' @ concat (map enc vs) @ '']''"
| "enc (JObject m) = ''{'' @ concat (map (\<lambda>(k, v). ''k'' @ enc_str k @ enc v) m) @ ''}''"

section \<open>Parsing\<close>

definition unnib :: "char \<Rightarrow> nat" where
  "unnib c = byte_val c - 97"

fun dec_str :: "string \<Rightarrow> (string \<times> string) option" where
  "dec_str [] = None"
| "dec_str [c] = (if c = CHR ''.'' then Some ([], []) else None)"
| "dec_str (c # d # cs) =
     (if c = CHR ''.'' then Some ([], d # cs)
      else map_option (\<lambda>(s, r). (char_of (16 * unnib c + unnib d) # s, r)) (dec_str cs))"

fun unbits :: "string \<Rightarrow> nat" where
  "unbits [] = 0"
| "unbits (c # cs) = unnib c + 2 * unbits cs"

definition dec_num :: "(u64 \<Rightarrow> json_num) \<Rightarrow> string \<Rightarrow> (json \<times> string) option" where
  "dec_num f cs =
     (if 64 \<le> length cs then Some (JNumber (f (of_nat (unbits (take 64 cs)))), drop 64 cs) else None)"

fun dec :: "nat \<Rightarrow> string \<Rightarrow> (json \<times> string) option"
and dec_arr :: "nat \<Rightarrow> string \<Rightarrow> (json list \<times> string) option"
and dec_obj :: "nat \<Rightarrow> string \<Rightarrow> ((string \<times> json) list \<times> string) option" where
  "dec (Suc n) (c # cs) =
     (if c = CHR ''n'' then Some (JNull, cs)
      else if c = CHR ''t'' then Some (JBool True, cs)
      else if c = CHR ''f'' then Some (JBool False, cs)
      else if c = CHR ''p'' then dec_num PosInt cs
      else if c = CHR ''m'' then dec_num NegInt cs
      else if c = CHR ''r'' then dec_num Float cs
      else if c = CHR ''s'' then map_option (\<lambda>(s, r). (JString s, r)) (dec_str cs)
      else if c = CHR ''['' then map_option (\<lambda>(vs, r). (JArray vs, r)) (dec_arr n cs)
      else if c = CHR ''{'' then map_option (\<lambda>(m, r). (JObject m, r)) (dec_obj n cs)
      else None)"
| "dec _ _ = None"
| "dec_arr (Suc n) (c # cs) =
     (if c = CHR '']'' then Some ([], cs)
      else case dec n (c # cs) of None \<Rightarrow> None
           | Some (v, r) \<Rightarrow> map_option (\<lambda>(vs, r'). (v # vs, r')) (dec_arr n r))"
| "dec_arr _ _ = None"
| "dec_obj (Suc n) (c # cs) =
     (if c = CHR ''}'' then Some ([], cs)
      else case dec_str cs of None \<Rightarrow> None
           | Some (k, r) \<Rightarrow> (case dec n r of None \<Rightarrow> None
             | Some (v, r') \<Rightarrow> map_option (\<lambda>(m, r''). ((k, v) # m, r'')) (dec_obj n r')))"
| "dec_obj _ _ = None"

definition parse :: "string \<Rightarrow> string + json" where
  "parse s = (case dec (length s) s of Some (v, []) \<Rightarrow> Inr v | _ \<Rightarrow> Inl ''bad text'')"

section \<open>The parser inverts the printer\<close>

lemma unnib_nib: "n < 16 \<Longrightarrow> unnib (nib n) = n"
  by (simp add: unnib_def nib_def byte_val_def)

lemma nib_not_dot: "n < 16 \<Longrightarrow> nib n \<noteq> CHR ''.''"
proof
  assume n: "n < 16" and "nib n = CHR ''.''"
  then have "byte_val (nib n) = byte_val (CHR ''.'')" by simp
  with n show False by (simp add: nib_def byte_val_def)
qed

lemma dec_enc_str: "dec_str (enc_str s @ r) = Some (s, r)"
proof (induction s)
  case Nil
  then show ?case by (cases r) auto
next
  case (Cons c s)
  have "byte_val c div 16 < 16" using byte_val_less [of c] by simp
  moreover have "char_of (16 * (byte_val c div 16) + byte_val c mod 16) = c"
    by (simp add: byte_val_def)
  ultimately show ?case
    using Cons by (simp add: nib_not_dot unnib_nib)
qed

lemma enc_str_inj: "enc_str s = enc_str t \<longleftrightarrow> s = t"
  by (metis dec_enc_str option.inject prod.inject)

lemma length_bits [simp]: "length (bits k n) = k"
  by (induction k arbitrary: n) auto

lemma unbits_bits: "n < 2 ^ k \<Longrightarrow> unbits (bits k n) = n"
proof (induction k arbitrary: n)
  case (Suc k)
  then have "n div 2 < 2 ^ k" by simp
  with Suc.IH show ?case by (simp add: unnib_nib)
qed simp

lemma dec_num_bits: "dec_num f (bits 64 (unat u) @ r) = Some (JNumber (f u), r)"
proof -
  have "unat u < 2 ^ 64" using unsigned_less [of u, where 'a = nat] by simp
  then have "unbits (bits 64 (unat u)) = unat u" by (rule unbits_bits)
  then show ?thesis by (simp add: dec_num_def del: bits.simps)
qed

declare bits.simps [simp del]

lemma enc_nonempty: "enc v \<noteq> []"
  by (cases v rule: enc.cases) auto

lemma length_enc_pos: "1 \<le> length (enc v)"
  using enc_nonempty [of v] by (cases "enc v") auto

definition no_close :: "string \<Rightarrow> bool" where
  "no_close s \<longleftrightarrow> (case s of [] \<Rightarrow> False | c # cs \<Rightarrow> c \<noteq> CHR '']'')"

lemma enc_no_close: "no_close (enc v @ r)"
  by (cases v rule: enc.cases) (auto simp: no_close_def)

lemma dec_arr_step:
  assumes "no_close s"
  shows "dec_arr (Suc n) s = (case dec n s of None \<Rightarrow> None
           | Some (v, r) \<Rightarrow> map_option (\<lambda>(vs, r'). (v # vs, r')) (dec_arr n r))"
  using assms by (cases s) (auto simp: no_close_def)

lemma dec_enc: "length (enc v) \<le> n \<Longrightarrow> dec n (enc v @ r) = Some (v, r)"
proof (induction v arbitrary: n r rule: enc.induct)
  case (7 vs)
  have arr: "length (concat (map enc us)) + 1 \<le> k \<Longrightarrow> set us \<subseteq> set vs \<Longrightarrow>
      dec_arr k (concat (map enc us) @ CHR '']'' # r) = Some (us, r)" for us k
  proof (induction us arbitrary: k)
    case Nil
    then show ?case by (cases k) auto
  next
    case (Cons u us)
    then obtain j where k: "k = Suc j" by (cases k) auto
    have "length (enc u) \<le> j" "length (concat (map enc us)) + 1 \<le> j"
      using Cons.prems(1) k length_enc_pos [of u] by auto
    with Cons k "7.IH" [of u] show ?case
      by (simp add: dec_arr_step enc_no_close)
  qed
  obtain j where n: "n = Suc j" using "7.prems" by (cases n) auto
  show ?case using "7.prems" n arr [of vs j] by simp
next
  case (8 m)
  have obj: "length (concat (map (\<lambda>(k, v). ''k'' @ enc_str k @ enc v) es)) + 1 \<le> i \<Longrightarrow> set es \<subseteq> set m \<Longrightarrow>
      dec_obj i (concat (map (\<lambda>(k, v). ''k'' @ enc_str k @ enc v) es) @ CHR ''}'' # r) = Some (es, r)" for es i
  proof (induction es arbitrary: i)
    case Nil
    then show ?case by (cases i) auto
  next
    case (Cons e es)
    obtain k v where e: "e = (k, v)" by (cases e)
    from Cons.prems obtain j where i: "i = Suc j" by (cases i) auto
    have "length (enc v) \<le> j"
      "length (concat (map (\<lambda>(k, v). ''k'' @ enc_str k @ enc v) es)) + 1 \<le> j"
      using Cons.prems(1) i e by auto
    moreover have "e \<in> set m" "set es \<subseteq> set m" using Cons.prems by auto
    ultimately have rest: "dec_obj j (concat (map (\<lambda>(k, v). ''k'' @ enc_str k @ enc v) es) @ CHR ''}'' # r) = Some (es, r)"
      and val: "\<And>s. dec j (enc v @ s) = Some (v, s)"
      using Cons.IH [of j] "8.IH" [OF _ e [symmetric], of j] by blast+
    from rest show ?case unfolding e i by (simp add: dec_enc_str val)
  qed
  obtain j where n: "n = Suc j" using "8.prems" by (cases n) auto
  show ?case using "8.prems" n obj [of m j] by simp
next
  case 1
  then obtain j where "n = Suc j" by (cases n) auto
  then show ?case by simp
next
  case (2 b)
  then obtain j where "n = Suc j" by (cases n) (auto split: if_splits)
  then show ?case by simp
next
  case (3 u)
  then obtain j where "n = Suc j" by (cases n) auto
  then show ?case by (simp add: dec_num_bits)
next
  case (4 u)
  then obtain j where "n = Suc j" by (cases n) auto
  then show ?case by (simp add: dec_num_bits)
next
  case (5 u)
  then obtain j where "n = Suc j" by (cases n) auto
  then show ?case by (simp add: dec_num_bits)
next
  case (6 s)
  then obtain j where "n = Suc j" by (cases n) auto
  then show ?case by (simp add: dec_enc_str)
qed

lemma parse_enc: "parse (enc v) = Inr v"
  using dec_enc [of v "length (enc v)" "[]"] by (simp add: parse_def)

declare enc.simps [simp del] enc_str.simps [simp del]

end
