(* ===== verification/Witness_Env.thy ===== *)
theory Witness_Env
  imports Json_Codec Fs_Facts
begin

text \<open>
  A concrete environment in which the documented behaviour of the libraries holds, used by the
  witnesses: the JSON library is the reference codec, hashes and codes are transparent functions, the
  operating system never fails. It also holds the names of the hypotheses about the environment that
  several components share.
\<close>

section \<open>Hypotheses on the environment\<close>

definition no_faults :: "env \<Rightarrow> bool" where
  "no_faults E \<longleftrightarrow> (\<forall>t op ns. e_io E t op ns = None)"

text \<open>The text of a digest and of a point in time is ASCII.\<close>

definition hex_ascii :: "env \<Rightarrow> bool" where
  "hex_ascii E \<longleftrightarrow> (\<forall>b. ascii (e_hex E b))"

definition time_ascii :: "env \<Rightarrow> bool" where
  "time_ascii E \<longleftrightarrow> (\<forall>t. ascii (e_rfc3339 E t))"

lemma sys_nofault: "no_faults E \<Longrightarrow> sys E op ns part k w = k (w\<lparr>w_tick := Suc (w_tick w)\<rparr>)"
  by (simp add: no_faults_def sys_def Let_def)

section \<open>ASCII text\<close>

lemma ascii_simps [simp]:
  "ascii []" "ascii (c # cs) \<longleftrightarrow> byte_val c < 128 \<and> ascii cs" "ascii (s @ t) \<longleftrightarrow> ascii s \<and> ascii t"
  by (auto simp: ascii_def)

lemma ascii_valid_utf8: "ascii s \<Longrightarrow> valid_utf8 s"
  by (induction s) (auto simp: seq_len_def valid_utf8.simps)

definition visible :: "string \<Rightarrow> bool" where
  "visible s \<longleftrightarrow> (\<forall>c \<in> set s. 33 \<le> byte_val c \<and> byte_val c < 127)"

lemma visible_simps [simp]:
  "visible []" "visible (c # cs) \<longleftrightarrow> 33 \<le> byte_val c \<and> byte_val c < 127 \<and> visible cs"
  "visible (s @ t) \<longleftrightarrow> visible s \<and> visible t" "visible (rev s) \<longleftrightarrow> visible s"
  by (auto simp: visible_def)

lemma visible_concat: "visible (concat xs) \<longleftrightarrow> (\<forall>x \<in> set xs. visible x)"
  by (auto simp: visible_def)

lemma visible_ascii: "visible s \<Longrightarrow> ascii s"
  by (auto simp: visible_def ascii_def)

lemma strip_any_visible:
  assumes "\<forall>p \<in> set ps. p \<noteq> [] \<longrightarrow> byte_val (hd p) < 33 \<or> 127 \<le> byte_val (hd p)"
    and "33 \<le> byte_val c" "byte_val c < 127"
  shows "strip_any ps (c # cs) = None"
  using assms
proof (induction ps)
  case (Cons p ps)
  then show ?case by (cases p) auto
qed simp

lemma trim_visible: "visible s \<Longrightarrow> trim s = s"
proof (cases "s = []")
  case False
  assume v: "visible s"
  have front: "trim_front ps t = t"
    if "\<forall>p \<in> set ps. p \<noteq> [] \<longrightarrow> byte_val (hd p) < 33 \<or> 127 \<le> byte_val (hd p)" "visible t" "t \<noteq> []" for ps t
    using that by (cases t) (simp_all add: trim_front.simps strip_any_visible)
  have "\<forall>p \<in> set ws_encodings. p \<noteq> [] \<longrightarrow> byte_val (hd p) < 33 \<or> 127 \<le> byte_val (hd p)"
    "\<forall>p \<in> set (map rev ws_encodings). p \<noteq> [] \<longrightarrow> byte_val (hd p) < 33 \<or> 127 \<le> byte_val (hd p)"
    by (simp_all add: ws_encodings_def byte_val_def)
  with front v False show ?thesis by (simp add: trim_def)
qed simp

lemma visible_no_newline: "visible s \<Longrightarrow> CHR 0x0A \<notin> set s \<and> CHR 0x0D \<notin> set s"
  by (force simp: visible_def byte_val_def)

lemma show_nat_ascii: "ascii (show_nat n)"
  using show_nat_digits [of n] by (force simp: ascii_def list_all_iff is_digit_def)

section \<open>The codec prints visible characters\<close>

lemma byte_val_nib: "n < 16 \<Longrightarrow> byte_val (nib n) = 97 + n"
  by (simp add: nib_def byte_val_def)

lemma byte_val_marks:
  "byte_val (CHR ''.'') = 46" "byte_val (CHR ''n'') = 110" "byte_val (CHR ''t'') = 116"
  "byte_val (CHR ''f'') = 102" "byte_val (CHR ''p'') = 112" "byte_val (CHR ''m'') = 109"
  "byte_val (CHR ''r'') = 114" "byte_val (CHR ''s'') = 115" "byte_val (CHR ''['') = 91"
  "byte_val (CHR '']'') = 93" "byte_val (CHR ''{'') = 123" "byte_val (CHR ''}'') = 125"
  "byte_val (CHR ''k'') = 107"
  by (simp_all add: byte_val_def)

lemma visible_enc_str: "visible (enc_str s)"
proof (induction s)
  case (Cons c s)
  have "byte_val c div 16 < 16" using byte_val_less [of c] by simp
  with Cons show ?case by (simp add: byte_val_nib enc_str.simps)
qed (simp add: byte_val_marks enc_str.simps)

lemma visible_bits: "visible (bits k n)"
  by (induction k arbitrary: n) (auto simp: bits.simps byte_val_nib)

lemma visible_enc: "visible (enc v)"
proof (induction v rule: enc.induct)
  case (7 vs)
  then show ?case by (simp add: byte_val_marks visible_concat enc.simps)
next
  case (8 m)
  have "visible (case p of (k, v) \<Rightarrow> ''k'' @ enc_str k @ enc v)" if "p \<in> set m" for p
    using 8 [OF that] by (cases p) (simp add: byte_val_marks visible_enc_str)
  then show ?case by (simp add: byte_val_marks visible_concat enc.simps)
qed (simp_all add: byte_val_marks visible_bits visible_enc_str enc.simps)

section \<open>The environment\<close>

definition map_inr :: "('a \<Rightarrow> 'b) \<Rightarrow> 'e + 'a \<Rightarrow> 'e + 'b" where
  "map_inr f r = (case r of Inl e \<Rightarrow> Inl e | Inr x \<Rightarrow> Inr (f x))"

definition env0 :: env where
  "env0 = \<lparr>e_sha256 = (\<lambda>b. b), e_sha512 = (\<lambda>b. b @ ''5''),
     e_hmac = (\<lambda>k d. Inr (k @ ''.'' @ d)),
     e_hkdf = (\<lambda>salt ikm info n. Inr (salt @ ''.'' @ ikm @ ''.'' @ info)),
     e_hex = enc_str, e_b64 = (\<lambda>s. Some s),
     e_sig_from_slice = (\<lambda>b. if length b = 64 then Some b else None),
     e_key_from_bytes = (\<lambda>b. Inr b),
     e_verify_strict = (\<lambda>key msg sig. if take 8 sig = take 8 (key @ msg) then Inr () else Inl ''signature error''),
     e_json_str = (\<lambda>v. Inr (enc v)), e_json_pretty = (\<lambda>v. Inr (enc v)),
     e_json_parse = (\<lambda>s. map_inr sort_json_keys (parse s)), e_json_dup = (\<lambda>ty s. False), e_json_shape_err = (\<lambda>ty s. ''invalid type''),
     e_rfc3339 = show_int, e_parse_dt = (\<lambda>s. map_option uint (parse_u64 s)),
     e_header_ok = (\<lambda>s. CHR 0x0A \<notin> set s),
     e_http = (\<lambda>t r. Inl ''offline''), e_url = (\<lambda>u. Inr (True, Some ''api.github.com'')), e_handshakes = (\<lambda>t r. []),
     e_redirects = (\<lambda>t r. []), e_tls_failure = (\<lambda>r s. s), e_proc = (\<lambda>t tr c. SpawnFailed ''not found''),
     e_clock = (\<lambda>t. 1700000000), e_rand = (\<lambda>t b. 0),
     e_io = (\<lambda>t op ns. None), e_readdir = (\<lambda>t fs d. []), e_cwd = [],
     e_create_mode = 0x1B6, e_mkdir_mode = 0x1ED,
     e_debug_path = (\<lambda>p. ''path''), e_exe = Inl ''unknown'', e_pid = 7,
     e_arch = ''x86_64'', e_os = ''linux'', e_status_text = show_nat, e_tls_provider = True, e_http_client = (\<lambda>t. Inr ()),
     e_runtime = (\<lambda>t. Inr ()), e_spki = (\<lambda>c. Inr c), e_webpki_build = Inr (),
     e_webpki_cert = (\<lambda>c ch sn ocsp now. if ch = [''ca''] then Inr () else Inl ''UnknownIssuer''),
     e_webpki_tls13 = (\<lambda>m c s. Inr ()), e_yaml_parse = (\<lambda>s. Inl ''not YAML''),
     e_yaml_string = (\<lambda>t plain. Some t), e_yaml_u64 = (\<lambda>t plain. if plain then parse_u64 t else None),
     e_yaml_bool = (\<lambda>t plain. if plain \<and> t \<in> {''true'', ''false''} then Some (t = ''true'') else None),
     e_yaml_shape_err = (\<lambda>s. ''invalid type'')\<rparr>"

lemma env0_simps [simp]:
  "e_sha256 env0 = (\<lambda>b. b)"
  "e_sha512 env0 = (\<lambda>b. b @ ''5'')"
  "e_hmac env0 = (\<lambda>k d. Inr (k @ ''.'' @ d))"
  "e_hkdf env0 = (\<lambda>salt ikm info n. Inr (salt @ ''.'' @ ikm @ ''.'' @ info))"
  "e_hex env0 = enc_str"
  "e_b64 env0 = (\<lambda>s. Some s)"
  "e_sig_from_slice env0 = (\<lambda>b. if length b = 64 then Some b else None)"
  "e_key_from_bytes env0 = (\<lambda>b. Inr b)"
  "e_verify_strict env0 = (\<lambda>key msg sig. if take 8 sig = take 8 (key @ msg) then Inr () else Inl ''signature error'')"
  "e_json_str env0 = (\<lambda>v. Inr (enc v))"
  "e_json_pretty env0 = (\<lambda>v. Inr (enc v))"
  "e_json_parse env0 = (\<lambda>s. map_inr sort_json_keys (parse s))"
  "e_json_dup env0 = (\<lambda>ty s. False)"
  "e_json_shape_err env0 = (\<lambda>ty s. ''invalid type'')"
  "e_rfc3339 env0 = show_int"
  "e_parse_dt env0 = (\<lambda>s. map_option uint (parse_u64 s))"
  "e_header_ok env0 = (\<lambda>s. CHR 0x0A \<notin> set s)"
  "e_http env0 = (\<lambda>t r. Inl ''offline'')"
  "e_url env0 = (\<lambda>u. Inr (True, Some ''api.github.com''))"
  "e_handshakes env0 = (\<lambda>t r. [])"
  "e_redirects env0 = (\<lambda>t r. [])"
  "e_tls_failure env0 = (\<lambda>r s. s)"
  "e_proc env0 = (\<lambda>t tr c. SpawnFailed ''not found'')"
  "e_clock env0 = (\<lambda>t. 1700000000)"
  "e_rand env0 = (\<lambda>t b. 0)"
  "e_io env0 = (\<lambda>t op ns. None)"
  "e_readdir env0 = (\<lambda>t fs d. [])"
  "e_cwd env0 = []"
  "e_create_mode env0 = 0x1B6"
  "e_mkdir_mode env0 = 0x1ED"
  "e_debug_path env0 = (\<lambda>p. ''path'')"
  "e_exe env0 = Inl ''unknown''"
  "e_pid env0 = 7"
  "e_arch env0 = ''x86_64''"
  "e_os env0 = ''linux''"
  "e_status_text env0 = show_nat"
  "e_tls_provider env0"
  "e_http_client env0 = (\<lambda>t. Inr ())"
  "e_runtime env0 = (\<lambda>t. Inr ())"
  "e_spki env0 = (\<lambda>c. Inr c)"
  "e_webpki_build env0 = Inr ()"
  "e_webpki_cert env0 = (\<lambda>c ch sn ocsp now. if ch = [''ca''] then Inr () else Inl ''UnknownIssuer'')"
  "e_webpki_tls13 env0 = (\<lambda>m c s. Inr ())"
  "e_yaml_parse env0 = (\<lambda>s. Inl ''not YAML'')"
  "e_yaml_string env0 = (\<lambda>t plain. Some t)"
  "e_yaml_u64 env0 = (\<lambda>t plain. if plain then parse_u64 t else None)"
  "e_yaml_bool env0 = (\<lambda>t plain. if plain \<and> t \<in> {''true'', ''false''} then Some (t = ''true'') else None)"
  "e_yaml_shape_err env0 = (\<lambda>s. ''invalid type'')"
  by (simp_all add: env0_def)

lemma no_faults_env0 [simp]: "no_faults env0"
  by (simp add: no_faults_def)

lemma hmac_total_env0 [simp]: "hmac_total env0"
  by (simp add: hmac_total_def)

lemma hex_ascii_env0 [simp]: "hex_ascii env0"
  by (simp add: hex_ascii_def visible_ascii visible_enc_str)

lemma time_ascii_env0 [simp]: "time_ascii env0"
  by (simp add: time_ascii_def show_int_def show_nat_ascii byte_val_def)

lemma json_laws_env0 [simp]: "json_laws env0"
proof -
  have "trim (enc v) \<noteq> []" for v
    by (simp add: trim_visible visible_enc enc_nonempty)
  moreover have "valid_utf8 (enc v)" for v
    by (simp add: ascii_valid_utf8 visible_ascii visible_enc)
  ultimately show ?thesis
    using visible_no_newline [OF visible_enc] by (simp add: json_laws_def parse_enc map_inr_def sort_json_keys_id)
qed

text \<open>A world with the given files and directories.\<close>

definition world_of :: "(names \<times> node) list \<Rightarrow> world" where
  "world_of xs = \<lparr>w_fs = map_of xs, w_tick = 0, w_next_id = 1, w_heap = (\<lambda>_. None), w_brk = 1,
     w_dl = (\<lambda>_. \<lparr>dl_failures = 0, dl_degraded = False\<rparr>), w_dl_next = 0, w_trace = []\<rparr>"

end
