(* ===== verification/Audit_Log.thy ===== *)
theory Audit_Log
  imports Mac Configuration Atomic Witness_Env
begin

text \<open>
  The audit log of \<open>src/audit.rs\<close>: the event catalogue, the logger, appending a signed line, and the
  verification of a whole log file. The logger's file handle is the name of the file it opened.
\<close>

section \<open>Events and severities\<close>

datatype audit_event =
    SynqroInit | UpdateCheckStarted | UpdateAvailable | ManifestSignatureOk | ManifestSignatureFail
  | PayloadHashOk | PayloadHashFail | PayloadSignatureFail | UpdateApplied | HealthCheckFail
  | RollbackTriggered | RollbackSuccess | RollbackFailed | BackupTampered | VersionBlacklisted
  | CrashReportSent | CrashReportRateLimited | CertPinMismatch | TokenLoadFail | DegradedModeEntered

text \<open>The catalogue is finite, so what holds of every event can be evaluated.\<close>

instantiation audit_event :: enum
begin

definition enum_audit_event :: "audit_event list" where
  "enum_audit_event =
     [SynqroInit, UpdateCheckStarted, UpdateAvailable, ManifestSignatureOk, ManifestSignatureFail,
      PayloadHashOk, PayloadHashFail, PayloadSignatureFail, UpdateApplied, HealthCheckFail,
      RollbackTriggered, RollbackSuccess, RollbackFailed, BackupTampered, VersionBlacklisted,
      CrashReportSent, CrashReportRateLimited, CertPinMismatch, TokenLoadFail, DegradedModeEntered]"

definition enum_all_audit_event :: "(audit_event \<Rightarrow> bool) \<Rightarrow> bool" where
  "enum_all_audit_event P \<longleftrightarrow> list_all P Enum.enum"

definition enum_ex_audit_event :: "(audit_event \<Rightarrow> bool) \<Rightarrow> bool" where
  "enum_ex_audit_event P \<longleftrightarrow> list_ex P Enum.enum"

instance
proof
  have all: "(UNIV :: audit_event set) = set Enum.enum"
  proof (rule set_eqI)
    fix ev :: audit_event
    show "ev \<in> UNIV \<longleftrightarrow> ev \<in> set Enum.enum" by (cases ev) (simp_all add: enum_audit_event_def)
  qed
  then show "(UNIV :: audit_event set) = set Enum.enum" .
  show "distinct (Enum.enum :: audit_event list)" by (simp add: enum_audit_event_def)
  fix P :: "audit_event \<Rightarrow> bool"
  show "Enum.enum_all P \<longleftrightarrow> Ball UNIV P" unfolding all enum_all_audit_event_def by (simp add: list_all_iff)
  show "Enum.enum_ex P \<longleftrightarrow> Bex UNIV P" unfolding all enum_ex_audit_event_def by (simp add: list_ex_iff)
qed

end

fun event_str :: "audit_event \<Rightarrow> string" where
  "event_str SynqroInit = ''SYNQRO_INIT''"
| "event_str UpdateCheckStarted = ''UPDATE_CHECK_STARTED''"
| "event_str UpdateAvailable = ''UPDATE_AVAILABLE''"
| "event_str ManifestSignatureOk = ''MANIFEST_SIGNATURE_OK''"
| "event_str ManifestSignatureFail = ''MANIFEST_SIGNATURE_FAIL''"
| "event_str PayloadHashOk = ''PAYLOAD_HASH_OK''"
| "event_str PayloadHashFail = ''PAYLOAD_HASH_FAIL''"
| "event_str PayloadSignatureFail = ''PAYLOAD_SIGNATURE_FAIL''"
| "event_str UpdateApplied = ''UPDATE_APPLIED''"
| "event_str HealthCheckFail = ''HEALTH_CHECK_FAIL''"
| "event_str RollbackTriggered = ''ROLLBACK_TRIGGERED''"
| "event_str RollbackSuccess = ''ROLLBACK_SUCCESS''"
| "event_str RollbackFailed = ''ROLLBACK_FAILED''"
| "event_str BackupTampered = ''BACKUP_TAMPERED''"
| "event_str VersionBlacklisted = ''VERSION_BLACKLISTED''"
| "event_str CrashReportSent = ''CRASH_REPORT_SENT''"
| "event_str CrashReportRateLimited = ''CRASH_REPORT_RATE_LIMITED''"
| "event_str CertPinMismatch = ''CERT_PIN_MISMATCH''"
| "event_str TokenLoadFail = ''TOKEN_LOAD_FAIL''"
| "event_str DegradedModeEntered = ''DEGRADED_MODE_ENTERED''"

definition event_from_str :: "string \<Rightarrow> audit_event option" where
  "event_from_str s =
    (let u = to_uppercase s in
     if u = ''SYNQRO_INIT'' then Some SynqroInit
     else if u = ''UPDATE_CHECK_STARTED'' then Some UpdateCheckStarted
     else if u = ''UPDATE_AVAILABLE'' then Some UpdateAvailable
     else if u = ''MANIFEST_SIGNATURE_OK'' then Some ManifestSignatureOk
     else if u = ''MANIFEST_SIGNATURE_FAIL'' then Some ManifestSignatureFail
     else if u = ''PAYLOAD_HASH_OK'' then Some PayloadHashOk
     else if u = ''PAYLOAD_HASH_FAIL'' then Some PayloadHashFail
     else if u = ''PAYLOAD_SIGNATURE_FAIL'' then Some PayloadSignatureFail
     else if u = ''UPDATE_APPLIED'' then Some UpdateApplied
     else if u = ''HEALTH_CHECK_FAIL'' then Some HealthCheckFail
     else if u = ''ROLLBACK_TRIGGERED'' then Some RollbackTriggered
     else if u = ''ROLLBACK_SUCCESS'' then Some RollbackSuccess
     else if u = ''ROLLBACK_FAILED'' then Some RollbackFailed
     else if u = ''BACKUP_TAMPERED'' then Some BackupTampered
     else if u = ''VERSION_BLACKLISTED'' then Some VersionBlacklisted
     else if u = ''CRASH_REPORT_SENT'' then Some CrashReportSent
     else if u = ''CRASH_REPORT_RATE_LIMITED'' then Some CrashReportRateLimited
     else if u = ''CERT_PIN_MISMATCH'' then Some CertPinMismatch
     else if u = ''TOKEN_LOAD_FAIL'' then Some TokenLoadFail
     else if u = ''DEGRADED_MODE_ENTERED'' then Some DegradedModeEntered
     else None)"

datatype audit_severity = SevInfo | SevWarn | SevCritical

fun severity_str :: "audit_severity \<Rightarrow> string" where
  "severity_str SevInfo = ''INFO''"
| "severity_str SevWarn = ''WARN''"
| "severity_str SevCritical = ''CRITICAL''"

definition event_severity :: "audit_event \<Rightarrow> audit_severity" where
  "event_severity ev = (case ev of
      SynqroInit \<Rightarrow> SevInfo | UpdateCheckStarted \<Rightarrow> SevInfo | UpdateAvailable \<Rightarrow> SevInfo
    | ManifestSignatureOk \<Rightarrow> SevInfo | PayloadHashOk \<Rightarrow> SevInfo | UpdateApplied \<Rightarrow> SevInfo
    | RollbackSuccess \<Rightarrow> SevInfo | CrashReportSent \<Rightarrow> SevInfo | CrashReportRateLimited \<Rightarrow> SevInfo
    | HealthCheckFail \<Rightarrow> SevWarn | RollbackTriggered \<Rightarrow> SevWarn | VersionBlacklisted \<Rightarrow> SevWarn
    | DegradedModeEntered \<Rightarrow> SevWarn
    | ManifestSignatureFail \<Rightarrow> SevCritical | PayloadHashFail \<Rightarrow> SevCritical
    | PayloadSignatureFail \<Rightarrow> SevCritical | RollbackFailed \<Rightarrow> SevCritical
    | BackupTampered \<Rightarrow> SevCritical | CertPinMismatch \<Rightarrow> SevCritical | TokenLoadFail \<Rightarrow> SevCritical)"

lemma event_str_ascii: "ascii (event_str ev)"
  by (cases ev) (simp_all add: ascii_def byte_val_def)

lemma event_from_str_upper:
  assumes "ascii s" "map up_char s = event_str ev"
  shows "event_from_str s = Some ev"
  using assms by (cases ev) (simp_all add: event_from_str_def Let_def to_uppercase_ascii)

lemma up_char_event_str: "map up_char (event_str ev) = event_str ev"
  by (cases ev) (simp_all add: up_char_def byte_val_def)

lemma event_from_str_event_str: "event_from_str (event_str ev) = Some ev"
  by (rule event_from_str_upper [OF event_str_ascii up_char_event_str])

lemma event_from_str_Some: "event_from_str s = Some ev \<Longrightarrow> to_uppercase s = event_str ev"
  by (auto simp: event_from_str_def Let_def split: if_splits)

section \<open>Log lines and the logger\<close>

record audit_log_line =
  ln_ts :: string
  ln_event :: string
  ln_severity :: string
  ln_installation_id :: string
  ln_data :: json
  ln_line_hmac :: string

record audit_logger =
  al_log_path :: path
  al_hmac_key :: bytes
  al_installation_id :: string
  al_file :: names

definition audit_new :: "env \<Rightarrow> logging_config \<Rightarrow> string \<Rightarrow> ('z, audit_logger) eio" where
  "audit_new E config installation_id =
     bindE (lift_res (map_inl (\<lambda>e. Crypto (''HKDF expand failed: '' @ e))
              (e_hkdf E ''synqro-audit-v1'' installation_id ''hmac-key'' 32))) (\<lambda>hmac_key.
     let log_path = parse_path (lc_audit_log_path config) in
     bindE (case path_parent log_path of
              Some parent \<Rightarrow> map_err (\<lambda>e. Permission (''Cannot create audit log directory: '' @ e))
                               (create_dir_all E (e_mkdir_mode E) parent)
            | None \<Rightarrow> ret ()) (\<lambda>_.
     bindE (map_err (\<lambda>e. Permission (''Cannot open audit log file: '' @ e)) (open_append E log_path)) (\<lambda>file.
     ret \<lparr>al_log_path = log_path, al_hmac_key = hmac_key, al_installation_id = installation_id, al_file = file\<rparr>)))"

text \<open>The signed part of a line, as the \<open>json!\<close> macro builds it.\<close>

definition line_payload :: "string \<Rightarrow> string \<Rightarrow> string \<Rightarrow> string \<Rightarrow> json \<Rightarrow> json" where
  "line_payload ts event severity installation_id data =
     json_obj [(''ts'', JString ts), (''event'', JString event), (''severity'', JString severity),
               (''installation_id'', JString installation_id), (''data'', data)]"

text \<open>The file lock is compiled for Linux only (\<open>#[cfg(target_os = "linux")]\<close>); elsewhere the logger's mutex is all that
  serialises writers.\<close>

definition on_linux :: "env \<Rightarrow> ('s, 'e, unit) io \<Rightarrow> ('s, 'e, unit) io" where
  "on_linux E m = (if e_os E = ''linux'' then m else ret ())"

definition audit_log :: "env \<Rightarrow> audit_logger \<Rightarrow> audit_event \<Rightarrow> json \<Rightarrow> ('z, unit) eio" where
  "audit_log E lg event data =
     bindE (utc_now E) (\<lambda>now.
     let ts = e_rfc3339 E now;
         severity = event_severity event;
         payload = line_payload ts (event_str event) (severity_str severity) (al_installation_id lg) data in
     bindE (lift_res (canonical_json E payload)) (\<lambda>canonical.
     bindE (lift_res (compute_hmac E (al_hmac_key lg) canonical)) (\<lambda>line_hmac.
     bindE (case payload of JObject m \<Rightarrow> ret m
            | _ \<Rightarrow> fail (Internal ''Unexpected JSON type in audit payload'')) (\<lambda>line_obj.
     let line_obj = bt_insert ''line_hmac'' (JString line_hmac) line_obj in
     bindE (lift_res (map_inl (\<lambda>e. Internal (''JSON serialisation failed: '' @ e))
              (e_json_str E (JObject line_obj)))) (\<lambda>line_bytes.
     let line_bytes = line_bytes @ [CHR 0x0A] in
     bindE (map_err (\<lambda>_. Internal ''Audit log mutex poisoned'') (may_fail E OpLock (al_file lg))) (\<lambda>_.
     bindE (on_linux E (map_err (\<lambda>e. Permission (''flock failed: '' @ e)) (may_fail E OpFlock (al_file lg)))) (\<lambda>_.
     bindE (map_err (\<lambda>e. Internal (''Audit log write failed: '' @ e)) (append_all E (al_file lg) line_bytes)) (\<lambda>_.
     bindE (on_linux E (ignore (may_fail E OpFlock (al_file lg)))) (\<lambda>_.
     map_err (\<lambda>e. Internal (''Audit log flush failed: '' @ e)) (may_fail E OpFlush (al_file lg)))))))))))"

section \<open>Verification\<close>

definition AUDIT_FIELDS :: "string list" where
  "AUDIT_FIELDS = [''ts'', ''event'', ''severity'', ''installation_id'', ''data'', ''line_hmac'']"

definition decode_line :: "json \<Rightarrow> audit_log_line option" where
  "decode_line v = Option.bind (as_struct AUDIT_FIELDS v) (\<lambda>m.
     case (fld_string m ''ts'', fld_string m ''event'', fld_string m ''severity'',
           fld_string m ''installation_id'', map_of m ''data'', fld_string m ''line_hmac'') of
       (Some ts, Some ev, Some sev, Some iid, Some d, Some h) \<Rightarrow>
         Some \<lparr>ln_ts = ts, ln_event = ev, ln_severity = sev, ln_installation_id = iid, ln_data = d, ln_line_hmac = h\<rparr>
     | _ \<Rightarrow> None)"

text \<open>\<open>BufRead::lines\<close>: the pieces between newlines, without a final empty one; a terminated line
  also loses one carriage return.\<close>

definition strip_cr :: "string \<Rightarrow> string" where
  "strip_cr s = (if s \<noteq> [] \<and> last s = CHR 0x0D then butlast s else s)"

definition buf_lines :: "bytes \<Rightarrow> bytes list" where
  "buf_lines b =
     (let segs = split_on (CHR 0x0A) b
      in map strip_cr (butlast segs) @ (if last segs = [] then [] else [last segs]))"

text \<open>The recomputation of the code of one decoded line.\<close>

definition check_line :: "env \<Rightarrow> bytes \<Rightarrow> nat \<Rightarrow> audit_log_line \<Rightarrow> synqro_error + bool" where
  "check_line E key line_no log_line =
     (let expected_payload = line_payload (ln_ts log_line) (ln_event log_line) (ln_severity log_line)
                               (ln_installation_id log_line) (ln_data log_line) in
      bind_res (canonical_json E expected_payload) (\<lambda>canonical.
      bind_res (compute_hmac E key canonical) (\<lambda>expected_hmac.
      if \<not> constant_time_eq expected_hmac (ln_line_hmac log_line) then
        Inl (Crypto (''HMAC mismatch on line '' @ show_nat (line_no + 1) @ '' '' @ em_dash @
               '' log may have been tampered with''))
      else Inr True)))"

text \<open>One round of the loop: \<open>False\<close> for a blank line, which is skipped.\<close>

definition verify_line :: "env \<Rightarrow> bytes \<Rightarrow> nat \<Rightarrow> bytes \<Rightarrow> synqro_error + bool" where
  "verify_line E key line_no line =
     (if \<not> valid_utf8 line then
        Inl (Internal (''Read error at line '' @ show_nat (line_no + 1) @ '': stream did not contain valid UTF-8''))
      else if trim line = [] then Inr False
      else bind_res (map_inl (\<lambda>e. InvalidInput (''Line '' @ show_nat (line_no + 1) @ '' is not valid JSON: '' @ e))
                       (json_typed E ''AuditLogLine'' decode_line line)) (check_line E key line_no))"

text \<open>The loop; reading on may fail at every line and at the end of the file.\<close>

fun verify_lines :: "env \<Rightarrow> bytes \<Rightarrow> names \<Rightarrow> nat \<Rightarrow> u64 \<Rightarrow> bytes list \<Rightarrow> ('z, u64) eio" where
  "verify_lines E key ns line_no valid_count [] =
     bindE (map_err (\<lambda>e. Internal (''Read error at line '' @ show_nat (line_no + 1) @ '': '' @ e))
              (may_fail E OpReadLine ns)) (\<lambda>_. ret valid_count)"
| "verify_lines E key ns line_no valid_count (line # rest) =
     bindE (map_err (\<lambda>e. Internal (''Read error at line '' @ show_nat (line_no + 1) @ '': '' @ e))
              (may_fail E OpReadLine ns)) (\<lambda>_.
     bindE (lift_res (verify_line E key line_no line)) (\<lambda>counted.
     verify_lines E key ns (line_no + 1) (if counted then sat_add valid_count 1 else valid_count) rest))"

text \<open>Opening a directory succeeds; reading from it does not.\<close>

definition verify_log :: "env \<Rightarrow> audit_logger \<Rightarrow> path \<Rightarrow> ('z, u64) eio" where
  "verify_log E lg path =
     bindE (map_err (\<lambda>e. Permission (''Cannot open log for verification: '' @ e)) (file_open E path)) (\<lambda>file w.
     case w_fs w file of
       Some (File content m) \<Rightarrow> verify_lines E (al_hmac_key lg) file 0 0 (buf_lines content) w
     | _ \<Rightarrow> (Inl (Internal (''Read error at line 1: '' @ EISDIR)), w))"

section \<open>Authentic lines\<close>

definition line_body :: "audit_log_line \<Rightarrow> json" where
  "line_body l = line_payload (ln_ts l) (ln_event l) (ln_severity l) (ln_installation_id l) (ln_data l)"

definition line_accepted :: "env \<Rightarrow> bytes \<Rightarrow> audit_log_line \<Rightarrow> bool" where
  "line_accepted E key l \<longleftrightarrow> check_line E key 0 l = Inr True"

lemma check_line_Inr: "check_line E key n l = Inr b \<longleftrightarrow> b \<and> seal E key (line_body l) = Inr (ln_line_hmac l)"
  by (auto simp: check_line_def seal_def line_body_def run_iff)

interpretation audit_line: sealed_record line_body ln_line_hmac line_accepted
  by unfold_locales (simp add: line_accepted_def check_line_Inr)

lemma check_line_mismatch:
  assumes "seal E key (line_body l) = Inr t" "t \<noteq> ln_line_hmac l"
  shows "check_line E key n l = Inl (Crypto (''HMAC mismatch on line '' @ show_nat (n + 1) @ '' '' @ em_dash @
           '' log may have been tampered with''))"
  using assms by (auto simp: check_line_def seal_def line_body_def run_iff)

text \<open>What one non-blank line must be for the loop to go on.\<close>

definition line_authentic :: "env \<Rightarrow> bytes \<Rightarrow> bytes \<Rightarrow> bool" where
  "line_authentic E key s \<longleftrightarrow> valid_utf8 s \<and> trim s \<noteq> [] \<and>
     (\<exists>l. json_typed E ''AuditLogLine'' decode_line s = Inr l \<and> line_accepted E key l)"

lemma verify_line_Inr:
  "verify_line E key n s = Inr b \<longleftrightarrow>
   (if b then line_authentic E key s else valid_utf8 s \<and> trim s = [])"
  by (cases b) (auto simp: verify_line_def line_authentic_def line_accepted_def run_iff check_line_Inr)

text \<open>A line that keeps the code of an authentic record but not its signed fields is not authentic, as far as the
  MAC tells the two payloads apart.\<close>

lemma altered_not_authentic:
  assumes "json_typed E ''AuditLogLine'' decode_line s = Inr l'" "line_accepted E key l" "ln_line_hmac l' = ln_line_hmac l"
    and "mac_separates E key (line_body l) (line_body l')"
  shows "\<not> line_authentic E key s"
  using audit_line.altered_rejected [OF assms(2-4)] assms(1) by (auto simp: line_authentic_def)

text \<open>The error of a line that is neither blank nor authentic.\<close>

definition line_defect :: "env \<Rightarrow> nat \<Rightarrow> bytes \<Rightarrow> synqro_error" where
  "line_defect E k s =
     (if \<not> valid_utf8 s then Internal (''Read error at line '' @ show_nat (k + 1) @ '': stream did not contain valid UTF-8'')
      else case json_typed E ''AuditLogLine'' decode_line s of
          Inl e \<Rightarrow> InvalidInput (''Line '' @ show_nat (k + 1) @ '' is not valid JSON: '' @ e)
        | Inr l \<Rightarrow> Crypto (''HMAC mismatch on line '' @ show_nat (k + 1) @ '' '' @ em_dash @ '' log may have been tampered with''))"

lemma verify_line_defect:
  assumes "\<And>l. \<exists>t. seal E key (line_body l) = Inr t" "\<not> (valid_utf8 s \<and> trim s = [])" "\<not> line_authentic E key s"
  shows "verify_line E key k s = Inl (line_defect E k s)"
proof (cases "valid_utf8 s")
  case True
  show ?thesis
  proof (cases "json_typed E ''AuditLogLine'' decode_line s")
    case (Inr l)
    obtain t where t: "seal E key (line_body l) = Inr t" using assms(1) by blast
    moreover have "t \<noteq> ln_line_hmac l"
      using assms True Inr t by (auto simp: line_authentic_def line_accepted_def check_line_Inr)
    ultimately show ?thesis using True Inr assms(2) check_line_mismatch [OF t] by (simp add: verify_line_def line_defect_def)
  qed (use True assms(2) in \<open>simp add: verify_line_def line_defect_def\<close>)
qed (simp add: verify_line_def line_defect_def)

lemma seal_defined:
  assumes "hmac_total E" "json_prints E"
  shows "\<exists>t. seal E key v = Inr t"
  using assms unfolding seal_Inr hmac_total_def json_prints_def by metis

section \<open>Lines of a file\<close>

lemma split_on_terminated:
  "d \<notin> set s \<Longrightarrow> split_on d (s @ d # r) = s # split_on d r"
  by (induction s) auto

lemma split_on_nonempty: "split_on d s \<noteq> []"
  by (induction s) (auto split: list.splits)

text \<open>A line written with its terminator is read back as it was written.\<close>

definition clean_line :: "bytes \<Rightarrow> bool" where
  "clean_line s \<longleftrightarrow> CHR 0x0A \<notin> set s \<and> CHR 0x0D \<notin> set s"

lemma strip_cr_clean: "clean_line s \<Longrightarrow> strip_cr s = s"
  by (auto simp: strip_cr_def clean_line_def dest: last_in_set)

definition log_text :: "bytes list \<Rightarrow> bytes" where
  "log_text ls = concat (map (\<lambda>l. l @ [CHR 0x0A]) ls)"

lemma log_text_simps [simp]:
  "log_text [] = []" "log_text (l # ls) = l @ CHR 0x0A # log_text ls"
  "log_text (ls @ ks) = log_text ls @ log_text ks"
  by (simp_all add: log_text_def)

lemma buf_lines_log_text: "list_all clean_line ls \<Longrightarrow> buf_lines (log_text ls) = ls"
proof (induction ls)
  case Nil
  then show ?case by (simp add: buf_lines_def)
next
  case (Cons l ls)
  then have "split_on (CHR 0x0A) (log_text (l # ls)) = l # split_on (CHR 0x0A) (log_text ls)"
    by (simp add: split_on_terminated clean_line_def)
  with Cons show ?case
    using split_on_nonempty [of "CHR 0x0A" "log_text ls"]
    by (auto simp: buf_lines_def strip_cr_clean Let_def split: if_splits)
qed

section \<open>The verification loop\<close>

definition nonblank :: "bytes list \<Rightarrow> nat" where
  "nonblank ls = length (filter (\<lambda>s. trim s \<noteq> []) ls)"

lemma may_fail_Inr: "may_fail E op ns w = (Inr x, w') \<Longrightarrow> w_fs w' = w_fs w"
  by (auto simp: may_fail_def dest!: sys_Inr)

lemma verify_lines_Inr:
  "verify_lines E key ns k c ls w = (Inr n, w') \<Longrightarrow>
   (\<forall>s \<in> set ls. valid_utf8 s \<and> (trim s \<noteq> [] \<longrightarrow> line_authentic E key s)) \<and>
   unat n = min (unat c + nonblank ls) (2 ^ 64 - 1) \<and> w_fs w' = w_fs w"
proof (induction ls arbitrary: k c w)
  case Nil
  have "unat c \<le> 2 ^ 64 - 1" using unsigned_less [of c, where 'a = nat] by simp
  with Nil show ?case by (auto simp: run_iff nonblank_def dest: may_fail_Inr)
next
  case (Cons s ls)
  from Cons.prems obtain x w1 b where m: "may_fail E OpReadLine ns w = (Inr x, w1)"
    and v: "verify_line E key k s = Inr b"
    and r: "verify_lines E key ns (k + 1) (if b then sat_add c 1 else c) ls w1 = (Inr n, w')"
    by (auto simp: run_iff)
  have "unat (if b then sat_add c 1 else c) + nonblank ls = unat c + nonblank (s # ls) \<or>
        (2 ^ 64 - 1 \<le> unat (if b then sat_add c 1 else c) + nonblank ls \<and> 2 ^ 64 - 1 \<le> unat c + nonblank (s # ls))"
    using v by (cases b) (auto simp: verify_line_Inr nonblank_def line_authentic_def unat_sat_add min_def)
  moreover have "valid_utf8 s \<and> (trim s \<noteq> [] \<longrightarrow> line_authentic E key s)"
    using v by (cases b) (auto simp: verify_line_Inr line_authentic_def)
  ultimately show ?case using Cons.IH [OF r] may_fail_Inr [OF m] by auto
qed

lemma verify_lines_run:
  fixes w :: "'z world_scheme"
  assumes "no_faults E" "\<forall>s \<in> set ls. line_authentic E key s" "unat c + length ls < 2 ^ 64"
  shows "\<exists>n w'. verify_lines E key ns k c ls w = (Inr n, w') \<and> unat n = unat c + length ls"
  using assms(2,3)
proof (induction ls arbitrary: k c w)
  case Nil
  then show ?case by (simp add: bindE_def map_err_def may_fail_def sys_nofault assms(1) ret_def)
next
  case (Cons s ls)
  have v: "verify_line E key k s = Inr True" using Cons.prems by (simp add: verify_line_Inr)
  have c: "unat (sat_add c 1) = unat c + 1" using Cons.prems by (simp add: unat_sat_add)
  have "\<exists>n w'. verify_lines E key ns (k + 1) (sat_add c 1) ls w1 = (Inr n, w') \<and> unat n = unat (sat_add c 1) + length ls" for w1 :: "'z world_scheme"
    using Cons.prems c by (intro Cons.IH) auto
  then show ?case
    by (simp add: bindE_def map_err_def may_fail_def sys_nofault assms(1) lift_res_def v c)
qed

lemma verify_lines_stops:
  fixes w :: "'z world_scheme"
  assumes "no_faults E" "\<And>k. \<forall>x \<in> set before. \<exists>c. verify_line E key k x = Inr c" "\<And>k. verify_line E key k s = Inl (err k)"
  shows "\<exists>w'. verify_lines E key ns k c (before @ s # rest) w = (Inl (err (k + length before)), w') \<and> w_fs w' = w_fs w"
  using assms(2)
proof (induction before arbitrary: k c w)
  case Nil
  then show ?case by (simp add: bindE_def map_err_def may_fail_def sys_nofault assms(1) lift_res_def assms(3))
next
  case (Cons x before)
  from Cons.prems [of k] obtain d where v: "verify_line E key k x = Inr d" by auto
  let ?w = "w\<lparr>w_tick := Suc (w_tick w)\<rparr>"
  from Cons.IH [of "k + 1" "if d then sat_add c 1 else c" ?w] Cons.prems obtain w' where
    "verify_lines E key ns (k + 1) (if d then sat_add c 1 else c) (before @ s # rest) ?w = (Inl (err (k + 1 + length before)), w')"
    "w_fs w' = w_fs w" by auto
  then show ?case
    by (simp add: bindE_def map_err_def may_fail_def sys_nofault assms(1) lift_res_def v)
qed

section \<open>Appending one line\<close>

text \<open>The pure part of \<open>audit_log\<close>, and its writing part.\<close>

definition line_text :: "env \<Rightarrow> audit_logger \<Rightarrow> int \<Rightarrow> audit_event \<Rightarrow> json \<Rightarrow> synqro_error + bytes" where
  "line_text E lg now event data =
     (let kvs = [(''ts'', JString (e_rfc3339 E now)), (''event'', JString (event_str event)),
                 (''severity'', JString (severity_str (event_severity event))),
                 (''installation_id'', JString (al_installation_id lg)), (''data'', data)] in
      bind_res (seal E (al_hmac_key lg) (json_obj kvs)) (\<lambda>h.
      map_inl (\<lambda>e. Internal (''JSON serialisation failed: '' @ e))
        (e_json_str E (JObject (bt_insert ''line_hmac'' (JString h) (bt_collect kvs))))))"

definition write_line :: "env \<Rightarrow> audit_logger \<Rightarrow> bytes \<Rightarrow> ('z, unit) eio" where
  "write_line E lg t =
     bindE (map_err (\<lambda>_. Internal ''Audit log mutex poisoned'') (may_fail E OpLock (al_file lg))) (\<lambda>_.
     bindE (on_linux E (map_err (\<lambda>e. Permission (''flock failed: '' @ e)) (may_fail E OpFlock (al_file lg)))) (\<lambda>_.
     bindE (map_err (\<lambda>e. Internal (''Audit log write failed: '' @ e)) (append_all E (al_file lg) (t @ [CHR 0x0A]))) (\<lambda>_.
     bindE (on_linux E (ignore (may_fail E OpFlock (al_file lg)))) (\<lambda>_.
     map_err (\<lambda>e. Internal (''Audit log flush failed: '' @ e)) (may_fail E OpFlush (al_file lg))))))"

lemma bindE_lift_res_merge:
  "bindE (lift_res r) (\<lambda>c. bindE (lift_res (f c)) k) = bindE (lift_res (bind_res r f)) k"
  by (cases r) (simp_all add: bindE_def lift_res_def)

lemma bind_res_assoc: "bind_res (bind_res r f) g = bind_res r (\<lambda>x. bind_res (f x) g)"
  by (cases r) simp_all

lemma audit_log_eq:
  "audit_log E lg event data =
     bindE (utc_now E) (\<lambda>now. bindE (lift_res (line_text E lg now event data)) (write_line E lg))"
  unfolding audit_log_def write_line_def line_text_def line_payload_def json_obj_def Let_def seal_def
  by (simp add: bindE_lift_res_merge bindE_ret bind_res_assoc)

lemma may_fail_fs: "w_fs (snd (may_fail E op ns w)) = w_fs w"
  by (simp add: may_fail_def sys_def Let_def no_effect_def split: option.splits)

lemma append_all_outcome:
  assumes "append_all E ns b w = (r, w')" "file_at w ns = Some old"
  shows "\<exists>n. file_at w' ns = Some (old @ take n b) \<and> (\<forall>x. r = Inr x \<longrightarrow> take n b = b)"
proof -
  from assms(2) obtain m where m: "w_fs w ns = Some (File old m)" by (auto simp: file_at_Some)
  show ?thesis
  proof (cases "e_io E (w_tick w) OpAppend ns")
    case None
    with assms(1) m show ?thesis
      by (auto simp: append_all_def sys_def Let_def append_to_def fs_put_def file_at_def intro!: exI [of _ "length b"])
  next
    case (Some p)
    with assms(1) m show ?thesis
      by (cases p) (auto simp: append_all_def sys_def Let_def append_to_def fs_put_def file_at_def)
  qed
qed

text \<open>Locking and unlocking the file touch no file, and unlocking cannot fail.\<close>

lemma flock_cases:
  assumes "on_linux E (map_err f (may_fail E op ns)) w = (r, w')"
  shows "w_fs w' = w_fs w \<and> (r = Inr () \<or> e_os E = ''linux'' \<and> (\<exists>m. r = Inl (f m)))"
proof (cases "e_os E = ''linux''")
  case True
  moreover obtain x v where "may_fail E op ns w = (x, v)" by fastforce
  ultimately show ?thesis using assms may_fail_fs [of E op ns w]
    by (cases x) (auto simp: on_linux_def map_err_def)
qed (use assms in \<open>auto simp: on_linux_def ret_def\<close>)

lemma unflock_cases:
  assumes "on_linux E (ignore (may_fail E op ns)) w = (r, w')"
  shows "w_fs w' = w_fs w \<and> r = Inr ()"
  using assms may_fail_fs [of E op ns w] by (auto simp: on_linux_def ignore_def ret_def split: if_splits)

lemma write_line_outcome:
  assumes "write_line E lg t w = (r, w')" "file_at w (al_file lg) = Some old"
  shows "\<exists>n. file_at w' (al_file lg) = Some (old @ take n (t @ [CHR 0x0A])) \<and>
             (\<forall>x. r = Inr x \<longrightarrow> take n (t @ [CHR 0x0A]) = t @ [CHR 0x0A])"
proof -
  let ?f = "al_file lg"
  obtain r1 w1 where 1: "may_fail E OpLock ?f w = (r1, w1)" by fastforce
  obtain r2 w2 where 2: "on_linux E (map_err (\<lambda>e. Permission (''flock failed: '' @ e)) (may_fail E OpFlock ?f)) w1 = (r2, w2)" by fastforce
  obtain r3 w3 where 3: "append_all E ?f (t @ [CHR 0x0A]) w2 = (r3, w3)" by fastforce
  obtain r4 :: "synqro_error + unit" and w4 where 4: "on_linux E (ignore (may_fail E OpFlock ?f)) w3 = (r4, w4)" by fastforce
  obtain r5 w5 where 5: "may_fail E OpFlush ?f w4 = (r5, w5)" by fastforce
  have f: "w_fs w1 = w_fs w" "w_fs w2 = w_fs w1" "w_fs w4 = w_fs w3" "w_fs w5 = w_fs w4"
    using 1 5 flock_cases [OF 2] unflock_cases [OF 4] by (metis may_fail_fs snd_conv)+
  then have a: "file_at w1 ?f = Some old" "file_at w2 ?f = Some old" "file_at w5 ?f = file_at w3 ?f"
    using assms(2) by (simp_all add: file_at_def)
  have none: "file_at v ?f = Some old \<Longrightarrow> ?thesis" if "w' = v" "r = Inl e" for v e
    using that by (auto intro!: exI [of _ 0])
  note run = assms(1) [unfolded write_line_def bindE_def]
  show ?thesis
  proof (cases r1)
    case (Inl e)
    with run 1 none [of w1] a show ?thesis by (auto simp: map_err_def)
  next
    case r1: (Inr x)
    show ?thesis
    proof (cases r2)
      case (Inl e)
      with run 1 2 r1 none [of w2] a show ?thesis by (auto simp: map_err_def)
    next
      case (Inr y)
      from append_all_outcome [OF 3 a(2)] obtain n where
        n: "file_at w3 ?f = Some (old @ take n (t @ [CHR 0x0A]))"
           "\<forall>x. r3 = Inr x \<longrightarrow> take n (t @ [CHR 0x0A]) = t @ [CHR 0x0A]" by blast
      from unflock_cases [OF 4] have "r4 = Inr ()" by simp
      with run 1 2 3 4 5 r1 Inr have "w' = w3 \<and> (\<exists>e. r = Inl e) \<or> w' = w5 \<and> (\<exists>x. r3 = Inr x)"
        by (cases r3; cases r5) (auto simp: map_err_def)
      with n a(3) show ?thesis by (intro exI [of _ n]) auto
    qed
  qed
qed

lemma steps_on_linux [steps_intro]: "preorder_rel R \<Longrightarrow> steps R m \<Longrightarrow> steps R (on_linux E m)"
  unfolding on_linux_def by (auto intro: steps_intro)

lemma steps_audit_log [steps_intro]: "steps (fs_only {al_file lg}) (audit_log E lg event data)"
  unfolding audit_log_eq write_line_def by (intro steps_on_linux steps_intro preorder_fs_only) auto

lemma audit_log_outcome:
  assumes "audit_log E lg event data w = (r, w')" "file_at w (al_file lg) = Some old"
  shows "(\<exists>e. line_text E lg (e_clock E (w_tick w)) event data = Inl e \<and> r = Inl e \<and> file_at w' (al_file lg) = Some old) \<or>
         (\<exists>t n. line_text E lg (e_clock E (w_tick w)) event data = Inr t \<and>
            file_at w' (al_file lg) = Some (old @ take n (t @ [CHR 0x0A])) \<and>
            (\<forall>x. r = Inr x \<longrightarrow> take n (t @ [CHR 0x0A]) = t @ [CHR 0x0A]))"
proof (cases "line_text E lg (e_clock E (w_tick w)) event data")
  case (Inl e)
  with assms show ?thesis
    by (auto simp: audit_log_eq bindE_def utc_now_def lift_res_def file_at_def)
next
  case (Inr t)
  with assms have "write_line E lg t (w\<lparr>w_tick := Suc (w_tick w)\<rparr>) = (r, w')"
    by (auto simp: audit_log_eq bindE_def utc_now_def lift_res_def)
  from write_line_outcome [OF this, of old] assms(2) Inr show ?thesis by (auto simp: file_at_def)
qed

section \<open>Every line the logger writes is authentic\<close>

text \<open>Data whose line is read back exactly: no floating-point numbers, and nested at most 126 deep, since the line
  is one level around it. \<open>synqro_audit_event\<close> accepts more: floating-point numbers, which the library may read
  back as a neighbouring number, and data of depth 127, whose line it refuses to read.\<close>

definition printable_event :: "audit_event \<times> json \<Rightarrow> bool" where
  "printable_event p \<longleftrightarrow> json_wf (snd p) \<and> json_plain (snd p) \<and> json_depth (snd p) < JSON_MAX_DEPTH"

definition logging_env :: "env \<Rightarrow> bool" where
  "logging_env E \<longleftrightarrow> json_laws E \<and> hmac_total E \<and> hex_ascii E \<and> time_ascii E"

lemma severity_str_ascii: "ascii (severity_str s)"
  by (cases s) (simp_all add: byte_val_def)

lemma field_names_utf8:
  "valid_utf8 ''ts''" "valid_utf8 ''event''" "valid_utf8 ''severity''" "valid_utf8 ''installation_id''"
  "valid_utf8 ''data''" "valid_utf8 ''line_hmac''"
  by code_simp+

lemma line_text_authentic:
  assumes "logging_env E" "valid_utf8 (al_installation_id lg)" "printable_event (event, data)"
  obtains t where "line_text E lg now event data = Inr t" "clean_line t" "line_authentic E (al_hmac_key lg) t"
proof -
  have laws: "json_laws E" "hmac_total E" "hex_ascii E" "time_ascii E"
    using assms(1) by (simp_all add: logging_env_def)
  define kvs where "kvs = [(''ts'', JString (e_rfc3339 E now)), (''event'', JString (event_str event)),
                 (''severity'', JString (severity_str (event_severity event))),
                 (''installation_id'', JString (al_installation_id lg)), (''data'', data)]"
  have data: "json_wf data" "json_plain data" "json_depth data < JSON_MAX_DEPTH" using assms(3) by (simp_all add: printable_event_def)
  have wf: "json_wf (JObject (bt_collect kvs))"
    by (rule json_wf_obj [unfolded json_obj_def]) (simp add: kvs_def data)
  have "ascii (e_rfc3339 E now)" using laws(4) by (simp add: time_ascii_def)
  then have vals: "valid_utf8 (e_rfc3339 E now)" "valid_utf8 (event_str event)"
    "valid_utf8 (severity_str (event_severity event))"
    by (simp_all add: ascii_valid_utf8 event_str_ascii severity_str_ascii)
  have plain: "json_readable (JObject (bt_collect kvs))"
    by (rule json_readable_obj [unfolded json_obj_def])
      (simp add: kvs_def data vals field_names_utf8 assms(2), simp add: JSON_MAX_DEPTH_def)
  obtain h where h: "seal E (al_hmac_key lg) (JObject (bt_collect kvs)) = Inr h"
    by (rule seal_total [OF laws(1,2) wf plain])
  then have "ascii h" using laws(3) by (auto simp: seal_Inr hex_ascii_def)
  let ?m = "bt_insert ''line_hmac'' (JString h) (bt_collect kvs)"
  have "json_wf (JObject ?m)" by (rule json_wf_insert [OF wf]) simp
  moreover have "json_readable (JObject ?m)"
    by (rule json_readable_insert [OF plain]) (simp_all add: ascii_valid_utf8 [OF \<open>ascii h\<close>] field_names_utf8 JSON_MAX_DEPTH_def)
  ultimately obtain s where s: "e_json_str E (JObject ?m) = Inr s" "e_json_parse E s = Inr (JObject ?m)"
    "\<And>ty. \<not> e_json_dup E ty s" "valid_utf8 s" "CHR 0x0A \<notin> set s" "CHR 0x0D \<notin> set s" "trim s \<noteq> []"
    using laws(1) unfolding json_laws_def by blast
  let ?l = "\<lparr>ln_ts = e_rfc3339 E now, ln_event = event_str event,
    ln_severity = severity_str (event_severity event), ln_installation_id = al_installation_id lg,
    ln_data = data, ln_line_hmac = h\<rparr>"
  have "decode_line (JObject ?m) = Some ?l"
    by (simp add: decode_line_def fld_string_def map_of_bt_insert map_of_bt_collect kvs_def)
  then have "json_typed E ''AuditLogLine'' decode_line s = Inr ?l"
    using s by (simp add: json_typed_def)
  moreover have "line_accepted E (al_hmac_key lg) ?l"
    using h by (intro audit_line.sealed_accepted) (simp add: line_body_def line_payload_def kvs_def json_obj_def)
  ultimately have "line_authentic E (al_hmac_key lg) s"
    using s by (auto simp: line_authentic_def)
  moreover have "line_text E lg now event data = Inr s"
    using h s(1) by (simp add: line_text_def Let_def json_obj_def flip: kvs_def)
  ultimately show thesis using s by (intro that) (simp_all add: clean_line_def)
qed

lemma write_line_run:
  assumes "no_faults E" "w_fs w (al_file lg) = Some (File old m)"
  shows "\<exists>w'. write_line E lg t w = (Inr (), w') \<and> w_fs w' (al_file lg) = Some (File (old @ t @ [CHR 0x0A]) m)"
  using assms
  by (simp add: write_line_def on_linux_def bindE_def map_err_def may_fail_def append_all_def sys_nofault ignore_def
        append_to_def fs_put_def ret_def)

text \<open>With a working system and printable data, logging succeeds, whatever has become of the file.\<close>

lemma audit_log_ok:
  assumes "no_faults E" "logging_env E" "valid_utf8 (al_installation_id lg)" "printable_event (event, data)"
  shows "\<exists>w'. audit_log E lg event data w = (Inr (), w')"
proof -
  obtain t where "line_text E lg (e_clock E (w_tick w)) event data = Inr t"
    by (rule line_text_authentic [OF assms(2,3,4)])
  then show ?thesis
    by (simp add: audit_log_eq write_line_def on_linux_def bindE_def utc_now_def lift_res_def map_err_def may_fail_def append_all_def
        ignore_def ret_def sys_nofault [OF assms(1)])
qed

text \<open>A file that consists of authentic lines, and how the logger extends it.\<close>

definition authentic_log :: "env \<Rightarrow> bytes \<Rightarrow> bytes list \<Rightarrow> bytes \<Rightarrow> bool" where
  "authentic_log E key ls b \<longleftrightarrow> b = log_text ls \<and> (\<forall>s \<in> set ls. clean_line s \<and> line_authentic E key s)"

lemma audit_log_run:
  assumes "no_faults E" "logging_env E" "valid_utf8 (al_installation_id lg)" "printable_event (event, data)"
    and "w_fs w (al_file lg) = Some (File b m)" "authentic_log E (al_hmac_key lg) ls b"
  shows "\<exists>w' t b'. audit_log E lg event data w = (Inr (), w') \<and> w_fs w' (al_file lg) = Some (File b' m) \<and>
             authentic_log E (al_hmac_key lg) (ls @ [t]) b'"
proof -
  obtain t where t: "line_text E lg (e_clock E (w_tick w)) event data = Inr t" "clean_line t"
      "line_authentic E (al_hmac_key lg) t"
    by (rule line_text_authentic [OF assms(2,3,4)])
  let ?w = "w\<lparr>w_tick := Suc (w_tick w)\<rparr>"
  obtain w' where "write_line E lg t ?w = (Inr (), w')"
      "w_fs w' (al_file lg) = Some (File (b @ t @ [CHR 0x0A]) m)"
    using write_line_run [OF assms(1), of ?w lg b m t] assms(5) by auto
  with t assms(6) show ?thesis
    by (auto simp: audit_log_eq bindE_def utc_now_def lift_res_def authentic_log_def
          intro!: exI [of _ t] exI [of _ "b @ t @ [CHR 0x0A]"])
qed

lemma audit_log_all_run:
  assumes "no_faults E" "logging_env E" "valid_utf8 (al_installation_id lg)"
    and "\<forall>p \<in> set evs. printable_event p"
    and "w_fs w (al_file lg) = Some (File b m)" "authentic_log E (al_hmac_key lg) ls b"
  shows "\<exists>w' b' ls'. for_each evs (\<lambda>(ev, d). audit_log E lg ev d) w = (Inr (), w') \<and>
             w_fs w' (al_file lg) = Some (File b' m) \<and>
             authentic_log E (al_hmac_key lg) (ls @ ls') b' \<and> length ls' = length evs"
  using assms(4-)
proof (induction evs arbitrary: w b ls)
  case Nil
  then show ?case by (auto simp: ret_def intro!: exI [of _ "[]"])
next
  case (Cons p evs)
  obtain ev d where p: "p = (ev, d)" by (cases p)
  with Cons.prems(1) have "printable_event (ev, d)" by simp
  from audit_log_run [OF assms(1,2,3) this Cons.prems(2,3)] obtain w1 t b1
    where 1: "audit_log E lg ev d w = (Inr (), w1)" "w_fs w1 (al_file lg) = Some (File b1 m)"
      "authentic_log E (al_hmac_key lg) (ls @ [t]) b1" by blast
  from Cons.prems(1) have "\<forall>p \<in> set evs. printable_event p" by simp
  from Cons.IH [OF this 1(2,3)] obtain w' b' ls' where
    "for_each evs (\<lambda>(ev, d). audit_log E lg ev d) w1 = (Inr (), w')" "w_fs w' (al_file lg) = Some (File b' m)"
    "authentic_log E (al_hmac_key lg) ((ls @ [t]) @ ls') b'" "length ls' = length evs" by blast
  with 1 p show ?case by (auto simp: bindE_def intro!: exI [of _ "t # ls'"])
qed

lemma verify_log_run:
  assumes "no_faults E" "w_fs w (resolve E p) = Some (File b m)"
    and "authentic_log E (al_hmac_key lg) ls b" "length ls < 2 ^ 64"
  shows "\<exists>n w'. verify_log E lg p w = (Inr n, w') \<and> unat n = length ls"
proof -
  have "buf_lines b = ls" "\<forall>s \<in> set ls. line_authentic E (al_hmac_key lg) s"
    using assms(3) buf_lines_log_text [of ls] by (auto simp: authentic_log_def list_all_iff)
  with verify_lines_run [OF assms(1), of ls "al_hmac_key lg" 0] assms(2,4) show ?thesis
    by (simp add: verify_log_def bindE_def map_err_def file_open_def Let_def sys_nofault assms(1))
qed

lemma unat_back: "of_nat (unat n) = n" for n :: "'n::len word"
  by simp

section \<open>Properties\<close>

text \<open>C13. A log is what was logged, as far as the data of the events can be read back exactly (\<open>printable_event\<close>: no
  floating-point numbers, nested at most 126 deep): with a working operating system, logging any sequence
  of such events to an empty log file succeeds, and verifying the file with the same logger succeeds and
  counts exactly the events logged.\<close>

theorem log_then_verify:
  assumes "no_faults E" "logging_env E" "valid_utf8 (al_installation_id lg)"
    and "\<forall>p \<in> set evs. printable_event p" "length evs < 2 ^ 64"
    and "resolve E p = al_file lg" "file_at w (al_file lg) = Some []"
  shows "\<exists>w1 w2. for_each evs (\<lambda>(ev, d). audit_log E lg ev d) w = (Inr (), w1) \<and>
           verify_log E lg p w1 = (Inr (of_nat (length evs)), w2)"
proof -
  obtain m where m: "w_fs w (al_file lg) = Some (File [] m)" using assms(7) by (auto simp: file_at_Some)
  have "authentic_log E (al_hmac_key lg) [] []" by (simp add: authentic_log_def)
  from audit_log_all_run [OF assms(1-4) m this] obtain w1 b ls where
    1: "for_each evs (\<lambda>(ev, d). audit_log E lg ev d) w = (Inr (), w1)"
    "w_fs w1 (al_file lg) = Some (File b m)" "authentic_log E (al_hmac_key lg) ls b" "length ls = length evs"
    by auto
  with verify_log_run [OF assms(1), of w1 p b m lg ls] assms(5,6) obtain n w2 where
    "verify_log E lg p w1 = (Inr n, w2)" "unat n = length evs" by auto
  with 1 show ?thesis by (metis unat_back)
qed

text \<open>C18. Appending never rewrites the log: whatever fails, the content of the log file after one call
  is its old content followed by a prefix of one line; the call succeeds only when the line is there
  in full with its terminator; and no other file is touched.\<close>

theorem audit_log_append_only:
  assumes "audit_log E lg event data w = (r, w')" "file_at w (al_file lg) = Some old"
  shows "(\<exists>s. file_at w' (al_file lg) = Some (old @ s) \<and>
            (s = [] \<or> (\<exists>t n. line_text E lg (e_clock E (w_tick w)) event data = Inr t \<and> s = take n (t @ [CHR 0x0A])))) \<and>
         (r = Inr () \<longrightarrow> (\<exists>t. line_text E lg (e_clock E (w_tick w)) event data = Inr t \<and>
            file_at w' (al_file lg) = Some (old @ t @ [CHR 0x0A]))) \<and>
         (\<forall>q. q \<noteq> al_file lg \<longrightarrow> w_fs w' q = w_fs w q)"
  using audit_log_outcome [OF assms] fs_only_same [OF stepsD [OF steps_audit_log assms(1)]]
  by auto

text \<open>C19. Verification is sound: when it succeeds, every line of the file is blank or decodes to a
  record whose code is the HMAC of its other fields under the logger's key; the returned number is
  the number of non-blank lines, saturating at the largest u64; the file system is unchanged.\<close>

theorem verify_log_sound:
  assumes "verify_log E lg p w = (Inr n, w')"
  shows "\<exists>b. file_at w (resolve E p) = Some b \<and>
           (\<forall>s \<in> set (buf_lines b). trim s = [] \<or>
              (\<exists>l. json_typed E ''AuditLogLine'' decode_line s = Inr l \<and>
                   seal E (al_hmac_key lg) (line_body l) = Inr (ln_line_hmac l))) \<and>
           unat n = min (nonblank (buf_lines b)) (2 ^ 64 - 1) \<and> w_fs w' = w_fs w"
proof -
  from assms obtain g w1 where o: "file_open E p w = (Inr g, w1)"
    and v: "(case w_fs w1 g of Some (File c m) \<Rightarrow> verify_lines E (al_hmac_key lg) g 0 0 (buf_lines c) w1
       | _ \<Rightarrow> (Inl (Internal (''Read error at line 1: '' @ EISDIR)), w1)) = (Inr n, w')"
    unfolding verify_log_def by (auto simp: run_iff)
  from o have f: "g = resolve E p" "w_fs w1 = w_fs w"
    by (auto simp: file_open_def Let_def dest!: sys_Inr split: if_splits)
  from v obtain b m where b: "w_fs w g = Some (File b m)"
    and vl: "verify_lines E (al_hmac_key lg) g 0 0 (buf_lines b) w1 = (Inr n, w')"
    by (auto simp: f split: option.splits node.splits)
  from verify_lines_Inr [OF vl] f b show ?thesis
    by (auto simp: line_authentic_def line_accepted_def check_line_Inr file_at_def)
qed

text \<open>C20. The first line of a log that is neither blank nor authentic is detected: with a working system, after any
  number of lines that are blank or authentic, verification stops at it, returns the error of its defect
  with its number (\<open>line_defect\<close>: bytes that are not UTF-8, text that is no log line, a code that is not the
  one of its fields), and changes no file. A line that became blank, or another authentic line, is not detected.\<close>

theorem altered_line_detected:
  assumes "no_faults E" "hmac_total E" "json_prints E" "w_fs w (resolve E p) = Some (File b m)"
    and "buf_lines b = before @ s # rest" "\<forall>x \<in> set before. valid_utf8 x \<and> (trim x = [] \<or> line_authentic E (al_hmac_key lg) x)"
    and "\<not> (valid_utf8 s \<and> trim s = [])" "\<not> line_authentic E (al_hmac_key lg) s"
  shows "\<exists>w'. verify_log E lg p w = (Inl (line_defect E (length before) s), w') \<and> w_fs w' = w_fs w"
proof -
  let ?key = "al_hmac_key lg"
  have bad: "verify_line E ?key k s = Inl (line_defect E k s)" for k
    by (rule verify_line_defect [OF seal_defined [OF assms(2,3)] assms(7,8)])
  have "\<forall>x \<in> set before. \<exists>c. verify_line E ?key k x = Inr c" for k
    using assms(6) by (metis verify_line_Inr)
  from verify_lines_stops [OF assms(1) this bad, where w = "w\<lparr>w_tick := Suc (w_tick w)\<rparr>" and k = 0] show ?thesis
    using assms(4,5) by (simp add: verify_log_def bindE_def map_err_def file_open_def Let_def sys_nofault assms(1))
qed

text \<open>C21. The limit of the log's protection: the code of a line covers that line alone, so a log from
  which lines were removed, or whose lines were reordered or repeated, still verifies.\<close>

theorem verification_ignores_deletion:
  assumes "no_faults E" "authentic_log E (al_hmac_key lg) ls (log_text ls)"
    and "set ks \<subseteq> set ls" "length ks < 2 ^ 64"
    and "w_fs w (resolve E p) = Some (File (log_text ks) m)"
  shows "\<exists>w'. verify_log E lg p w = (Inr (of_nat (length ks)), w')"
proof -
  have "authentic_log E (al_hmac_key lg) ks (log_text ks)"
    using assms(2,3) by (auto simp: authentic_log_def)
  from verify_log_run [OF assms(1,5) this assms(4)] show ?thesis by (metis unat_back)
qed

text \<open>The signing key is a function of the installation id alone, whatever the configuration and
  the state of the system: a logger reopened after a restart verifies what the earlier one wrote,
  and so does (and so can write) any other process that knows the installation id, which every line
  shows in clear.\<close>

theorem audit_key_from_installation_id:
  assumes "audit_new E cfg iid w = (Inr lg, w1)" "audit_new E cfg' iid w' = (Inr lg', w2)"
  shows "al_hmac_key lg' = al_hmac_key lg \<and> e_hkdf E ''synqro-audit-v1'' iid ''hmac-key'' 32 = Inr (al_hmac_key lg) \<and>
         line_text E lg' now event data = line_text E lg now event data \<and>
         line_authentic E (al_hmac_key lg') s = line_authentic E (al_hmac_key lg) s"
  using assms by (auto simp: audit_new_def run_iff Let_def line_text_def)

text \<open>Event names: a name is recognised exactly when its upper-case form is the canonical name of
  the event, so every event the engine writes is read back and the caller may use any case.\<close>

theorem event_from_str_iff: "event_from_str s = Some ev \<longleftrightarrow> to_uppercase s = event_str ev"
  by (cases ev) (auto simp: event_from_str_def Let_def)

text \<open>The reader of names is a search of the catalogue.\<close>

lemma event_from_str_find: "event_from_str s = find (\<lambda>ev. event_str ev = to_uppercase s) Enum.enum"
  by (simp add: event_from_str_def enum_audit_event_def Let_def eq_commute)

section \<open>Witnesses\<close>

definition lg0 :: audit_logger where
  "lg0 = \<lparr>al_log_path = [Normal ''log''], al_hmac_key = ''key'', al_installation_id = ''id'', al_file = [''log'']\<rparr>"

definition body0 :: json where
  "body0 = line_payload ''now'' ''SYNQRO_INIT'' ''INFO'' ''id'' JNull"

definition tag0 :: string where
  "tag0 = enc_str (''key.'' @ enc body0)"

definition line0 :: "json \<Rightarrow> audit_log_line" where
  "line0 d = \<lparr>ln_ts = ''now'', ln_event = ''SYNQRO_INIT'', ln_severity = ''INFO'', ln_installation_id = ''id'',
     ln_data = d, ln_line_hmac = tag0\<rparr>"

definition text0 :: "json \<Rightarrow> bytes" where
  "text0 d = enc (json_obj [(''ts'', JString ''now''), (''event'', JString ''SYNQRO_INIT''),
     (''severity'', JString ''INFO''), (''installation_id'', JString ''id''), (''data'', d), (''line_hmac'', JString tag0)])"

definition world0 :: "bytes \<Rightarrow> world" where
  "world0 b = world_of [([''log''], File b 0x180)]"

lemma logging_env0: "logging_env env0"
  by (simp add: logging_env_def)

lemma resolve_log0: "resolve env0 [Normal ''log''] = [''log'']"
  by (simp add: resolve_def)

lemma world0_log: "w_fs (world0 b) [''log''] = Some (File b 0x180)"
  by (simp add: world0_def world_of_def)

lemma seal_env0: "json_wf v \<Longrightarrow> seal env0 k v = Inr (enc_str (k @ ''.'' @ enc v))"
  by (simp add: seal_Inr sort_json_keys_id)

lemma typed_text0:
  assumes "json_wf d"
  shows "json_typed env0 ''AuditLogLine'' decode_line (text0 d) = Inr (line0 d)"
proof -
  let ?v = "json_obj [(''ts'', JString ''now''), (''event'', JString ''SYNQRO_INIT''),
     (''severity'', JString ''INFO''), (''installation_id'', JString ''id''), (''data'', d), (''line_hmac'', JString tag0)]"
  have "json_wf ?v" by (rule json_wf_obj) (simp add: assms)
  then have "e_json_parse env0 (text0 d) = Inr ?v"
    by (simp add: text0_def parse_enc map_inr_def sort_json_keys_id)
  then show ?thesis
    by (simp add: json_typed_def json_obj_def decode_line_def fld_string_def map_of_bt_collect line0_def)
qed

lemma wf_body0: "json_wf d \<Longrightarrow> json_wf (line_body (line0 d))"
  unfolding line_body_def line_payload_def by (rule json_wf_obj) (simp add: line0_def)

lemma accepted0: "line_accepted env0 ''key'' (line0 JNull)"
  by (rule audit_line.sealed_accepted, subst seal_env0, rule wf_body0)
     (simp_all add: line0_def tag0_def body0_def line_body_def)

lemma clean_text0: "valid_utf8 (text0 d)" "trim (text0 d) \<noteq> []" "clean_line (text0 d)"
  using visible_no_newline [OF visible_enc]
  by (simp_all add: text0_def clean_line_def trim_visible visible_enc enc_nonempty ascii_valid_utf8 visible_ascii)

lemma authentic0: "line_authentic env0 ''key'' (text0 JNull)"
  using typed_text0 [of JNull] accepted0 clean_text0 [of JNull] by (auto simp: line_authentic_def)

lemma log_then_verify_witness:
  "\<exists>w1 w2. for_each [(SynqroInit, JNull), (UpdateApplied, JBool True)] (\<lambda>(ev, d). audit_log env0 lg0 ev d) (world0 [])
      = (Inr (), w1) \<and> verify_log env0 lg0 [Normal ''log''] w1 = (Inr 2, w2)"
proof -
  have "valid_utf8 ''id''" by code_simp
  then show ?thesis
    using log_then_verify [of env0 lg0 "[(SynqroInit, JNull), (UpdateApplied, JBool True)]" "[Normal ''log'']" "world0 []"]
    by (simp add: logging_env0 resolve_log0 lg0_def printable_event_def JSON_MAX_DEPTH_def file_at_def world0_log)
qed

lemma audit_log_append_only_witness:
  "\<exists>s. file_at (snd (audit_log env0 lg0 SynqroInit JNull (world0 ''old''))) [''log''] = Some (''old'' @ s)"
  using audit_log_append_only [of env0 lg0 SynqroInit JNull "world0 ''old''", OF prod.collapse [symmetric]]
  by (simp add: lg0_def file_at_def world0_log) blast

lemma verify_log_sound_witness:
  "\<exists>w'. verify_log env0 lg0 [Normal ''log''] (world0 (log_text [text0 JNull])) = (Inr 1, w') \<and>
     nonblank (buf_lines (log_text [text0 JNull])) = 1"
proof -
  have a: "authentic_log env0 (al_hmac_key lg0) [text0 JNull] (log_text [text0 JNull])"
    using authentic0 clean_text0 by (simp add: authentic_log_def lg0_def)
  obtain n w' where v: "verify_log env0 lg0 [Normal ''log''] (world0 (log_text [text0 JNull])) = (Inr n, w')" "unat n = 1"
    using verify_log_run [OF no_faults_env0, of "world0 (log_text [text0 JNull])" "[Normal ''log'']", OF _ a]
    by (auto simp: resolve_log0 world0_log)
  then have "n = 1" by (metis unat_back of_nat_1)
  with verify_log_sound [OF v(1)] v show ?thesis by (auto simp: resolve_log0 world0_log file_at_def)
qed

lemma altered_line_detected_witness:
  "\<exists>w'. verify_log env0 lg0 [Normal ''log''] (world0 (log_text [text0 JNull, text0 (JBool True)])) =
     (Inl (Crypto (''HMAC mismatch on line 2 '' @ em_dash @ '' log may have been tampered with'')), w')"
proof -
  have sealed: "seal env0 ''key'' (line_body (line0 d)) = Inr (enc_str (''key.'' @ enc (line_body (line0 d))))" if "json_wf d" for d
    using seal_env0 [OF wf_body0 [OF that]] by simp
  have "line_body (line0 JNull) \<noteq> line_body (line0 (JBool True))"
    by (simp add: line_body_def line_payload_def line0_def json_obj_def bt_collect_def)
  then have "enc (line_body (line0 JNull)) \<noteq> enc (line_body (line0 (JBool True)))"
    using parse_enc by (metis Inr_inject)
  then have "mac_separates env0 ''key'' (line_body (line0 JNull)) (line_body (line0 (JBool True)))"
    by (simp add: mac_separates_def sealed enc_str_inj)
  moreover have "buf_lines (log_text [text0 JNull, text0 (JBool True)]) = [text0 JNull] @ text0 (JBool True) # []"
    using clean_text0 by (subst buf_lines_log_text) simp_all
  moreover have "\<not> line_authentic env0 ''key'' (text0 (JBool True))" if "mac_separates env0 ''key'' (line_body (line0 JNull)) (line_body (line0 (JBool True)))"
    by (rule altered_not_authentic [OF typed_text0 accepted0 _ that]) (simp_all add: line0_def)
  ultimately obtain w' where "verify_log env0 lg0 [Normal ''log''] (world0 (log_text [text0 JNull, text0 (JBool True)])) =
     (Inl (line_defect env0 (length [text0 JNull]) (text0 (JBool True))), w')"
    using altered_line_detected [of env0 "world0 (log_text [text0 JNull, text0 (JBool True)])" "[Normal ''log'']" _ _ "[text0 JNull]" "text0 (JBool True)" "[]" lg0]
      authentic0 clean_text0 typed_text0 [of "JBool True"]
    by (auto simp: resolve_log0 world0_log lg0_def json_prints_def)
  moreover have "show_nat (length [text0 JNull] + 1) = ''2''" unfolding list.size by code_simp
  ultimately show ?thesis using clean_text0 typed_text0 [of "JBool True"] unfolding line_defect_def by simp
qed

lemma verification_ignores_deletion_witness:
  "\<exists>w'. verify_log env0 lg0 [Normal ''log''] (world0 (log_text [])) = (Inr 0, w')"
  using verification_ignores_deletion [of env0 lg0 "[text0 JNull]" "[]" "world0 (log_text [])" "[Normal ''log'']" "0x180"]
    authentic0 clean_text0
  by (simp add: authentic_log_def lg0_def resolve_log0 world0_log)

definition log_cfg0 :: logging_config where
  "log_cfg0 = \<lparr>lc_level = ''info'', lc_structured = True, lc_audit_log_path = ''/log'', lc_audit_hmac_enabled = True\<rparr>"

lemma audit_key_from_installation_id_witness:
  "\<exists>lg w1. audit_new env0 log_cfg0 ''id'' (world0 []) = (Inr lg, w1) \<and> e_hkdf env0 ''synqro-audit-v1'' ''id'' ''hmac-key'' 32 = Inr (al_hmac_key lg)"
proof -
  have p: "parse_path ''/log'' = [RootDir, Normal ''log'']" by code_simp
  obtain lg w1 where n: "audit_new env0 log_cfg0 ''id'' (world0 []) = (Inr lg, w1)"
    by (simp add: audit_new_def log_cfg0_def p path_parent_def bindE_def map_err_def lift_res_def create_dir_all_def
          resolve_def is_dir_def open_append_def Let_def sys_nofault world0_log ret_def)
  with audit_key_from_installation_id [OF n n] show ?thesis by auto
qed

end
