(* ===== verification/Audit_Threads.thy ===== *)
theory Audit_Threads
  imports Audit_Log "HOL-Library.Sublist"
begin

text \<open>
  Concurrent use of the audit log: the body of \<open>AuditLogger::log\<close> (\<open>src/audit.rs\<close>) cut at every lock, write and
  unlock, run by any number of threads over any number of loggers (one per process, or several in one)
  that opened the same file. A logger's mutex excludes the threads of that logger. \<open>flock\<close> belongs to the open
  file, so it excludes loggers from each other; the source compiles it for Linux only, so on the other
  systems several loggers of one file are not excluded from each other.
\<close>

section \<open>Threads\<close>

text \<open>\<open>Writing b\<close>: the bytes \<open>b\<close> of the line are still to be written. \<open>Unlocked\<close>: the file lock was given back,
  the flush is to come. The mutex guard lives from \<open>Locked\<close> until the function returns.\<close>

datatype phase =
    Calling audit_event json
  | Signed bytes
  | Locked bytes
  | Writing bytes
  | Unlocked
  | Returned "synqro_error + unit"

record log_sys =
  sy_file :: bytes
  sy_mutex :: "nat \<Rightarrow> nat option"
  sy_flock :: "nat option"
  sy_thread :: "nat \<Rightarrow> phase"

definition goto :: "nat \<Rightarrow> phase \<Rightarrow> log_sys \<Rightarrow> log_sys" where
  "goto t p s = s\<lparr>sy_thread := (sy_thread s)(t := p)\<rparr>"

text \<open>Returning drops the guard.\<close>

definition leave :: "nat \<Rightarrow> nat \<Rightarrow> synqro_error + unit \<Rightarrow> log_sys \<Rightarrow> log_sys" where
  "leave i t r s = (goto t (Returned r) s)\<lparr>sy_mutex := (sy_mutex s)(i := None)\<rparr>"

text \<open>One step of the thread \<open>t\<close>; \<open>own t\<close> is the number of its logger, \<open>lg\<close> the loggers. A write may be partial; on an
  error the function returns at once, so \<open>write_error\<close> leaves the file lock as it is. The result of
  unlocking is ignored. Where \<open>e_os\<close> is not Linux there is no file lock to take or to give back.\<close>

inductive log_step :: "env \<Rightarrow> (nat \<Rightarrow> audit_logger) \<Rightarrow> (nat \<Rightarrow> nat) \<Rightarrow> nat \<Rightarrow> log_sys \<Rightarrow> log_sys \<Rightarrow> bool"
  for E lg own t where
  sign: "sy_thread s t = Calling ev d \<Longrightarrow> line_text E (lg (own t)) now ev d = Inr l \<Longrightarrow>
    log_step E lg own t s (goto t (Signed (l @ [CHR 0x0A])) s)"
| sign_error: "sy_thread s t = Calling ev d \<Longrightarrow> line_text E (lg (own t)) now ev d = Inl e \<Longrightarrow>
    log_step E lg own t s (goto t (Returned (Inl e)) s)"
| lock: "sy_thread s t = Signed b \<Longrightarrow> sy_mutex s (own t) = None \<Longrightarrow>
    log_step E lg own t s ((goto t (Locked b) s)\<lparr>sy_mutex := (sy_mutex s)(own t \<mapsto> t)\<rparr>)"
| poisoned: "sy_thread s t = Signed b \<Longrightarrow>
    log_step E lg own t s (goto t (Returned (Inl (Internal ''Audit log mutex poisoned''))) s)"
| flock: "e_os E = ''linux'' \<Longrightarrow> sy_thread s t = Locked b \<Longrightarrow> sy_flock s \<in> {None, Some (own t)} \<Longrightarrow>
    log_step E lg own t s ((goto t (Writing b) s)\<lparr>sy_flock := Some (own t)\<rparr>)"
| flock_error: "e_os E = ''linux'' \<Longrightarrow> sy_thread s t = Locked b \<Longrightarrow>
    log_step E lg own t s (leave (own t) t (Inl (Permission (''flock failed: '' @ m))) s)"
| no_flock: "e_os E \<noteq> ''linux'' \<Longrightarrow> sy_thread s t = Locked b \<Longrightarrow> log_step E lg own t s (goto t (Writing b) s)"
| wrote: "sy_thread s t = Writing (c @ b) \<Longrightarrow>
    log_step E lg own t s ((goto t (Writing b) s)\<lparr>sy_file := sy_file s @ c\<rparr>)"
| write_error: "sy_thread s t = Writing b \<Longrightarrow>
    log_step E lg own t s (leave (own t) t (Inl (Internal (''Audit log write failed: '' @ m))) s)"
| unlock: "e_os E = ''linux'' \<Longrightarrow> sy_thread s t = Writing [] \<Longrightarrow>
    log_step E lg own t s ((goto t Unlocked s)\<lparr>sy_flock := None\<rparr>)"
| unlock_error: "e_os E = ''linux'' \<Longrightarrow> sy_thread s t = Writing [] \<Longrightarrow> log_step E lg own t s (goto t Unlocked s)"
| no_unlock: "e_os E \<noteq> ''linux'' \<Longrightarrow> sy_thread s t = Writing [] \<Longrightarrow> log_step E lg own t s (goto t Unlocked s)"
| flush: "sy_thread s t = Unlocked \<Longrightarrow> log_step E lg own t s (leave (own t) t (Inr ()) s)"
| flush_error: "sy_thread s t = Unlocked \<Longrightarrow>
    log_step E lg own t s (leave (own t) t (Inl (Internal (''Audit log flush failed: '' @ m))) s)"

definition any_step :: "env \<Rightarrow> (nat \<Rightarrow> audit_logger) \<Rightarrow> (nat \<Rightarrow> nat) \<Rightarrow> nat set \<Rightarrow> log_sys \<Rightarrow> log_sys \<Rightarrow> bool" where
  "any_step E lg own T s s' \<longleftrightarrow> (\<exists>t \<in> T. log_step E lg own t s s')"

text \<open>Every thread is about to call \<open>log\<close>; nobody holds anything.\<close>

definition log_start :: "(nat \<Rightarrow> audit_event \<times> json) \<Rightarrow> bytes \<Rightarrow> log_sys" where
  "log_start call old = \<lparr>sy_file = old, sy_mutex = (\<lambda>_. None), sy_flock = None,
     sy_thread = (\<lambda>t. Calling (fst (call t)) (snd (call t)))\<rparr>"

section \<open>The invariant\<close>

text \<open>A line the call of thread \<open>t\<close> may produce.\<close>

definition line_of :: "env \<Rightarrow> (nat \<Rightarrow> audit_logger) \<Rightarrow> (nat \<Rightarrow> nat) \<Rightarrow> (nat \<Rightarrow> audit_event \<times> json) \<Rightarrow> nat \<Rightarrow> bytes \<Rightarrow> bool" where
  "line_of E lg own call t b \<longleftrightarrow>
     (\<exists>now l. line_text E (lg (own t)) now (fst (call t)) (snd (call t)) = Inr l \<and> b = l @ [CHR 0x0A])"

text \<open>Where a thread is, as far as the locks go.\<close>

fun in_guard :: "phase \<Rightarrow> bool" where
  "in_guard (Locked b) = True"
| "in_guard (Writing b) = True"
| "in_guard Unlocked = True"
| "in_guard _ = False"

fun is_writing :: "phase \<Rightarrow> bool" where
  "is_writing (Writing b) = True"
| "is_writing _ = False"

definition locks_agree :: "env \<Rightarrow> (nat \<Rightarrow> nat) \<Rightarrow> log_sys \<Rightarrow> bool" where
  "locks_agree E own s \<longleftrightarrow>
     (\<forall>t. in_guard (sy_thread s t) \<longrightarrow> sy_mutex s (own t) = Some t) \<and>
     (e_os E = ''linux'' \<longrightarrow> (\<forall>t. is_writing (sy_thread s t) \<longrightarrow> sy_flock s = Some (own t)))"

text \<open>When writers exclude each other: on Linux, or when all threads use one logger.\<close>

definition writers_excluded :: "env \<Rightarrow> (nat \<Rightarrow> nat) \<Rightarrow> nat set \<Rightarrow> bool" where
  "writers_excluded E own T \<longleftrightarrow> e_os E = ''linux'' \<or> (\<forall>t \<in> T. \<forall>u \<in> T. own t = own u)"

text \<open>The file is the old content followed by what each thread has written so far, in the order in which
  they got the locks (\<open>h\<close>); only the last of them can still be writing.\<close>

definition thread_ok :: "env \<Rightarrow> (nat \<Rightarrow> audit_logger) \<Rightarrow> (nat \<Rightarrow> nat) \<Rightarrow> (nat \<Rightarrow> audit_event \<times> json) \<Rightarrow>
    (nat \<times> bytes) list \<Rightarrow> nat \<Rightarrow> phase \<Rightarrow> bool" where
  "thread_ok E lg own call h t p = (case p of
       Calling ev d \<Rightarrow> call t = (ev, d) \<and> t \<notin> fst ` set h
     | Signed b \<Rightarrow> line_of E lg own call t b \<and> t \<notin> fst ` set h
     | Locked b \<Rightarrow> line_of E lg own call t b \<and> t \<notin> fst ` set h
     | Writing b \<Rightarrow> (\<exists>a. h \<noteq> [] \<and> last h = (t, a) \<and> line_of E lg own call t (a @ b))
     | Unlocked \<Rightarrow> (\<exists>a. (t, a) \<in> set h \<and> line_of E lg own call t a)
     | Returned (Inr _) \<Rightarrow> (\<exists>a. (t, a) \<in> set h \<and> line_of E lg own call t a)
     | Returned (Inl _) \<Rightarrow> (\<forall>a. (t, a) \<in> set h \<longrightarrow> (\<exists>b. line_of E lg own call t (a @ b))))"

definition log_inv :: "env \<Rightarrow> (nat \<Rightarrow> audit_logger) \<Rightarrow> (nat \<Rightarrow> nat) \<Rightarrow> (nat \<Rightarrow> audit_event \<times> json) \<Rightarrow> bytes \<Rightarrow>
    (nat \<times> bytes) list \<Rightarrow> log_sys \<Rightarrow> bool" where
  "log_inv E lg own call old h s \<longleftrightarrow> locks_agree E own s \<and> sy_file s = old @ concat (map snd h) \<and>
     distinct (map fst h) \<and> (\<forall>t. thread_ok E lg own call h t (sy_thread s t))"

lemma log_inv_start: "log_inv E lg own call old [] (log_start call old)"
  by (simp add: log_inv_def log_start_def locks_agree_def thread_ok_def)

lemma writing_guard: "is_writing p \<Longrightarrow> in_guard p"
  by (cases p) simp_all

lemma one_writer:
  "locks_agree E own s \<Longrightarrow> writers_excluded E own T \<Longrightarrow> t \<in> T \<Longrightarrow> t' \<in> T \<Longrightarrow>
   is_writing (sy_thread s t) \<Longrightarrow> is_writing (sy_thread s t') \<Longrightarrow> t = t'"
  unfolding locks_agree_def writers_excluded_def by (metis option.inject writing_guard)

lemma locks_agree_step:
  assumes "log_step E lg own t s s'" "locks_agree E own s"
  shows "locks_agree E own s'"
proof -
  from assms(2) have g: "\<And>u. in_guard (sy_thread s u) \<Longrightarrow> sy_mutex s (own u) = Some u"
    and f: "\<And>u. e_os E = ''linux'' \<Longrightarrow> is_writing (sy_thread s u) \<Longrightarrow> sy_flock s = Some (own u)" by (auto simp: locks_agree_def)
  have w: "u = t" if "e_os E = ''linux''" "is_writing (sy_thread s u)" "is_writing (sy_thread s t)" for u
    using one_writer [OF assms(2), of UNIV u t] that by (simp add: writers_excluded_def)
  from assms(1) g [of t] f [of t] w show ?thesis
    unfolding locks_agree_def
    by (cases rule: log_step.cases; intro conjI allI impI)
      (auto simp: goto_def leave_def split: if_splits dest: g f w writing_guard)
qed

lemma thread_ok_others:
  "u \<noteq> t \<Longrightarrow> \<not> is_writing p \<Longrightarrow> thread_ok E lg own call (h @ [(t, a)]) u p \<longleftrightarrow> thread_ok E lg own call h u p"
  by (auto simp: thread_ok_def split: phase.splits sum.splits)

lemma others_step: "log_step E lg own t s s' \<Longrightarrow> u \<noteq> t \<Longrightarrow> sy_thread s' u = sy_thread s u"
  by (cases rule: log_step.cases) (auto simp: goto_def leave_def)

text \<open>A step that does not enter or stay in the writing leaves file and history as they are.\<close>

lemma quiet_step:
  assumes "log_step E lg own t s s'" "\<not> is_writing (sy_thread s' t)"
    and ok: "thread_ok E lg own call h t (sy_thread s t)" and d: "distinct (map fst h)"
  shows "thread_ok E lg own call h t (sy_thread s' t) \<and> sy_file s' = sy_file s"
proof -
  have uniq: "a = b" if "(t, a) \<in> set h" "(t, b) \<in> set h" for a b
    using eq_key_imp_eq_value [OF d that] .
  have line: "(t, a) \<in> set h" if "h \<noteq> []" "last h = (t, a)" for a
    using last_in_set [OF that(1)] that(2) by simp
  have absent: "(t, a) \<notin> set h" if "t \<notin> fst ` set h" for a
    using that by (metis fst_conv image_eqI)
  from assms(1) show ?thesis
  proof (cases rule: log_step.cases)
    case (sign ev d now l)
    with ok show ?thesis by (auto simp: thread_ok_def goto_def line_of_def)
  next
    case (flush_error m)
    with ok obtain a where a: "(t, a) \<in> set h" "line_of E lg own call t a" by (auto simp: thread_ok_def)
    then have "\<exists>b. line_of E lg own call t (a' @ b)" if "(t, a') \<in> set h" for a'
      using uniq [OF a(1) that] a(2) by (metis append_Nil2)
    with flush_error show ?thesis by (simp add: thread_ok_def goto_def leave_def)
  qed (use ok assms(2) uniq line absent in \<open>auto simp: thread_ok_def goto_def leave_def\<close>)
qed

lemma log_inv_step:
  assumes "log_inv E lg own call old h s" and step: "log_step E lg own t s s'"
    and excl: "writers_excluded E own T" and t: "t \<in> T" and outside: "\<And>u. u \<notin> T \<Longrightarrow> \<not> is_writing (sy_thread s u)"
  shows "\<exists>h'. log_inv E lg own call old h' s'"
proof -
  from assms(1) have la: "locks_agree E own s'" and content: "sy_file s = old @ concat (map snd h)" and d: "distinct (map fst h)"
    and ok: "\<And>u. thread_ok E lg own call h u (sy_thread s u)"
    using locks_agree_step [OF step] by (auto simp: log_inv_def)
  note rest = others_step [OF step]
  have alone: "\<not> is_writing (sy_thread s u)" if "u \<noteq> t" "is_writing (sy_thread s' t)" for u
    using one_writer [OF la excl, of u t] outside [of u] rest [of u] that t by (cases "u \<in> T") auto
  show ?thesis
  proof (cases "is_writing (sy_thread s' t)")
    case False
    from quiet_step [OF step False ok d] have "thread_ok E lg own call h u (sy_thread s' u)" for u
      using rest [of u] ok [of u] by (cases "u = t") auto
    with quiet_step [OF step False ok d] la content d show ?thesis
      by (intro exI [of _ h]) (simp add: log_inv_def)
  next
    case True
    from step show ?thesis
    proof (cases rule: log_step.cases)
      case (flock b)
      let ?h = "h @ [(t, [])]"
      have me: "thread_ok E lg own call ?h t (sy_thread s' t)" "t \<notin> fst ` set h"
        using ok [of t] flock by (auto simp: thread_ok_def goto_def)
      have "thread_ok E lg own call ?h u (sy_thread s' u)" for u
        using me ok [of u] rest [of u] alone [of u] flock by (cases "u = t") (auto simp: thread_ok_others goto_def)
      with la content d me flock show ?thesis by (intro exI [of _ ?h]) (simp add: log_inv_def goto_def)
    next
      case (no_flock b)
      let ?h = "h @ [(t, [])]"
      have me: "thread_ok E lg own call ?h t (sy_thread s' t)" "t \<notin> fst ` set h"
        using ok [of t] no_flock by (auto simp: thread_ok_def goto_def)
      have "thread_ok E lg own call ?h u (sy_thread s' u)" for u
        using me ok [of u] rest [of u] alone [of u] no_flock by (cases "u = t") (auto simp: thread_ok_others goto_def)
      with la content d me no_flock show ?thesis by (intro exI [of _ ?h]) (simp add: log_inv_def goto_def)
    next
      case (wrote c b)
      from ok [of t] wrote obtain a where a: "h \<noteq> []" "last h = (t, a)" "line_of E lg own call t (a @ c @ b)"
        by (auto simp: thread_ok_def)
      then obtain g where g: "h = g @ [(t, a)]" by (metis append_butlast_last_id)
      let ?h = "g @ [(t, a @ c)]"
      have me: "thread_ok E lg own call ?h t (sy_thread s' t)"
        using a wrote by (auto simp: thread_ok_def goto_def)
      have "thread_ok E lg own call ?h u (sy_thread s' u)" for u
        using me ok [of u] rest [of u] alone [of u] wrote unfolding g
        by (cases "u = t") (auto simp: thread_ok_others goto_def)
      with la content d wrote show ?thesis by (intro exI [of _ ?h]) (simp add: log_inv_def goto_def g)
    qed (use True in \<open>simp_all add: goto_def leave_def\<close>)
  qed
qed

lemma not_started:
  assumes "(any_step E lg own T)\<^sup>*\<^sup>* (log_start call old) s" "t \<notin> T"
  shows "sy_thread s t = Calling (fst (call t)) (snd (call t))"
  using assms(1)
proof (induction rule: rtranclp_induct)
  case (step s s')
  with assms(2) show ?case unfolding any_step_def using others_step by metis
qed (simp add: log_start_def)

lemma log_inv_run:
  assumes "(any_step E lg own T)\<^sup>*\<^sup>* (log_start call old) s" "writers_excluded E own T"
  shows "\<exists>h. log_inv E lg own call old h s"
  using assms(1)
proof (induction rule: rtranclp_induct)
  case base
  show ?case using log_inv_start by blast
next
  case (step s s')
  from step(2) obtain t where t: "t \<in> T" "log_step E lg own t s s'" unfolding any_step_def by blast
  have "\<not> is_writing (sy_thread s u)" if "u \<notin> T" for u using not_started [OF step(1) that] by simp
  with step(3) log_inv_step [OF _ t(2) assms(2) t(1)] show ?case by blast
qed

lemma locks_agree_run:
  assumes "(any_step E lg own T)\<^sup>*\<^sup>* (log_start call old) s"
  shows "locks_agree E own s"
  using assms
proof (induction rule: rtranclp_induct)
  case base
  show ?case by (simp add: locks_agree_def log_start_def)
next
  case (step s s')
  then show ?case unfolding any_step_def using locks_agree_step by blast
qed

lemma log_inv_prefix:
  assumes "log_inv E lg own call old h s" "(t, b) \<in> set h"
  shows "\<exists>l. line_of E lg own call t l \<and> prefix b l \<and> (sy_thread s t = Returned (Inr ()) \<longrightarrow> b = l)"
proof -
  from assms(1) have d: "distinct (map fst h)" and ok: "thread_ok E lg own call h t (sy_thread s t)"
    by (auto simp: log_inv_def)
  have uniq: "a = b" if "(t, a) \<in> set h" for a using eq_key_imp_eq_value [OF d that assms(2)] .
  have here: "t \<in> fst ` set h" using assms(2) by (force simp: image_iff)
  show ?thesis
  proof (cases "sy_thread s t")
    case (Writing c)
    with ok obtain a where a: "h \<noteq> []" "last h = (t, a)" "line_of E lg own call t (a @ c)" by (auto simp: thread_ok_def)
    then have "(t, a) \<in> set h" using last_in_set [OF a(1)] by simp
    then have "a = b" by (rule uniq)
    with a Writing show ?thesis by (intro exI [of _ "a @ c"]) simp
  next
    case Unlocked
    with ok uniq show ?thesis by (auto simp: thread_ok_def)
  next
    case (Returned r)
    show ?thesis
    proof (cases r)
      case (Inl e)
      with ok Returned assms(2) show ?thesis by (auto simp: thread_ok_def prefix_def)
    next
      case (Inr u)
      with ok Returned obtain a where "(t, a) \<in> set h" "line_of E lg own call t a" by (auto simp: thread_ok_def)
      with uniq show ?thesis by blast
    qed
  qed (use ok here in \<open>simp_all add: thread_ok_def\<close>)
qed

section \<open>What concurrent callers get\<close>

text \<open>C15. However the threads interleave, and whatever fails, on Linux through any number of loggers and elsewhere
  through one, the log file is its old content followed by at most one contiguous piece per call, each a
  prefix of that call's line; a call that returned success has its whole line there; and no two threads are
  writing at the same time.\<close>

theorem concurrent_log_contiguous:
  assumes "(any_step E lg own T)\<^sup>*\<^sup>* (log_start call old) s" "writers_excluded E own T"
  shows "(\<exists>h. sy_file s = old @ concat (map snd h) \<and> distinct (map fst h) \<and>
      (\<forall>(t, b) \<in> set h. \<exists>l. line_of E lg own call t l \<and> prefix b l \<and> (sy_thread s t = Returned (Inr ()) \<longrightarrow> b = l)) \<and>
      (\<forall>t. sy_thread s t = Returned (Inr ()) \<longrightarrow> t \<in> fst ` set h)) \<and>
    (\<forall>t t'. is_writing (sy_thread s t) \<longrightarrow> is_writing (sy_thread s t') \<longrightarrow> t = t')"
proof -
  from log_inv_run [OF assms] obtain h where h: "log_inv E lg own call old h s" ..
  have "t \<in> fst ` set h" if "sy_thread s t = Returned (Inr ())" for t
  proof -
    from h have "thread_ok E lg own call h t (Returned (Inr ()))" unfolding log_inv_def by (metis that)
    then show ?thesis by (force simp: thread_ok_def image_iff)
  qed
  moreover have "t = t'" if "is_writing (sy_thread s t)" "is_writing (sy_thread s t')" for t t'
  proof -
    have "u \<in> T" if "is_writing (sy_thread s u)" for u using not_started [OF assms(1), of u] that by (cases "u \<in> T") auto
    with h that one_writer [OF _ assms(2), of s t t'] show ?thesis by (simp add: log_inv_def)
  qed
  moreover from h have "sy_file s = old @ concat (map snd h)" "distinct (map fst h)" by (simp_all add: log_inv_def)
  moreover have "\<forall>(t, b) \<in> set h. \<exists>l. line_of E lg own call t l \<and> prefix b l \<and> (sy_thread s t = Returned (Inr ()) \<longrightarrow> b = l)"
    using log_inv_prefix [OF h] by blast
  ultimately show ?thesis by blast
qed

text \<open>What a finished run of successful calls leaves: one authentic line per call.\<close>

lemma finished_lines:
  assumes run: "(any_step E lg own T)\<^sup>*\<^sup>* (log_start call old) s" and excl: "writers_excluded E own T"
    and env: "logging_env E" and calls: "\<forall>t \<in> T. printable_event (call t)"
    and loggers: "\<forall>t \<in> T. al_hmac_key (lg (own t)) = key \<and> valid_utf8 (al_installation_id (lg (own t)))"
    and fin: "\<forall>t \<in> T. sy_thread s t = Returned (Inr ())"
    and old: "authentic_log E key ls old"
  shows "\<exists>ks. authentic_log E key (ls @ ks) (sy_file s) \<and> length ks = card T"
proof -
  from log_inv_run [OF run excl] obtain h where h: "log_inv E lg own call old h s" ..
  then have content: "sy_file s = old @ concat (map snd h)" and d: "distinct (map fst h)"
    and ok: "\<And>t. thread_ok E lg own call h t (sy_thread s t)" by (simp_all add: log_inv_def)
  have "t \<in> T \<longleftrightarrow> t \<in> fst ` set h" for t
    using ok [of t] fin not_started [OF run, of t] by (cases "t \<in> T") (force simp: thread_ok_def image_iff)+
  then have T: "fst ` set h = T" by blast
  with d have card: "length h = card T" by (metis distinct_card length_map set_map)
  have line: "b = butlast b @ [CHR 0x0A] \<and> clean_line (butlast b) \<and> line_authentic E key (butlast b)"
    if "(t, b) \<in> set h" for t b
  proof -
    from that T have t: "t \<in> T" by force
    with log_inv_prefix [OF h that] fin obtain now l where
      l: "line_text E (lg (own t)) now (fst (call t)) (snd (call t)) = Inr l" "b = l @ [CHR 0x0A]"
      by (auto simp: line_of_def)
    from t calls loggers have "printable_event (fst (call t), snd (call t))" "valid_utf8 (al_installation_id (lg (own t)))"
      "al_hmac_key (lg (own t)) = key" by simp_all
    with line_text_authentic [OF env, of "lg (own t)" "fst (call t)" "snd (call t)" now] l show ?thesis by auto
  qed
  define ks where "ks = map (\<lambda>p. butlast (snd p)) h"
  have "concat (map snd h) = log_text ks"
    unfolding log_text_def ks_def map_map using line by (intro arg_cong [of _ _ concat] map_cong) auto
  with content old line show ?thesis
    by (intro exI [of _ ks]) (auto simp: authentic_log_def ks_def card)
qed

text \<open>C14. Concurrent logging loses nothing: when every one of the calls that ran, each with data whose line can be
  read back (\<open>printable_event\<close>), returned success, in whatever interleaving, on Linux through any number of
  loggers of the installation and elsewhere through one, verifying the file succeeds and counts the lines
  it had before and one more for each call.\<close>

theorem concurrent_log_verifies:
  assumes "(any_step E lg own T)\<^sup>*\<^sup>* (log_start call old) s" and "\<forall>t \<in> T. sy_thread s t = Returned (Inr ())"
    and "logging_env E" "\<forall>t \<in> T. printable_event (call t)"
    and "\<forall>t \<in> T. al_hmac_key (lg (own t)) = al_hmac_key lv \<and> valid_utf8 (al_installation_id (lg (own t)))"
    and "authentic_log E (al_hmac_key lv) ls old" "length ls + card T < 2 ^ 64"
    and "no_faults E" "w_fs w (resolve E p) = Some (File (sy_file s) m)" and "writers_excluded E own T"
  shows "\<exists>w'. verify_log E lv p w = (Inr (of_nat (length ls + card T)), w')"
proof -
  from finished_lines [OF assms(1,10,3,4,5,2,6)] obtain ks where
    "authentic_log E (al_hmac_key lv) (ls @ ks) (sy_file s)" "length ks = card T" by blast
  with verify_log_run [OF assms(8,9)] assms(7) show ?thesis by (metis length_append unat_back)
qed

text \<open>C16. On Linux, a write that fails leaves the file lock held: from then on, as long as no thread of the same
  logger logs again, no other logger (another process, say) gets to write a single byte.\<close>

theorem failed_write_keeps_lock:
  assumes "(any_step E lg own T)\<^sup>*\<^sup>* (log_start call old) s"
    and "log_step E lg own t s s1" "sy_thread s t = Writing b" "sy_thread s1 t = Returned r"
    and "(any_step E lg own {u. own u \<noteq> own t})\<^sup>*\<^sup>* s1 s2" and "e_os E = ''linux''"
  shows "sy_flock s2 = Some (own t) \<and> sy_file s2 = sy_file s \<and> (\<forall>u. \<not> is_writing (sy_thread s2 u))"
proof -
  note la = locks_agree_run [OF assms(1)]
  have s1: "sy_flock s1 = Some (own t) \<and> sy_file s1 = sy_file s \<and> sy_mutex s1 (own t) = None"
    using assms(2-4,6) la by (cases rule: log_step.cases) (auto simp: goto_def leave_def locks_agree_def)
  then have "\<not> is_writing (sy_thread s1 u)" for u
    using locks_agree_step [OF assms(2) la] writing_guard assms(6) by (fastforce simp: locks_agree_def)
  with assms(5) s1 show ?thesis
  proof (induction rule: rtranclp_induct)
    case (step s2 s3)
    then obtain u where u: "own u \<noteq> own t" "log_step E lg own u s2 s3" by (auto simp: any_step_def)
    from step have "sy_flock s2 = Some (own t)" "sy_file s2 = sy_file s" "\<not> is_writing (sy_thread s2 v)" for v by auto
    note ih = this this(3) [of u]
    from u(2) show ?case
      by (cases rule: log_step.cases) (use ih u(1) assms(6) in \<open>auto simp: goto_def leave_def\<close>)
  qed simp
qed

section \<open>One thread alone\<close>

lemma step_run:
  "log_step E lg own t s s' \<Longrightarrow> t \<in> T \<Longrightarrow> (any_step E lg own T)\<^sup>*\<^sup>* s0 s \<Longrightarrow> (any_step E lg own T)\<^sup>*\<^sup>* s0 s'"
  by (rule rtranclp.rtrancl_into_rtrancl) (auto simp: any_step_def)

lemma run_sign:
  assumes "(any_step E lg own T)\<^sup>*\<^sup>* s0 s" "t \<in> T" "sy_thread s t = Calling ev d"
    and "line_text E (lg (own t)) now ev d = Inr l"
  shows "(any_step E lg own T)\<^sup>*\<^sup>* s0 (goto t (Signed (l @ [CHR 0x0A])) s)"
  by (rule step_run [OF log_step.sign]) (use assms in auto)

lemma run_lock:
  assumes "(any_step E lg own T)\<^sup>*\<^sup>* s0 s" "t \<in> T" "sy_thread s t = Signed b" "sy_mutex s (own t) = None"
  shows "(any_step E lg own T)\<^sup>*\<^sup>* s0 ((goto t (Locked b) s)\<lparr>sy_mutex := (sy_mutex s)(own t \<mapsto> t)\<rparr>)"
  by (rule step_run [OF log_step.lock]) (use assms in auto)

text \<open>The file lock as a thread that writes leaves it.\<close>

definition taken :: "env \<Rightarrow> nat \<Rightarrow> nat option" where
  "taken E i = (if e_os E = ''linux'' then Some i else None)"

lemma run_enter:
  assumes "(any_step E lg own T)\<^sup>*\<^sup>* s0 s" "t \<in> T" "sy_thread s t = Signed b" "sy_mutex s (own t) = None" "sy_flock s = None"
  shows "(any_step E lg own T)\<^sup>*\<^sup>* s0 ((goto t (Writing b) s)\<lparr>sy_mutex := (sy_mutex s)(own t \<mapsto> t), sy_flock := taken E (own t)\<rparr>)"
proof (cases "e_os E = ''linux''")
  case True
  from step_run [where t = t, OF log_step.flock [OF True] _ run_lock [OF assms(1-4)]] assms(2,5) True show ?thesis
    by (cases s) (simp add: goto_def taken_def)
next
  case False
  from step_run [where t = t, OF log_step.no_flock [OF False] _ run_lock [OF assms(1-4)]] assms(2,5) False show ?thesis
    by (cases s) (simp add: goto_def taken_def)
qed

lemma run_write:
  assumes "(any_step E lg own T)\<^sup>*\<^sup>* s0 s" "t \<in> T" "sy_thread s t = Writing (c @ b)"
  shows "(any_step E lg own T)\<^sup>*\<^sup>* s0 ((goto t (Writing b) s)\<lparr>sy_file := sy_file s @ c\<rparr>)"
  by (rule step_run [OF log_step.wrote]) (use assms in auto)

lemma run_through:
  assumes "(any_step E lg own T)\<^sup>*\<^sup>* s0 s" "t \<in> T" "sy_thread s t = Signed b" "sy_mutex s (own t) = None" "sy_flock s = None"
  shows "(any_step E lg own T)\<^sup>*\<^sup>* s0
    ((goto t Unlocked s)\<lparr>sy_mutex := (sy_mutex s)(own t \<mapsto> t), sy_file := sy_file s @ b\<rparr>)"
proof (cases "e_os E = ''linux''")
  case True
  from step_run [where t = t, OF log_step.unlock [OF True] _ run_write [OF run_enter [OF assms] assms(2), where c = b and b = "[]"]] assms(2,5)
  show ?thesis by (cases s) (simp add: goto_def)
next
  case False
  from step_run [where t = t, OF log_step.no_unlock [OF False] _ run_write [OF run_enter [OF assms] assms(2), where c = b and b = "[]"]] assms(2,5)
  show ?thesis using False by (cases s) (simp add: goto_def taken_def)
qed

lemma run_call:
  assumes "(any_step E lg own T)\<^sup>*\<^sup>* s0 s" "t \<in> T" "sy_thread s t = Signed b" "sy_mutex s (own t) = None" "sy_flock s = None"
  shows "(any_step E lg own T)\<^sup>*\<^sup>* s0 ((goto t (Returned (Inr ())) s)\<lparr>sy_file := sy_file s @ b\<rparr>)"
  using step_run [where t = t, OF log_step.flush _ run_through [OF assms]] assms(2,4)
  by (cases s) (simp add: goto_def leave_def fun_upd_idem)

text \<open>Without the file lock, two loggers of one file can be writing at the same time: what keeps lines whole
  between processes is Linux's \<open>flock\<close> alone.\<close>

lemma two_writers_elsewhere:
  assumes "e_os E \<noteq> ''linux''" "t \<noteq> u" "own t \<noteq> own u"
    and "line_text E (lg (own t)) now (fst (call t)) (snd (call t)) = Inr a" "line_text E (lg (own u)) now (fst (call u)) (snd (call u)) = Inr b"
  shows "\<exists>s. (any_step E lg own {t, u})\<^sup>*\<^sup>* (log_start call old) s \<and> is_writing (sy_thread s t) \<and> is_writing (sy_thread s u)"
proof -
  let ?R = "(any_step E lg own {t, u})\<^sup>*\<^sup>* (log_start call old)"
  note none = taken_def [of E, simplified assms(1) if_False]
  define s1 where "s1 = goto t (Signed (a @ [CHR 0x0A])) (log_start call old)"
  have s0: "?R (log_start call old)" by simp
  have s1: "?R s1" unfolding s1_def by (rule run_sign [OF s0 _ _ assms(4)]) (simp_all add: log_start_def)
  define s2 where "s2 = (goto t (Writing (a @ [CHR 0x0A])) s1)\<lparr>sy_mutex := (sy_mutex s1)(own t \<mapsto> t), sy_flock := taken E (own t)\<rparr>"
  have s2: "?R s2" unfolding s2_def by (rule run_enter [OF s1]) (simp_all add: s1_def goto_def log_start_def)
  define s3 where "s3 = goto u (Signed (b @ [CHR 0x0A])) s2"
  have s3: "?R s3" unfolding s3_def
    by (rule run_sign [OF s2 _ _ assms(5)]) (use assms(2) in \<open>simp_all add: s2_def s1_def goto_def log_start_def\<close>)
  have "?R ((goto u (Writing (b @ [CHR 0x0A])) s3)\<lparr>sy_mutex := (sy_mutex s3)(own u \<mapsto> u), sy_flock := taken E (own u)\<rparr>)"
    by (rule run_enter [OF s3]) (use assms(1,3) in \<open>simp_all add: s3_def s2_def s1_def goto_def log_start_def taken_def\<close>)
  moreover have "sy_thread s3 t = Writing (a @ [CHR 0x0A])" using assms(2) by (simp add: s3_def s2_def goto_def)
  ultimately show ?thesis using assms(2) by (intro exI conjI) (auto simp: goto_def)
qed

section \<open>The sequential function is a run\<close>

text \<open>How writing a line can end, and what is in the file then.\<close>

lemma may_fail_cases:
  assumes "may_fail E op ns w = (r, w')"
  shows "w_fs w' = w_fs w \<and> (r = Inr () \<or> (\<exists>m. r = Inl m))"
  using assms by (auto simp: may_fail_def sys_def Let_def no_effect_def split: option.splits)

lemma write_line_cases:
  assumes "write_line E lg l w = (r, w')" "file_at w (al_file lg) = Some old"
  obtains (poisoned) "r = Inl (Internal ''Audit log mutex poisoned'')" "file_at w' (al_file lg) = Some old"
  | (flock) m where "e_os E = ''linux''" "r = Inl (Permission (''flock failed: '' @ m))" "file_at w' (al_file lg) = Some old"
  | (short) m n where "r = Inl (Internal (''Audit log write failed: '' @ m))"
      "file_at w' (al_file lg) = Some (old @ take n (l @ [CHR 0x0A]))"
  | (flush) m where "r = Inl (Internal (''Audit log flush failed: '' @ m))" "file_at w' (al_file lg) = Some (old @ l @ [CHR 0x0A])"
  | (ok) "r = Inr ()" "file_at w' (al_file lg) = Some (old @ l @ [CHR 0x0A])"
proof -
  let ?f = "al_file lg" and ?b = "l @ [CHR 0x0A]"
  obtain r1 w1 r2 w2 r3 w3 r4 w4 r5 w5 where
    c: "may_fail E OpLock ?f w = (r1, w1)"
      "on_linux E (map_err (\<lambda>e. Permission (''flock failed: '' @ e)) (may_fail E OpFlock ?f)) w1 = (r2, w2)" "append_all E ?f ?b w2 = (r3, w3)"
      "on_linux E (ignore (may_fail E OpFlock ?f)) w3 = (r4 :: synqro_error + unit, w4)" "may_fail E OpFlush ?f w4 = (r5, w5)" by (metis surj_pair)
  note k = may_fail_cases [OF c(1)] flock_cases [OF c(2)] unflock_cases [OF c(4)] may_fail_cases [OF c(5)]
  have old2: "file_at w2 ?f = Some old" using assms(2) k by (simp add: file_at_def)
  obtain n where n: "file_at w3 ?f = Some (old @ take n ?b)" "\<forall>x. r3 = Inr x \<longrightarrow> take n ?b = ?b"
    using append_all_outcome [OF c(3) old2] by blast
  have late: "file_at w5 ?f = file_at w3 ?f" using k by (simp add: file_at_def)
  have early: "file_at w1 ?f = Some old" using assms(2) k by (simp add: file_at_def)
  note run = assms(1) [unfolded write_line_def bindE_def]
  show thesis
  proof (cases r1)
    case (Inl m)
    with run c(1) early show ?thesis by (intro poisoned) (simp_all add: map_err_def)
  next
    case r1: (Inr u)
    show ?thesis
    proof (cases r2)
      case (Inl e)
      with k(2) obtain m where m: "e_os E = ''linux''" "e = Permission (''flock failed: '' @ m)" by auto
      from run c(1,2) r1 Inl have "r = Inl e" "w' = w2" by (auto simp: map_err_def)
      with m old2 show ?thesis by (intro flock [of m]) simp_all
    next
      case r2: (Inr u)
      show ?thesis
      proof (cases r3)
        case (Inl m)
        with run c(1-3) r1 r2 n show ?thesis by (intro short [of m n]) (simp_all add: map_err_def)
      next
        case r3: (Inr u)
        with run c k(3) r1 r2 n late show ?thesis by (cases r5) (auto simp: map_err_def intro: flush ok)
      qed
    qed
  qed
qed

text \<open>C17. The function \<open>audit_log\<close> of the sequential model is this machine with one thread: each of its outcomes,
  the failures included, is a run that returns the same result and leaves the same file.\<close>

theorem audit_log_is_a_run:
  assumes "audit_log E (lg (own t)) ev d w = (r, w')" "file_at w (al_file (lg (own t))) = Some old" "call t = (ev, d)"
  shows "\<exists>s. (any_step E lg own {t})\<^sup>*\<^sup>* (log_start call old) s \<and> sy_thread s t = Returned r \<and>
    file_at w' (al_file (lg (own t))) = Some (sy_file s)"
proof -
  let ?R = "(any_step E lg own {t})\<^sup>*\<^sup>*" and ?s0 = "log_start call old" and ?f = "al_file (lg (own t))"
  let ?now = "e_clock E (w_tick w)" and ?w = "w\<lparr>w_tick := Suc (w_tick w)\<rparr>"
  have call: "sy_thread ?s0 t = Calling ev d" using assms(3) by (simp add: log_start_def)
  have final: ?thesis if "log_step E lg own t s s'" "?R ?s0 s" "sy_thread s' t = Returned r" "file_at w' ?f = Some (sy_file s')" for s s'
    using step_run [OF that(1) _ that(2)] that(3,4) by auto
  show ?thesis
  proof (cases "line_text E (lg (own t)) ?now ev d")
    case (Inl e)
    with assms(1,2) have "r = Inl e" "file_at w' ?f = Some old"
      by (auto simp: audit_log_eq bindE_def utc_now_def lift_res_def file_at_def)
    moreover have "log_step E lg own t ?s0 (goto t (Returned (Inl e)) ?s0)"
      by (rule log_step.sign_error [where ev = ev and d = d and now = ?now]) (use call Inl in simp_all)
    note final [OF this rtranclp.rtrancl_refl]
    ultimately show ?thesis by (simp add: goto_def log_start_def)
  next
    case (Inr l)
    let ?b = "l @ [CHR 0x0A]"
    from assms(1) Inr have wr: "write_line E (lg (own t)) l ?w = (r, w')"
      by (simp add: audit_log_eq bindE_def utc_now_def lift_res_def)
    have start: "file_at ?w ?f = Some old" using assms(2) by (simp add: file_at_def)
    define s1 where "s1 = goto t (Signed ?b) ?s0"
    have s1: "?R ?s0 s1" unfolding s1_def
      by (rule run_sign [where ev = ev and d = d and now = ?now]) (use call Inr in simp_all)
    have f1: "sy_thread s1 t = Signed ?b" "sy_mutex s1 (own t) = None" "sy_flock s1 = None" "sy_file s1 = old"
      by (simp_all add: s1_def goto_def log_start_def)
    from wr start show ?thesis
    proof (cases rule: write_line_cases)
      case poisoned
      with final [OF log_step.poisoned [OF f1(1)] s1] show ?thesis by (simp add: goto_def f1)
    next
      case (flock m)
      with final [OF log_step.flock_error [OF flock(1), where m = m and t = t] run_lock [OF s1 _ f1(1,2)]] show ?thesis
        by (simp add: goto_def leave_def f1)
    next
      case (short m n)
      obtain c e where ce: "?b = c @ e" "take n ?b = c" by (metis append_take_drop_id)
      have f: "sy_thread s1 t = Signed (c @ e)" using f1(1) by (simp only: ce(1))
      have "?R ?s0 ((goto t (Writing e) s1)\<lparr>sy_mutex := (sy_mutex s1)(own t \<mapsto> t), sy_flock := taken E (own t), sy_file := old @ c\<rparr>)"
        using run_write [OF run_enter [OF s1 _ f f1(2,3)], where c = c and b = e and t = t]
        by (cases s1) (simp add: goto_def flip: f1(4))
      from final [OF log_step.write_error [where m = m and t = t and b = e] this] short ce(2) show ?thesis
        by (simp add: goto_def leave_def)
    next
      case (flush m)
      with final [OF log_step.flush_error [where m = m and t = t] run_through [OF s1 _ f1(1-3)]] show ?thesis
        by (simp add: goto_def leave_def f1)
    next
      case ok
      with run_call [OF s1 _ f1(1-3)] show ?thesis
        by (intro exI [of _ "(goto t (Returned (Inr ())) s1)\<lparr>sy_file := sy_file s1 @ ?b\<rparr>"]) (simp add: goto_def f1)
    qed
  qed
qed

section \<open>Witnesses\<close>

text \<open>Two threads of two processes log to one file; the second overtakes the first.\<close>

definition call0 :: "nat \<Rightarrow> audit_event \<times> json" where
  "call0 t = (if t = 0 then (SynqroInit, JNull) else (UpdateApplied, JBool True))"

abbreviation run0 :: "log_sys \<Rightarrow> log_sys \<Rightarrow> bool" where
  "run0 \<equiv> (any_step env0 (\<lambda>_. lg0) (\<lambda>t. t) {0, 1})\<^sup>*\<^sup>*"

lemma excluded0: "writers_excluded env0 own T"
  by (simp add: writers_excluded_def)

lemma call0_printable: "printable_event (call0 t)"
  by (simp add: call0_def printable_event_def JSON_MAX_DEPTH_def)

lemma signed0:
  obtains s a b where "run0 (log_start call0 []) s" "sy_thread s 0 = Signed a" "sy_thread s 1 = Signed b"
    "sy_mutex s = (\<lambda>_. None)" "sy_flock s = None"
proof -
  have iid: "valid_utf8 (al_installation_id lg0)" unfolding lg0_def by simp code_simp
  obtain l0 where l0: "line_text env0 lg0 0 SynqroInit JNull = Inr l0"
    using line_text_authentic [OF logging_env0 iid, of SynqroInit JNull 0] call0_printable [of 0] by (auto simp: call0_def)
  obtain l1 where l1: "line_text env0 lg0 0 UpdateApplied (JBool True) = Inr l1"
    using line_text_authentic [OF logging_env0 iid, of UpdateApplied "JBool True" 0] call0_printable [of 1] by (auto simp: call0_def)
  have r: "run0 (log_start call0 []) (goto 0 (Signed (l0 @ [CHR 0x0A])) (log_start call0 []))"
    by (rule run_sign [where ev = SynqroInit and d = JNull and now = 0]) (use l0 in \<open>simp_all add: log_start_def call0_def\<close>)
  have "run0 (log_start call0 []) (goto 1 (Signed (l1 @ [CHR 0x0A])) (goto 0 (Signed (l0 @ [CHR 0x0A])) (log_start call0 [])))"
    by (rule run_sign [OF r, where ev = UpdateApplied and d = "JBool True" and now = 0])
      (use l1 in \<open>simp_all add: log_start_def call0_def goto_def\<close>)
  then show thesis by (rule that) (simp_all add: goto_def log_start_def)
qed

lemma overtaken0:
  obtains s where "run0 (log_start call0 []) s" "\<forall>t \<in> {0, 1}. sy_thread s t = Returned (Inr ())"
proof -
  obtain s a b where s: "run0 (log_start call0 []) s" "sy_thread s 0 = Signed a" "sy_thread s 1 = Signed b"
    "sy_mutex s = (\<lambda>_. None)" "sy_flock s = None" by (rule signed0)
  define s1 where "s1 = (goto 1 (Returned (Inr ())) s)\<lparr>sy_file := sy_file s @ b\<rparr>"
  have "run0 (log_start call0 []) s1" unfolding s1_def by (rule run_call [OF s(1) _ s(3)]) (simp_all add: s)
  then have "run0 (log_start call0 []) ((goto 0 (Returned (Inr ())) s1)\<lparr>sy_file := sy_file s1 @ a\<rparr>)"
    by (rule run_call) (simp_all add: s1_def goto_def s)
  then show thesis by (rule that) (simp add: s1_def goto_def)
qed

lemma concurrent_log_contiguous_witness:
  "\<exists>s h. run0 (log_start call0 []) s \<and> sy_file s = concat (map snd h) \<and> {0 :: nat, 1} \<subseteq> fst ` set h"
proof -
  obtain s where s: "run0 (log_start call0 []) s" "\<forall>t \<in> {0, 1}. sy_thread s t = Returned (Inr ())" by (rule overtaken0)
  from concurrent_log_contiguous [OF s(1) excluded0] obtain h where
    h: "sy_file s = concat (map snd h)" "\<And>t. sy_thread s t = Returned (Inr ()) \<Longrightarrow> t \<in> fst ` set h" by auto
  have "{0 :: nat, 1} \<subseteq> fst ` set h" by (intro insert_subsetI empty_subsetI h(2)) (use s(2) in blast)+
  with s(1) h(1) show ?thesis by blast
qed

lemma concurrent_log_verifies_witness:
  "\<exists>s w'. run0 (log_start call0 []) s \<and> verify_log env0 lg0 [Normal ''log''] (world0 (sy_file s)) = (Inr 2, w')"
proof -
  have "valid_utf8 (al_installation_id lg0)" unfolding lg0_def by simp code_simp
  moreover obtain s where s: "run0 (log_start call0 []) s" "\<forall>t \<in> {0, 1}. sy_thread s t = Returned (Inr ())" by (rule overtaken0)
  ultimately show ?thesis
    using concurrent_log_verifies [OF s logging_env0, of lg0 "[]" "world0 (sy_file s)" "[Normal ''log'']"] call0_printable excluded0
    by (auto simp: authentic_log_def resolve_log0 world0_log)
qed

lemma failed_write_keeps_lock_witness:
  "\<exists>s1 s2. (any_step env0 (\<lambda>_. lg0) (\<lambda>t. t) {u. u \<noteq> 0})\<^sup>*\<^sup>* s1 s2 \<and> sy_thread s2 1 \<noteq> sy_thread s1 1 \<and> sy_flock s2 = Some 0"
proof -
  let ?E = "log_step env0 (\<lambda>_. lg0) (\<lambda>t. t)"
  obtain s a b where s: "run0 (log_start call0 []) s" "sy_thread s 0 = Signed a" "sy_thread s 1 = Signed b"
    "sy_mutex s = (\<lambda>_. None)" "sy_flock s = None" by (rule signed0)
  define s0 where "s0 = (goto 0 (Writing a) s)\<lparr>sy_mutex := (sy_mutex s)(0 \<mapsto> 0), sy_flock := Some 0\<rparr>"
  define s1 where "s1 = leave 0 0 (Inl (Internal (''Audit log write failed: '' @ []))) s0"
  have r0: "run0 (log_start call0 []) s0" using run_enter [OF s(1) _ s(2)] s by (simp add: s0_def taken_def)
  have w: "?E 0 s0 s1" unfolding s1_def by (rule log_step.write_error [of _ _ a]) (simp add: s0_def goto_def)
  have "sy_thread s1 1 = Signed b" "sy_mutex s1 1 = None" using s by (simp_all add: s1_def s0_def goto_def leave_def)
  then have r2: "(any_step env0 (\<lambda>_. lg0) (\<lambda>t. t) {u. u \<noteq> 0})\<^sup>*\<^sup>* s1 ((goto 1 (Locked b) s1)\<lparr>sy_mutex := (sy_mutex s1)(1 \<mapsto> 1)\<rparr>)"
    by (intro run_lock [where own = "\<lambda>t. t"]) simp_all
  have "sy_flock ((goto 1 (Locked b) s1)\<lparr>sy_mutex := (sy_mutex s1)(1 \<mapsto> 1)\<rparr>) = Some 0"
    using failed_write_keeps_lock [OF r0 w _ _ r2] by (simp add: s1_def s0_def goto_def leave_def)
  with r2 \<open>sy_thread s1 1 = Signed b\<close> show ?thesis
    by (intro exI [of _ s1] exI [of _ "(goto 1 (Locked b) s1)\<lparr>sy_mutex := (sy_mutex s1)(1 \<mapsto> 1)\<rparr>"]) (simp add: goto_def)
qed

lemma audit_log_is_a_run_witness:
  "\<exists>s. (any_step env0 (\<lambda>_. lg0) (\<lambda>t. t) {0})\<^sup>*\<^sup>* (log_start call0 ''old'') s \<and>
     file_at (snd (audit_log env0 lg0 SynqroInit JNull (world0 ''old''))) [''log''] = Some (sy_file s)"
  using audit_log_is_a_run [of env0 "\<lambda>_. lg0" "\<lambda>t. t" 0 SynqroInit JNull "world0 ''old''" _ _ "''old''" call0, OF prod.collapse [symmetric]]
  by (auto simp: lg0_def file_at_def world0_log call0_def)

end
