(* ===== verification/Blacklist.thy ===== *)
theory Blacklist
  imports Audit_Log
begin

text \<open>
  The signed version blacklist and the rollback counters of \<open>src/rollback.rs\<close>, and the atomic writing of
  JSON files they share.
\<close>

section \<open>write_json_atomic\<close>

text \<open>\<open>timestamp_nanos_opt().unwrap_or(0)\<close>: the clock counts nanoseconds.\<close>

definition timestamp_nanos :: "int \<Rightarrow> int" where
  "timestamp_nanos t = (if - (2 ^ 63) \<le> t \<and> t < 2 ^ 63 then t else 0)"

definition parent_or_dot :: "path \<Rightarrow> path" where
  "parent_or_dot p = (case path_parent p of Some d \<Rightarrow> d | None \<Rightarrow> [CurDir])"

definition json_temp_name :: "int \<Rightarrow> string" where
  "json_temp_name n = ''.synqro_tmp_'' @ show_int n @ ''.json''"

definition write_json_atomic :: "env \<Rightarrow> path \<Rightarrow> json \<Rightarrow> ('z, unit) eio" where
  "write_json_atomic E path value =
     (let parent = parent_or_dot path in
      bindE (utc_now E) (\<lambda>now.
      let temp_path = path_join parent [Normal (json_temp_name (timestamp_nanos now))] in
      bindE (lift_res (map_inl (\<lambda>e. Internal (''JSON serialise failed: '' @ e)) (e_json_pretty E value))) (\<lambda>json_bytes.
      bindE (map_err (\<lambda>e. Permission (''Cannot create temp file: '' @ e)) (file_create E temp_path)) (\<lambda>_.
      bindE (map_err (\<lambda>e. Internal (''Temp file write failed: '' @ e)) (write_all E temp_path json_bytes)) (\<lambda>_.
      bindE (map_err (\<lambda>e. Internal (''Temp file flush failed: '' @ e)) (file_flush E temp_path)) (\<lambda>_.
      bindE (map_err (\<lambda>e. Internal (''Temp file fsync failed: '' @ e)) (sync_all E temp_path)) (\<lambda>_.
      publish E temp_path path (\<lambda>e. Permission (''Atomic rename failed: '' @ e)))))))))"

section \<open>The blacklist\<close>

record blacklist =
  bl_blacklisted :: "string list"
  bl_list_hmac :: string

definition BLACKLIST_FIELDS :: "string list" where
  "BLACKLIST_FIELDS = [''blacklisted'', ''list_hmac'']"

definition blacklist_json :: "blacklist \<Rightarrow> json" where
  "blacklist_json bl = JObject [(''blacklisted'', JArray (map JString (bl_blacklisted bl))), (''list_hmac'', JString (bl_list_hmac bl))]"

definition decode_blacklist :: "json \<Rightarrow> blacklist option" where
  "decode_blacklist v = Option.bind (as_struct BLACKLIST_FIELDS v) (\<lambda>m.
     case (fld_list m ''blacklisted'' as_str, fld_string m ''list_hmac'') of
       (Some vs, Some h) \<Rightarrow> Some \<lparr>bl_blacklisted = vs, bl_list_hmac = h\<rparr>
     | _ \<Rightarrow> None)"

definition default_blacklist :: blacklist where
  "default_blacklist = \<lparr>bl_blacklisted = [], bl_list_hmac = []\<rparr>"

definition blacklist_payload :: "string list \<Rightarrow> json" where
  "blacklist_payload vs = json_obj [(''blacklisted'', JArray (map JString vs))]"

definition check_blacklist :: "env \<Rightarrow> bytes \<Rightarrow> blacklist \<Rightarrow> synqro_error + blacklist" where
  "check_blacklist E hmac_key bl =
     (let sorted = sort (bl_blacklisted bl) in
      bind_res (canonical_json E (blacklist_payload sorted)) (\<lambda>canonical.
      bind_res (compute_hmac E hmac_key canonical) (\<lambda>expected.
      if \<not> constant_time_eq expected (bl_list_hmac bl) then
        Inl (Crypto (''Blacklist HMAC invalid '' @ em_dash @ '' file may have been tampered with''))
      else Inr bl)))"

definition load_blacklist_raw :: "env \<Rightarrow> path \<Rightarrow> bytes \<Rightarrow> ('z, blacklist) eio" where
  "load_blacklist_raw E path hmac_key =
     bindE (map_err (\<lambda>e. Permission (''Cannot read blacklist: '' @ e)) (fs_read E path)) (\<lambda>bytes.
     bindE (lift_res (map_inl (\<lambda>e. InvalidInput (''Blacklist is not valid JSON: '' @ e))
              (json_typed E ''Blacklist'' decode_blacklist bytes))) (\<lambda>bl.
     lift_res (check_blacklist E hmac_key bl)))"

definition is_blacklisted :: "env \<Rightarrow> string \<Rightarrow> path \<Rightarrow> bytes \<Rightarrow> ('z, bool) eio" where
  "is_blacklisted E version blacklist_path hmac_key =
     bindE (attempt (load_blacklist_raw E blacklist_path hmac_key)) (\<lambda>r. case r of
       Inr bl \<Rightarrow> ret (version \<in> set (bl_blacklisted bl))
     | Inl (Permission _) \<Rightarrow> ret False
     | Inl e \<Rightarrow> fail e)"

definition add_version :: "string \<Rightarrow> string list \<Rightarrow> string list" where
  "add_version version vs = (if version \<notin> set vs then sort (vs @ [version]) else vs)"

definition blacklist_version :: "env \<Rightarrow> string \<Rightarrow> path \<Rightarrow> bytes \<Rightarrow> audit_logger \<Rightarrow> ('z, unit) eio" where
  "blacklist_version E version blacklist_path hmac_key audit =
     bindE (attempt (load_blacklist_raw E blacklist_path hmac_key)) (\<lambda>r.
     let bl = (case r of Inr bl \<Rightarrow> bl | Inl _ \<Rightarrow> default_blacklist);
         vs = add_version version (bl_blacklisted bl) in
     bindE (lift_res (canonical_json E (blacklist_payload vs))) (\<lambda>canonical.
     bindE (lift_res (compute_hmac E hmac_key canonical)) (\<lambda>list_hmac.
     bindE (write_json_atomic E blacklist_path (blacklist_json \<lparr>bl_blacklisted = vs, bl_list_hmac = list_hmac\<rparr>)) (\<lambda>_.
     audit_log E audit VersionBlacklisted (json_obj [(''version'', JString version)])))))"

section \<open>The rollback counters\<close>

text \<open>\<open>from_slice::<Map>\<close>: any object; of a key that occurs twice the last value stays.\<close>

definition json_map :: "env \<Rightarrow> bytes \<Rightarrow> string + (string \<times> json) list" where
  "json_map E s = (case e_json_parse E s of
     Inl e \<Rightarrow> Inl e | Inr v \<Rightarrow> (case v of JObject m \<Rightarrow> Inr m | _ \<Rightarrow> Inl (e_json_shape_err E ''Map'' s)))"

text \<open>\<open>as u32\<close> keeps the low 32 bits.\<close>

definition counter_of :: "(string \<times> json) list \<Rightarrow> string \<Rightarrow> u32" where
  "counter_of counters version =
     ucast (case Option.bind (map_of counters version) as_u64 of Some n \<Rightarrow> n | None \<Rightarrow> (0 :: u64))"

definition increment_rollback_counter :: "env \<Rightarrow> string \<Rightarrow> path \<Rightarrow> ('z, u32) eio" where
  "increment_rollback_counter E version path =
     (\<lambda>w. bindE (if path_exists E path w then
              bindE (map_err (\<lambda>e. Internal (''Cannot read rollback counters: '' @ e)) (fs_read E path)) (\<lambda>bytes.
              lift_res (map_inl (\<lambda>e. Internal (''Rollback counters JSON parse error: '' @ e))
                (json_map E bytes)))
            else ret []) (\<lambda>counters.
          let next = sat_add (counter_of counters version) 1;
              counters = bt_insert version (jnat (ucast next)) counters in
          bindE (write_json_atomic E path (JObject counters)) (\<lambda>_. ret next)) w)"

section \<open>Writing is atomic\<close>

definition json_temps :: "env \<Rightarrow> path \<Rightarrow> names set" where
  "json_temps E path = range (\<lambda>n. resolve E (parent_or_dot path) @ [json_temp_name n])"

lemma resolve_json_temp: "resolve E (path_join (parent_or_dot path) [Normal (json_temp_name n)]) = resolve E (parent_or_dot path) @ [json_temp_name n]"
  by (simp add: path_join_normal resolve_def resolve_from_append)

definition write_temp :: "env \<Rightarrow> path \<Rightarrow> bytes \<Rightarrow> ('z, unit) eio" where
  "write_temp E temp_path json_bytes =
     bindE (map_err (\<lambda>e. Permission (''Cannot create temp file: '' @ e)) (file_create E temp_path)) (\<lambda>_.
     bindE (map_err (\<lambda>e. Internal (''Temp file write failed: '' @ e)) (write_all E temp_path json_bytes)) (\<lambda>_.
     bindE (map_err (\<lambda>e. Internal (''Temp file flush failed: '' @ e)) (file_flush E temp_path)) (\<lambda>_.
     map_err (\<lambda>e. Internal (''Temp file fsync failed: '' @ e)) (sync_all E temp_path))))"

lemma write_json_atomic_eq:
  assumes "e_json_pretty E value = Inr b"
  shows "write_json_atomic E path value =
     bindE (utc_now E) (\<lambda>now. let temp = path_join (parent_or_dot path) [Normal (json_temp_name (timestamp_nanos now))] in
       bindE (write_temp E temp b) (\<lambda>_. publish E temp path (\<lambda>e. Permission (''Atomic rename failed: '' @ e))))"
  unfolding write_json_atomic_def write_temp_def
  by (simp add: assms bindE_assoc Let_def) (simp add: bindE_def lift_res_def)

lemma file_flush_fs: "file_flush E p w = (r, w') \<Longrightarrow> w_fs w' = w_fs w"
  by (auto simp: file_flush_def sys_def Let_def no_effect_def split: option.splits)

lemma sync_all_fs: "sync_all E p w = (r, w') \<Longrightarrow> w_fs w' = w_fs w"
  by (auto simp: sync_all_def sys_def Let_def no_effect_def split: option.splits)

lemma write_temp_Inr:
  assumes "write_temp E temp b w = (Inr x, w')"
  shows "file_at w' (resolve E temp) = Some b"
proof -
  from assms obtain u1 w1 u2 w2 u3 w3 where c: "file_create E temp w = (Inr u1, w1)"
    and wr: "write_all E temp b w1 = (Inr u2, w2)" and f: "file_flush E temp w2 = (Inr u3, w3)"
    and s: "sync_all E temp w3 = (Inr x, w')"
    by (auto simp: write_temp_def run_iff)
  obtain m where "w_fs w1 (resolve E temp) = Some (File [] m)" using file_create_Inr [OF c] by blast
  from write_all_Inr [OF wr this] file_flush_fs [OF f] sync_all_fs [OF s] show ?thesis by (simp add: file_at_def)
qed

lemma steps_write_temp [steps_intro]: "resolve E temp \<in> S \<Longrightarrow> steps (fs_only S) (write_temp E temp b)"
  unfolding write_temp_def by (auto intro!: steps_intro)

lemma steps_write_json_atomic [steps_intro]:
  "resolve E path \<in> S \<Longrightarrow> json_temps E path \<subseteq> S \<Longrightarrow> steps (fs_only S) (write_json_atomic E path value)"
proof -
  assume S: "resolve E path \<in> S" "json_temps E path \<subseteq> S"
  then have "resolve E (path_join (parent_or_dot path) [Normal (json_temp_name n)]) \<in> S" for n
    unfolding resolve_json_temp json_temps_def by blast
  then show ?thesis
    unfolding write_json_atomic_def Let_def by (intro steps_intro preorder_fs_only S) auto
qed

text \<open>The request to write one JSON file, as an item of the contract.\<close>

record json_write =
  jw_env :: env
  jw_path :: path
  jw_value :: json
  jw_text :: bytes

definition jw_ok :: "json_write \<Rightarrow> bool" where
  "jw_ok i \<longleftrightarrow> e_json_pretty (jw_env i) (jw_value i) = Inr (jw_text i) \<and>
     resolve (jw_env i) (jw_path i) \<notin> json_temps (jw_env i) (jw_path i)"

lemma write_json_atomic_outcome:
  assumes "e_json_pretty E value = Inr b" "resolve E path \<notin> json_temps E path"
    and "write_json_atomic E path value w = (r, w')"
  shows "file_at w' (resolve E path) \<in> {file_at w (resolve E path), Some b}"
    and "r = Inr x \<Longrightarrow> file_at w' (resolve E path) = Some b"
proof -
  let ?temp = "path_join (parent_or_dot path) [Normal (json_temp_name (timestamp_nanos (e_clock E (w_tick w))))]"
  let ?w = "w\<lparr>w_tick := Suc (w_tick w)\<rparr>"
  have run: "bindE (write_temp E ?temp b) (\<lambda>_. publish E ?temp path (\<lambda>e. Permission (''Atomic rename failed: '' @ e))) ?w = (r, w')"
    using assms(3) unfolding write_json_atomic_eq [OF assms(1)] by (simp add: bindE_def utc_now_def Let_def)
  have ne: "resolve E ?temp \<noteq> resolve E path"
    using assms(2) unfolding resolve_json_temp json_temps_def by (metis (no_types, lifting) rangeI)
  have frame: "steps (fs_only {resolve E ?temp}) (write_temp E ?temp b)" by (rule steps_write_temp) simp
  have fin: "\<And>x w1. write_temp E ?temp b ?w = (Inr x, w1) \<Longrightarrow> file_at w1 (resolve E ?temp) = Some b"
    by (rule write_temp_Inr)
  note out = prepare_publish [OF run frame fin ne]
  from out(1) show "file_at w' (resolve E path) \<in> {file_at w (resolve E path), Some b}" by (simp add: file_at_def)
  from out(2) show "r = Inr x \<Longrightarrow> file_at w' (resolve E path) = Some b" .
qed

interpretation json_file: atomic_replace
  "\<lambda>i. write_json_atomic (jw_env i) (jw_path i) (jw_value i)" jw_ok
  "\<lambda>i. resolve (jw_env i) (jw_path i)" jw_text "\<lambda>i. json_temps (jw_env i) (jw_path i)"
proof unfold_locales
  fix i w and r :: "synqro_error + unit" and w' x
  show "jw_ok i \<Longrightarrow> steps (fs_only (insert (resolve (jw_env i) (jw_path i)) (json_temps (jw_env i) (jw_path i))))
          (write_json_atomic (jw_env i) (jw_path i) (jw_value i))"
    by (rule steps_write_json_atomic) auto
  show "jw_ok i \<Longrightarrow> write_json_atomic (jw_env i) (jw_path i) (jw_value i) w = (r, w') \<Longrightarrow>
        file_at w' (resolve (jw_env i) (jw_path i)) \<in> {file_at w (resolve (jw_env i) (jw_path i)), Some (jw_text i)}"
    unfolding jw_ok_def using write_json_atomic_outcome(1) by blast
  show "jw_ok i \<Longrightarrow> write_json_atomic (jw_env i) (jw_path i) (jw_value i) w = (Inr x, w') \<Longrightarrow>
        file_at w' (resolve (jw_env i) (jw_path i)) = Some (jw_text i)"
    unfolding jw_ok_def using write_json_atomic_outcome(2) by blast
qed

section \<open>Running without faults\<close>

definition no_dir_at :: "'z world_scheme \<Rightarrow> names \<Rightarrow> bool" where
  "no_dir_at w ns \<longleftrightarrow> (\<forall>m. w_fs w ns \<noteq> Some (Dir m))"

definition writable_at :: "env \<Rightarrow> path \<Rightarrow> 'z world_scheme \<Rightarrow> bool" where
  "writable_at E path w \<longleftrightarrow>
     (\<exists>nm. resolve E path = resolve E (parent_or_dot path) @ [nm]) \<and> resolve E path \<notin> json_temps E path \<and>
     is_dir w (resolve E (parent_or_dot path)) \<and> no_dir_at w (resolve E path) \<and>
     (\<forall>q \<in> json_temps E path. no_dir_at w q)"

lemma file_create_run:
  assumes "no_faults E" "resolve E p = d @ [s]" "is_dir w d" "no_dir_at w (d @ [s])"
  shows "\<exists>w' m. file_create E p w = (Inr (), w') \<and> w_fs w' = (w_fs w)(d @ [s] \<mapsto> File [] m)"
  using assms
  by (cases "w_fs w (d @ [s])"; cases "the (w_fs w (d @ [s]))")
     (auto simp: file_create_def Let_def sys_nofault fs_put_def is_dir_def no_dir_at_def split: option.splits node.splits)

lemma write_all_run:
  assumes "no_faults E" "w_fs w (resolve E p) = Some (File old m)"
  shows "\<exists>w'. write_all E p b w = (Inr (), w') \<and> w_fs w' = (w_fs w)(resolve E p \<mapsto> File (old @ b) m)"
  using assms by (simp add: write_all_def Let_def sys_nofault append_to_def fs_put_def)

lemma fs_rename_run:
  assumes "no_faults E" "w_fs w (resolve E p) = Some (File c m)" "resolve E q = d @ [s]" "is_dir w d" "no_dir_at w (d @ [s])"
  shows "\<exists>w'. fs_rename E p q w = (Inr (), w') \<and> w_fs w' = (w_fs w)(resolve E p := None, d @ [s] \<mapsto> File c m)"
proof -
  have "\<not> is_dir w (d @ [s])" using assms(5) by (auto simp: is_dir_def no_dir_at_def split: option.splits node.splits)
  with assms show ?thesis by (simp add: fs_rename_def Let_def sys_nofault fs_put_def is_dir_def)
qed

lemma write_temp_run:
  assumes "no_faults E" "resolve E p = d @ [s]" "is_dir w d" "no_dir_at w (d @ [s])"
  shows "\<exists>w' m. write_temp E p b w = (Inr (), w') \<and> w_fs w' = (w_fs w)(d @ [s] \<mapsto> File b m)"
proof -
  obtain w1 m where 1: "file_create E p w = (Inr (), w1)" "w_fs w1 = (w_fs w)(d @ [s] \<mapsto> File [] m)"
    using file_create_run [OF assms] by blast
  then obtain w2 where "write_all E p b w1 = (Inr (), w2)" "w_fs w2 = (w_fs w)(d @ [s] \<mapsto> File b m)"
    using write_all_run [OF assms(1), of w1 p "[]" m b] assms(2) by auto
  with 1 show ?thesis
    by (simp add: write_temp_def bindE_def map_err_def file_flush_def sync_all_def Let_def sys_nofault assms(1)) blast
qed

lemma is_dir_upd_below: "f d = w_fs w d \<Longrightarrow> is_dir (w\<lparr>w_fs := f\<rparr>) d = is_dir w d"
  by (simp add: is_dir_def)

lemma is_dir_cong: "w_fs w' d = w_fs w d \<Longrightarrow> is_dir w' d = is_dir w d"
  by (simp add: is_dir_def)

lemma write_json_atomic_run:
  assumes "no_faults E" "e_json_pretty E value = Inr b" "writable_at E path w"
  shows "\<exists>w' m. write_json_atomic E path value w = (Inr (), w') \<and> w_fs w' (resolve E path) = Some (File b m)"
proof -
  let ?d = "resolve E (parent_or_dot path)"
  let ?n = "json_temp_name (timestamp_nanos (e_clock E (w_tick w)))"
  let ?temp = "path_join (parent_or_dot path) [Normal ?n]"
  let ?w = "w\<lparr>w_tick := Suc (w_tick w)\<rparr>"
  obtain nm where nm: "resolve E path = ?d @ [nm]" "?d @ [nm] \<noteq> ?d @ [?n]" "is_dir w ?d" "no_dir_at w (?d @ [nm])" "no_dir_at w (?d @ [?n])"
    using assms(3) unfolding writable_at_def json_temps_def by (metis (no_types, lifting) rangeI)
  have t: "resolve E ?temp = ?d @ [?n]" by (rule resolve_json_temp)
  have "is_dir ?w ?d" "no_dir_at ?w (?d @ [?n])" using nm by (simp_all add: is_dir_def no_dir_at_def)
  from write_temp_run [OF assms(1) t this, of b] obtain w1 m where 1: "write_temp E ?temp b ?w = (Inr (), w1)"
    "w_fs w1 = (w_fs w)(?d @ [?n] \<mapsto> File b m)" by auto
  have "w_fs w1 (resolve E ?temp) = Some (File b m)" "is_dir w1 ?d" "no_dir_at w1 (?d @ [nm])"
    using 1(2) nm t is_dir_cong [of w1 ?d w] by (auto simp: no_dir_at_def)
  from fs_rename_run [OF assms(1) this(1) nm(1) this(2,3)] obtain w2 where
    2: "fs_rename E ?temp path w1 = (Inr (), w2)" "w_fs w2 (?d @ [nm]) = Some (File b m)" by auto
  from 1(1) 2 show ?thesis unfolding write_json_atomic_eq [OF assms(2)] nm(1)
    by (simp add: bindE_def utc_now_def Let_def publish_def on_err_def)
qed

text \<open>After a run without faults the temporary names still are not directories.\<close>

lemma write_json_atomic_no_dir:
  assumes "no_faults E" "e_json_pretty E value = Inr b" "writable_at E path w"
    and "write_json_atomic E path value w = (Inr x, w')" "q \<in> json_temps E path"
  shows "no_dir_at w' q"
proof -
  let ?n = "json_temp_name (timestamp_nanos (e_clock E (w_tick w)))"
  let ?d = "resolve E (parent_or_dot path)"
  let ?temp = "path_join (parent_or_dot path) [Normal ?n]"
  have t: "resolve E ?temp = ?d @ [?n]" by (rule resolve_json_temp)
  have qp: "q \<noteq> resolve E path" using assms(3,5) unfolding writable_at_def by blast
  from assms(4) obtain w1 y where wt: "write_temp E ?temp b (w\<lparr>w_tick := Suc (w_tick w)\<rparr>) = (Inr y, w1)"
    and pub: "fs_rename E ?temp path w1 = (Inr x, w')"
    unfolding write_json_atomic_eq [OF assms(2)]
    by (auto simp: bindE_def utc_now_def Let_def publish_def on_err_def split: prod.splits sum.splits)
  have S: "w_fs w' r = w_fs w r" if "r \<noteq> resolve E path" "r \<noteq> resolve E ?temp" for r
  proof -
    have "steps (fs_only {resolve E ?temp}) (write_temp E ?temp b)" by (rule steps_write_temp) simp
    from fs_only_same [OF stepsD [OF this wt], of r] that have "w_fs w1 r = w_fs w r" by simp
    moreover have "steps (fs_only {resolve E ?temp, resolve E path}) (fs_rename E ?temp path)" by (rule steps_fs_rename) auto
    from fs_only_same [OF stepsD [OF this pub], of r] that have "w_fs w' r = w_fs w1 r" by simp
    ultimately show ?thesis by simp
  qed
  show ?thesis
  proof (cases "q = resolve E ?temp")
    case True
    with fs_rename_Inr [OF pub] qp show ?thesis by (auto simp: no_dir_at_def)
  next
    case False
    with S [OF qp] assms(3,5) show ?thesis by (auto simp: writable_at_def no_dir_at_def)
  qed
qed

section \<open>Lists that verify\<close>

definition blacklist_accepted :: "env \<Rightarrow> bytes \<Rightarrow> blacklist \<Rightarrow> bool" where
  "blacklist_accepted E key bl \<longleftrightarrow> check_blacklist E key bl = Inr bl"

definition blacklist_body :: "blacklist \<Rightarrow> json" where
  "blacklist_body bl = blacklist_payload (sort (bl_blacklisted bl))"

interpretation signed_blacklist: sealed_record blacklist_body bl_list_hmac blacklist_accepted
  by unfold_locales (auto simp: blacklist_accepted_def check_blacklist_def seal_def blacklist_body_def run_iff)

lemma check_blacklist_Inr: "check_blacklist E key bl = Inr x \<longleftrightarrow> x = bl \<and> blacklist_accepted E key bl"
  by (auto simp: blacklist_accepted_def check_blacklist_def run_iff)

text \<open>The list that is stored in a file, if it verifies.\<close>

definition stored_blacklist :: "env \<Rightarrow> bytes \<Rightarrow> path \<Rightarrow> 'z world_scheme \<Rightarrow> blacklist option" where
  "stored_blacklist E key path w =
     (case file_at w (resolve E path) of None \<Rightarrow> None
      | Some b \<Rightarrow> (case json_typed E ''Blacklist'' decode_blacklist b of Inl _ \<Rightarrow> None
         | Inr bl \<Rightarrow> if blacklist_accepted E key bl then Some bl else None))"

definition blacklisted_in :: "env \<Rightarrow> bytes \<Rightarrow> path \<Rightarrow> 'z world_scheme \<Rightarrow> string set" where
  "blacklisted_in E key path w =
     (case stored_blacklist E key path w of None \<Rightarrow> {} | Some bl \<Rightarrow> set (bl_blacklisted bl))"

text \<open>The list itself, in the order of the file: empty when there is none that verifies, as \<open>unwrap_or_default\<close>
  makes it.\<close>

definition listed :: "env \<Rightarrow> bytes \<Rightarrow> path \<Rightarrow> 'z world_scheme \<Rightarrow> string list" where
  "listed E key path w =
     (case stored_blacklist E key path w of None \<Rightarrow> [] | Some bl \<Rightarrow> bl_blacklisted bl)"

lemma set_listed: "set (listed E key path w) = blacklisted_in E key path w"
  by (simp add: listed_def blacklisted_in_def split: option.split)

lemma load_blacklist_fs: "load_blacklist_raw E path key w = (r, w') \<Longrightarrow> w_fs w' = w_fs w"
proof -
  have "fs_read E path w = (q, v) \<Longrightarrow> w_fs v = w_fs w" for q v
    by (auto simp: fs_read_def Let_def sys_def no_effect_def split: option.splits node.splits)
  then show "load_blacklist_raw E path key w = (r, w') \<Longrightarrow> w_fs w' = w_fs w"
    by (auto simp: load_blacklist_raw_def bindE_def map_err_def lift_res_def split: prod.splits sum.splits)
qed

lemma load_blacklist_Inr:
  "load_blacklist_raw E path key w = (Inr bl, w') \<Longrightarrow> stored_blacklist E key path w = Some bl"
  by (auto simp: load_blacklist_raw_def run_iff stored_blacklist_def check_blacklist_Inr dest!: fs_read_Inr(1))

lemma load_blacklist_run:
  assumes "no_faults E"
  shows "\<exists>r. load_blacklist_raw E path key w = (r, w\<lparr>w_tick := Suc (w_tick w)\<rparr>) \<and>
           (case stored_blacklist E key path w of Some bl \<Rightarrow> r = Inr bl | None \<Rightarrow> (\<exists>e. r = Inl e))"
proof -
  obtain r w' where l: "load_blacklist_raw E path key w = (r, w')" by fastforce
  have "w' = w\<lparr>w_tick := Suc (w_tick w)\<rparr>"
    using l assms by (auto simp: load_blacklist_raw_def bindE_def map_err_def lift_res_def fs_read_def Let_def sys_nofault
        split: prod.splits sum.splits option.splits node.splits)
  moreover have "case stored_blacklist E key path w of Some bl \<Rightarrow> r = Inr bl | None \<Rightarrow> (\<exists>e. r = Inl e)"
  proof (cases "stored_blacklist E key path w")
    case None
    with load_blacklist_Inr [of E path key w] l show ?thesis by (cases r) auto
  next
    case (Some bl)
    then obtain b m where "w_fs w (resolve E path) = Some (File b m)" "json_typed E ''Blacklist'' decode_blacklist b = Inr bl"
      "blacklist_accepted E key bl"
      by (auto simp: stored_blacklist_def file_at_def split: option.splits node.splits sum.splits if_splits)
    with l assms Some show ?thesis
      by (auto simp: load_blacklist_raw_def bindE_def map_err_def lift_res_def fs_read_def Let_def sys_nofault blacklist_accepted_def)
  qed
  ultimately show ?thesis using l by blast
qed

section \<open>What is written is read back\<close>

lemma blacklist_keys_utf8: "valid_utf8 ''blacklisted''" "valid_utf8 ''list_hmac''" "valid_utf8 ''version''"
  by code_simp+

lemma blacklist_json_wf: "json_wf (blacklist_json bl)"
  by (simp add: blacklist_json_def)

lemma strings_depth: "foldr (\<lambda>v n. max (json_depth v) n) (map JString vs) 0 = 0"
  by (induction vs) auto

lemma blacklist_text:
  assumes "json_laws E" "\<forall>v \<in> set (bl_blacklisted bl). valid_utf8 v" "valid_utf8 (bl_list_hmac bl)"
  obtains s where "e_json_pretty E (blacklist_json bl) = Inr s" "json_typed E ''Blacklist'' decode_blacklist s = Inr bl"
proof -
  have "json_readable (blacklist_json bl)"
    using assms(2,3) by (simp add: json_readable_def JSON_MAX_DEPTH_def blacklist_json_def blacklist_keys_utf8 strings_depth)
  with json_laws_pretty [OF assms(1) json_wf_distinct [OF blacklist_json_wf]]
  obtain s where s: "e_json_pretty E (blacklist_json bl) = Inr s" "e_json_parse E s = Inr (sort_json_keys (blacklist_json bl))"
    "\<not> e_json_dup E ''Blacklist'' s" by metis
  have "decode_blacklist (blacklist_json bl) = Some bl"
    by (simp add: decode_blacklist_def blacklist_json_def fld_list_def fld_string_def comp_def)
  with s that show thesis by (simp add: json_typed_def sort_json_keys_id [OF blacklist_json_wf])
qed

lemma blacklist_payload_wf: "json_wf (blacklist_payload vs)"
  unfolding blacklist_payload_def by (rule json_wf_obj) simp

lemma blacklist_payload_plain: "\<forall>v \<in> set vs. valid_utf8 v \<Longrightarrow> json_readable (blacklist_payload vs)"
  unfolding blacklist_payload_def
  by (rule json_readable_obj) (simp add: blacklist_keys_utf8 strings_depth JSON_MAX_DEPTH_def)

lemma stored_blacklist_accepted:
  "stored_blacklist E key path w = Some bl \<Longrightarrow> blacklist_accepted E key bl"
  by (auto simp: stored_blacklist_def split: option.splits sum.splits if_splits)

lemma set_add_version [simp]: "set (add_version v vs) = insert v (set vs)"
  by (auto simp: add_version_def)

text \<open>The strings of a list in memory are valid UTF-8, whatever their order.\<close>

definition valid_list :: "env \<Rightarrow> bytes \<Rightarrow> path \<Rightarrow> 'z world_scheme \<Rightarrow> bool" where
  "valid_list E key path w \<longleftrightarrow> (\<forall>v \<in> set (listed E key path w). valid_utf8 v)"

text \<open>Adding a version that is not listed yet sorts the list; adding one that is leaves its order.\<close>

definition add_sorts :: "env \<Rightarrow> bytes \<Rightarrow> string \<Rightarrow> path \<Rightarrow> 'z world_scheme \<Rightarrow> bool" where
  "add_sorts E key v path w \<longleftrightarrow> v \<notin> set (listed E key path w) \<or> sorted (listed E key path w)"

lemma sorted_add_version: "sorted (add_version v vs) \<longleftrightarrow> v \<notin> set vs \<or> sorted vs"
  by (auto simp: add_version_def)

text \<open>What \<open>blacklist_version\<close> leaves: the extended list, signed as it is.\<close>

definition signs :: "env \<Rightarrow> bytes \<Rightarrow> path \<Rightarrow> blacklist \<Rightarrow> 'z world_scheme \<Rightarrow> bool" where
  "signs E key path bl w \<longleftrightarrow> seal E key (blacklist_payload (bl_blacklisted bl)) = Inr (bl_list_hmac bl) \<and>
     (\<exists>b. file_at w (resolve E path) = Some b \<and> json_typed E ''Blacklist'' decode_blacklist b = Inr bl)"

lemma signs_sorted:
  assumes "signs E key path bl w" "sorted (bl_blacklisted bl)"
  shows "stored_blacklist E key path w = Some bl"
proof -
  have "blacklist_accepted E key bl"
    using assms by (intro signed_blacklist.sealed_accepted) (simp add: signs_def blacklist_body_def sorted_sort_id)
  with assms(1) show ?thesis by (auto simp: signs_def stored_blacklist_def)
qed

text \<open>Reading checks the code of the sorted list, so an unsorted list signed as it is does not verify.\<close>

lemma signs_unsorted:
  assumes "signs E key path bl w" "mac_separates E key (blacklist_payload (bl_blacklisted bl)) (blacklist_body bl)"
    and "seal E key (blacklist_body bl) = Inr t" "no_faults E"
  shows "\<exists>m. fst (is_blacklisted E u path key w) = Inl (Crypto m)"
proof -
  have "t \<noteq> bl_list_hmac bl" using assms(1-3) by (auto simp: signs_def mac_separates_def)
  with assms(3) have bad: "\<exists>m. check_blacklist E key bl = Inl (Crypto m)"
    by (auto simp: check_blacklist_def blacklist_body_def seal_def Let_def run_iff)
  from assms(1) obtain b m where "w_fs w (resolve E path) = Some (File b m)" "json_typed E ''Blacklist'' decode_blacklist b = Inr bl"
    by (auto simp: signs_def file_at_Some)
  with bad assms(4) show ?thesis
    by (auto simp: is_blacklisted_def load_blacklist_raw_def bindE_def attempt_def map_err_def lift_res_def fs_read_def
        Let_def sys_nofault fail_def)
qed

lemma blacklist_version_run:
  fixes w :: "'z world_scheme"
  assumes env: "no_faults E" "logging_env E"
    and strs: "valid_utf8 v" "valid_utf8 (al_installation_id lg)" "valid_list E key path w"
    and fs: "writable_at E path w"
    and sep: "al_file lg \<noteq> resolve E path" "al_file lg \<notin> json_temps E path"
  shows "\<exists>w' bl. blacklist_version E v path key lg w = (Inr (), w') \<and> bl_blacklisted bl = add_version v (listed E key path w) \<and>
           signs E key path bl w'"
proof -
  have laws: "json_laws E" "hmac_total E" "hex_ascii E" using env(2) by (simp_all add: logging_env_def)
  let ?w = "w\<lparr>w_tick := Suc (w_tick w)\<rparr>"
  obtain r where load: "load_blacklist_raw E path key w = (r, ?w)"
    and r: "case stored_blacklist E key path w of Some bl \<Rightarrow> r = Inr bl | None \<Rightarrow> (\<exists>e. r = Inl e)"
    using load_blacklist_run [OF env(1)] by blast
  define vs where "vs = add_version v (bl_blacklisted (case r of Inr bl \<Rightarrow> bl | Inl _ \<Rightarrow> default_blacklist))"
  have vs: "vs = add_version v (listed E key path w)"
    using r by (auto simp: vs_def listed_def default_blacklist_def split: option.splits)
  have utf8: "\<forall>u \<in> set vs. valid_utf8 u" using strs(1,3) by (auto simp: vs valid_list_def)
  obtain tag where tag: "seal E key (blacklist_payload vs) = Inr tag"
    by (rule seal_total [OF laws(1,2) blacklist_payload_wf blacklist_payload_plain [OF utf8]])
  then have "valid_utf8 tag" using laws(3) by (auto simp: seal_Inr hex_ascii_def ascii_valid_utf8)
  define bl where "bl = \<lparr>bl_blacklisted = vs, bl_list_hmac = tag\<rparr>"
  obtain s where s: "e_json_pretty E (blacklist_json bl) = Inr s" "json_typed E ''Blacklist'' decode_blacklist s = Inr bl"
    using blacklist_text [OF laws(1), of bl] utf8 \<open>valid_utf8 tag\<close> by (auto simp: bl_def)
  have "writable_at E path ?w" using fs by (simp add: writable_at_def is_dir_def no_dir_at_def)
  from write_json_atomic_run [OF env(1) s(1) this] obtain w1 m1 where
    1: "write_json_atomic E path (blacklist_json bl) ?w = (Inr (), w1)" "w_fs w1 (resolve E path) = Some (File s m1)" by blast
  have "printable_event (VersionBlacklisted, json_obj [(''version'', JString v)])"
    using strs(1) json_wf_obj [of "[(''version'', JString v)]"] json_plain_obj [of "[(''version'', JString v)]"]
      json_depth_obj [of "[(''version'', JString v)]" 0]
    by (simp add: printable_event_def blacklist_keys_utf8 JSON_MAX_DEPTH_def)
  then obtain w2 where 2: "audit_log E lg VersionBlacklisted (json_obj [(''version'', JString v)]) w1 = (Inr (), w2)"
    using audit_log_ok [OF env strs(2)] by blast
  have keep: "w_fs w2 (resolve E path) = Some (File s m1)"
    using fs_only_same [OF stepsD [OF steps_audit_log 2], of "resolve E path"] sep(1) 1(2) by auto
  from tag obtain c where c: "canonical_json E (blacklist_payload vs) = Inr c" "compute_hmac E key c = Inr tag"
    by (auto simp: seal_def run_iff)
  have "blacklist_version E v path key lg w = (Inr (), w2)"
    using load c 1(1) 2
    by (simp add: blacklist_version_def bindE_def attempt_def lift_res_def Let_def flip: vs_def bl_def)
  moreover have "signs E key path bl w2" using keep s(2) tag by (simp add: signs_def bl_def file_at_def)
  moreover have "bl_blacklisted bl = add_version v (listed E key path w)" by (simp add: bl_def vs)
  ultimately show ?thesis by blast
qed

text \<open>When adding sorts, the list that is left verifies and holds one version more.\<close>

lemma blacklist_version_adds:
  fixes w :: "'z world_scheme"
  assumes "no_faults E" "logging_env E" "valid_utf8 v" "valid_utf8 (al_installation_id lg)" "valid_list E key path w"
    and "writable_at E path w" "al_file lg \<noteq> resolve E path" "al_file lg \<notin> json_temps E path" "add_sorts E key v path w"
  shows "\<exists>w' bl. blacklist_version E v path key lg w = (Inr (), w') \<and> stored_blacklist E key path w' = Some bl \<and>
           blacklisted_in E key path w' = insert v (blacklisted_in E key path w)"
proof -
  from blacklist_version_run [OF assms(1-8)] obtain w' bl where
    1: "blacklist_version E v path key lg w = (Inr (), w')" "bl_blacklisted bl = add_version v (listed E key path w)" "signs E key path bl w'"
    by blast
  have "sorted (bl_blacklisted bl)" using assms(9) by (simp add: 1(2) sorted_add_version add_sorts_def)
  from signs_sorted [OF 1(3) this] 1 show ?thesis
    by (intro exI [of _ w'] exI [of _ bl]) (simp add: blacklisted_in_def [of E key path w'], simp add: set_listed)
qed

lemma is_blacklisted_run:
  assumes "no_faults E" "stored_blacklist E key path w = Some bl"
  shows "\<exists>w'. is_blacklisted E u path key w = (Inr (u \<in> blacklisted_in E key path w), w') \<and> w_fs w' = w_fs w"
proof -
  from load_blacklist_run [OF assms(1), of path key w] assms(2)
  have "load_blacklist_raw E path key w = (Inr bl, w\<lparr>w_tick := Suc (w_tick w)\<rparr>)" by auto
  then show ?thesis by (simp add: is_blacklisted_def bindE_def attempt_def ret_def blacklisted_in_def assms(2))
qed

section \<open>Counting rollbacks\<close>

text \<open>The counters a file holds, when they can be read; a missing file holds none.\<close>

definition stored_counters :: "env \<Rightarrow> path \<Rightarrow> 'z world_scheme \<Rightarrow> (string \<times> json) list option" where
  "stored_counters E path w =
     (if path_exists E path w then
        (case file_at w (resolve E path) of None \<Rightarrow> None
         | Some b \<Rightarrow> (case json_map E b of Inl _ \<Rightarrow> None | Inr m \<Rightarrow> Some m))
      else Some [])"

definition good_counters :: "(string \<times> json) list \<Rightarrow> bool" where
  "good_counters m \<longleftrightarrow> json_wf (JObject m) \<and> json_readable (JObject m)"

definition rollback_count :: "env \<Rightarrow> path \<Rightarrow> string \<Rightarrow> 'z world_scheme \<Rightarrow> u32" where
  "rollback_count E path v w = (case stored_counters E path w of Some m \<Rightarrow> counter_of m v | None \<Rightarrow> 0)"

lemma counter_of_insert:
  "counter_of (bt_insert v (jnat (ucast (n :: u32))) m) u = (if u = v then n else counter_of m u)"
proof -
  have "(ucast (ucast n :: u64) :: u32) = n" by transfer (simp add: take_bit_eq_mod)
  then show ?thesis by (simp add: counter_of_def map_of_bt_insert jnat_def)
qed

lemma good_counters_insert:
  "good_counters m \<Longrightarrow> valid_utf8 v \<Longrightarrow> good_counters (bt_insert v (jnat n) m)"
  unfolding good_counters_def
  by (intro conjI json_wf_insert json_readable_insert) (auto simp: jnat_def JSON_MAX_DEPTH_def)

lemma increment_run:
  fixes w :: "'z world_scheme"
  assumes "no_faults E" "json_laws E" "valid_utf8 v" "writable_at E path w"
    and "stored_counters E path w = Some m" "good_counters m"
  shows "\<exists>w' m'. increment_rollback_counter E v path w = (Inr (sat_add (rollback_count E path v w) 1), w') \<and>
           stored_counters E path w' = Some m' \<and> good_counters m' \<and> writable_at E path w' \<and>
           (\<forall>u. counter_of m' u = (if u = v then sat_add (rollback_count E path v w) 1 else counter_of m u))"
proof -
  define nxt where "nxt = sat_add (counter_of m v) 1"
  define m' where "m' = bt_insert v (jnat (ucast nxt)) m"
  have good: "good_counters m'" unfolding m'_def by (rule good_counters_insert [OF assms(6,3)])
  then obtain s where s: "e_json_pretty E (JObject m') = Inr s" "e_json_parse E s = Inr (JObject m')"
    using json_laws_pretty [OF assms(2) json_wf_distinct, of "JObject m'"]
    unfolding good_counters_def by (metis sort_json_keys_id)
  let ?read = "if path_exists E path w then
              bindE (map_err (\<lambda>e. Internal (''Cannot read rollback counters: '' @ e)) (fs_read E path)) (\<lambda>bytes.
              lift_res (map_inl (\<lambda>e. Internal (''Rollback counters JSON parse error: '' @ e))
                (json_map E bytes)))
            else ret []"
  have "\<exists>w1. ?read w = (Inr m, w1) \<and> w_fs w1 = w_fs w"
    using assms(1,5)
    by (auto simp: stored_counters_def file_at_def bindE_def map_err_def lift_res_def fs_read_def Let_def sys_nofault ret_def
        split: option.splits node.splits sum.splits if_splits)
  then obtain w1 where 1: "?read w = (Inr m, w1)" "w_fs w1 = w_fs w" by blast
  have "writable_at E path w1" using assms(4) 1(2) by (simp add: writable_at_def is_dir_def no_dir_at_def)
  from write_json_atomic_run [OF assms(1) s(1) this] obtain w2 m2 where
    2: "write_json_atomic E path (JObject m') w1 = (Inr (), w2)" "w_fs w2 (resolve E path) = Some (File s m2)" by blast
  have "increment_rollback_counter E v path w = (Inr nxt, w2)"
    using 1(1) 2(1) by (simp add: increment_rollback_counter_def bindE_def Let_def ret_def flip: nxt_def m'_def)
  moreover have "stored_counters E path w2 = Some m'"
    using 2(2) s by (simp add: stored_counters_def path_exists_def file_at_def json_map_def)
  moreover have "writable_at E path w2"
  proof -
    have fr: "steps (fs_only (insert (resolve E path) (json_temps E path))) (write_json_atomic E path (JObject m') :: ('z, unit) eio)"
      by (rule steps_write_json_atomic) auto
    have temp: "no_dir_at w2 q" if "q \<in> json_temps E path" for q
      by (rule write_json_atomic_no_dir [OF assms(1) s(1) \<open>writable_at E path w1\<close> 2(1) that])
    have "resolve E (parent_or_dot path) \<notin> insert (resolve E path) (json_temps E path)"
      using assms(4) by (auto simp: writable_at_def json_temps_def)
    from fs_only_is_dir [OF stepsD [OF fr 2(1)] this] \<open>writable_at E path w1\<close> temp 2(2)
    show ?thesis by (simp add: writable_at_def no_dir_at_def)
  qed
  moreover have "rollback_count E path v w = counter_of m v" using assms(5) by (simp add: rollback_count_def)
  ultimately show ?thesis
    using good by (auto simp: nxt_def m'_def counter_of_insert)
qed

lemma increments_run:
  fixes w :: "'z world_scheme"
  assumes "no_faults E" "json_laws E" "valid_utf8 v" "writable_at E path w"
    and "stored_counters E path w = Some m" "good_counters m"
  shows "\<exists>w'. for_each (replicate n v) (\<lambda>v. bindE (increment_rollback_counter E v path) (\<lambda>_. ret ())) w = (Inr (), w') \<and>
           unat (rollback_count E path v w') = min (unat (rollback_count E path v w) + n) (2 ^ 32 - 1)"
  using assms(4-)
proof (induction n arbitrary: w m)
  case 0
  have "unat (rollback_count E path v w) \<le> 2 ^ 32 - 1"
    using unsigned_less [of "rollback_count E path v w", where 'a = nat] by simp
  then show ?case by (simp add: ret_def)
next
  case (Suc n)
  from increment_run [OF assms(1-3) Suc.prems] obtain w1 m1 where
    1: "increment_rollback_counter E v path w = (Inr (sat_add (rollback_count E path v w) 1), w1)"
    "stored_counters E path w1 = Some m1" "good_counters m1" "writable_at E path w1"
    "counter_of m1 v = sat_add (rollback_count E path v w) 1" by auto
  have "rollback_count E path v w1 = sat_add (rollback_count E path v w) 1"
    using 1 by (simp add: rollback_count_def)
  with Suc.IH [OF 1(4,2,3)] 1(1) show ?case
    by (auto simp: bindE_def ret_def unat_sat_add min_def)
qed

section \<open>Properties\<close>

text \<open>C22. Blacklisting a version: with a working system it succeeds, on a blacklist that verifies as on one that does
  not exist yet. Unless the version was listed already in a list out of order, exactly the versions that
  were listed before and the new one are reported as blacklisted afterwards. If it was, then the list is
  signed as it is while readers check the code of the sorted list, so (as far as the MAC tells the two
  apart) every later lookup fails with a cryptographic error.\<close>

theorem blacklist_then_lookup:
  fixes w :: "'z world_scheme"
  assumes "no_faults E" "logging_env E" "valid_utf8 v" "valid_utf8 (al_installation_id lg)"
    and "valid_list E key path w" "writable_at E path w"
    and "al_file lg \<noteq> resolve E path" "al_file lg \<notin> json_temps E path"
  defines "vs \<equiv> listed E key path w"
  shows "\<exists>w1. blacklist_version E v path key lg w = (Inr (), w1) \<and>
           (v \<notin> set vs \<or> sorted vs \<longrightarrow> (\<forall>u. fst (is_blacklisted E u path key w1) = Inr (u = v \<or> u \<in> set vs))) \<and>
           (v \<in> set vs \<and> mac_separates E key (blacklist_payload vs) (blacklist_payload (sort vs)) \<longrightarrow>
              (\<forall>u. \<exists>m. fst (is_blacklisted E u path key w1) = Inl (Crypto m)))"
proof -
  from blacklist_version_run [OF assms(1-8)] obtain w1 bl where
    1: "blacklist_version E v path key lg w = (Inr (), w1)" "bl_blacklisted bl = add_version v vs" "signs E key path bl w1"
    unfolding vs_def by blast
  have "fst (is_blacklisted E u path key w1) = Inr (u = v \<or> u \<in> set vs)" if "v \<notin> set vs \<or> sorted vs" for u
  proof -
    from that have "sorted (bl_blacklisted bl)" by (simp add: 1(2) sorted_add_version)
    from signs_sorted [OF 1(3) this] have st: "stored_blacklist E key path w1 = Some bl" .
    then have "u \<in> blacklisted_in E key path w1 \<longleftrightarrow> u = v \<or> u \<in> set vs"
      by (simp add: blacklisted_in_def 1(2) del: One_nat_def)
    with is_blacklisted_run [OF assms(1) st, of u] show ?thesis by auto
  qed
  moreover have "\<exists>m. fst (is_blacklisted E u path key w1) = Inl (Crypto m)"
    if "v \<in> set vs" "mac_separates E key (blacklist_payload vs) (blacklist_payload (sort vs))" for u
  proof -
    have laws: "json_laws E" "hmac_total E" using assms(2) by (simp_all add: logging_env_def)
    have "bl_blacklisted bl = vs" using that(1) by (simp add: 1(2) add_version_def)
    moreover have "\<forall>x \<in> set (sort vs). valid_utf8 x" using assms(5) by (simp add: valid_list_def vs_def)
    from seal_total [OF laws blacklist_payload_wf blacklist_payload_plain [OF this], of key]
    obtain t where "seal E key (blacklist_payload (sort vs)) = Inr t" .
    ultimately show ?thesis using signs_unsorted [OF 1(3) _ _ assms(1)] that(2) by (simp add: blacklist_body_def)
  qed
  ultimately show ?thesis using 1(1) by blast
qed

text \<open>A blacklist whose code does not verify is reported, not used: looking a version up fails with a
  cryptographic error.\<close>

theorem tampered_blacklist_reported:
  assumes "no_faults E" "file_at w (resolve E path) = Some b"
    and "json_typed E ''Blacklist'' decode_blacklist b = Inr bl'"
    and "blacklist_accepted E key bl" "bl_list_hmac bl' = bl_list_hmac bl"
    and "mac_separates E key (blacklist_body bl) (blacklist_body bl')"
    and "seal E key (blacklist_body bl') = Inr t"
  shows "\<exists>m w'. is_blacklisted E u path key w = (Inl (Crypto m), w')"
proof -
  have "\<not> blacklist_accepted E key bl'"
    by (rule signed_blacklist.altered_rejected [OF assms(4-6)])
  with assms(7) have "\<exists>m. check_blacklist E key bl' = Inl (Crypto m)"
    by (auto simp: blacklist_accepted_def check_blacklist_def blacklist_body_def seal_def Let_def run_iff)
  with assms(1-3) show ?thesis
    by (auto simp: is_blacklisted_def load_blacklist_raw_def bindE_def attempt_def map_err_def lift_res_def fs_read_def
        Let_def sys_nofault file_at_def fail_def split: option.splits node.splits)
qed

text \<open>C23. Adding to a blacklist that does not verify discards it: every version it listed is forgotten
  and only the new one is listed afterwards, under a valid code.\<close>

theorem blacklisting_discards_tampered_list:
  fixes w :: "'z world_scheme"
  assumes "no_faults E" "logging_env E" "valid_utf8 v" "valid_utf8 (al_installation_id lg)"
    and "stored_blacklist E key path w = None" "writable_at E path w"
    and "al_file lg \<noteq> resolve E path" "al_file lg \<notin> json_temps E path"
  shows "\<exists>w1. blacklist_version E v path key lg w = (Inr (), w1) \<and>
           (\<forall>u. fst (is_blacklisted E u path key w1) = Inr (u = v))"
proof -
  have empty: "blacklisted_in E key path w = {}" using assms(5) by (simp add: blacklisted_in_def)
  have "listed E key path w = []" using assms(5) by (simp add: listed_def)
  then have vl: "valid_list E key path w" "add_sorts E key v path w" by (simp_all add: valid_list_def add_sorts_def)
  from blacklist_version_adds [OF assms(1-4) vl(1) assms(6-8) vl(2), unfolded empty] obtain w1 bl where
    1: "blacklist_version E v path key lg w = (Inr (), w1)" "stored_blacklist E key path w1 = Some bl"
      "blacklisted_in E key path w1 = {v}" by (elim exE conjE)
  have "fst (is_blacklisted E u path key w1) = Inr (u = v)" for u
  proof -
    from is_blacklisted_run [OF assms(1) 1(2), of u] obtain w2 where
      "is_blacklisted E u path key w1 = (Inr (u \<in> blacklisted_in E key path w1), w2)" by blast
    then show ?thesis by (simp add: 1(3))
  qed
  with 1(1) show ?thesis by blast
qed

text \<open>C24. Writing a JSON file is atomic: whatever calls of the operating system fail, the file holds its
  old content or the whole new text afterwards, it holds the new text when the call succeeds, and
  apart from temporary files beside it no other file is touched.\<close>

theorem write_json_atomic_atomic:
  assumes "e_json_pretty E value = Inr s" "resolve E path \<notin> json_temps E path"
    and "write_json_atomic E path value w = (r, w')"
  shows "file_at w' (resolve E path) \<in> {file_at w (resolve E path), Some s} \<and>
         (r = Inr () \<longrightarrow> file_at w' (resolve E path) = Some s) \<and>
         (\<forall>q. q \<noteq> resolve E path \<longrightarrow> q \<notin> json_temps E path \<longrightarrow> file_at w' q = file_at w q)"
proof -
  let ?i = "\<lparr>jw_env = E, jw_path = path, jw_value = value, jw_text = s\<rparr>"
  have ok: "jw_ok ?i" using assms(1,2) by (simp add: jw_ok_def)
  have run: "write_json_atomic (jw_env ?i) (jw_path ?i) (jw_value ?i) w = (r, w')" using assms(3) by simp
  show ?thesis
    using json_file.put_old_or_new [OF ok run] json_file.put_other [OF ok run]
      json_file.put_done [OF ok, of w "()" w'] run by auto
qed

text \<open>Rollbacks are counted exactly: with a working system and a readable counter file (or none), n
  increments for a version succeed and raise its stored count by n, saturating at the largest u32.\<close>

theorem rollbacks_counted:
  fixes w :: "'z world_scheme"
  assumes "no_faults E" "json_laws E" "valid_utf8 v" "writable_at E path w"
    and "stored_counters E path w = Some m" "good_counters m"
  shows "\<exists>w'. for_each (replicate n v) (\<lambda>v. bindE (increment_rollback_counter E v path) (\<lambda>_. ret ())) w = (Inr (), w') \<and>
           unat (rollback_count E path v w') = min (unat (rollback_count E path v w) + n) (2 ^ 32 - 1)"
  by (rule increments_run [OF assms])

section \<open>Witnesses\<close>

definition bl_path :: path where
  "bl_path = [Normal ''bk'', Normal ''blacklist.json'']"

definition bk_world :: "(names \<times> node) list \<Rightarrow> world" where
  "bk_world xs = world_of ([([''bk''], Dir 0x1C0), ([''log''], File [] 0x180)] @ xs)"

definition signed0 :: "string list \<Rightarrow> blacklist" where
  "signed0 vs = \<lparr>bl_blacklisted = vs, bl_list_hmac = enc_str (''k.'' @ enc (blacklist_payload vs))\<rparr>"

lemma bl_path_env0:
  "resolve env0 bl_path = [''bk'', ''blacklist.json'']" "resolve env0 (parent_or_dot bl_path) = [''bk'']"
  "json_temps env0 bl_path = range (\<lambda>n. [''bk'', json_temp_name n])"
  by (simp_all add: bl_path_def resolve_def parent_or_dot_def path_parent_def json_temps_def)

lemma json_temp_name_ne: "json_temp_name n \<noteq> ''blacklist.json''"
  by (simp add: json_temp_name_def)

lemma bk_world_writable: "\<forall>(q, x) \<in> set xs. q = [''bk'', ''blacklist.json''] \<and> (\<exists>b m. x = File b m) \<Longrightarrow> writable_at env0 bl_path (bk_world xs)"
proof -
  assume xs: "\<forall>(q, x) \<in> set xs. q = [''bk'', ''blacklist.json''] \<and> (\<exists>b m. x = File b m)"
  have "no_dir_at (bk_world xs) (''bk'' # y # ys)" for y ys
    using xs by (auto simp: no_dir_at_def bk_world_def world_of_def dest!: map_of_SomeD)
  moreover have "is_dir (bk_world xs) [''bk'']" by (simp add: is_dir_def bk_world_def world_of_def)
  moreover have "[''bk'', ''blacklist.json''] \<notin> range (\<lambda>n. [''bk'', json_temp_name n])"
    using json_temp_name_ne [symmetric] by auto
  ultimately show ?thesis by (auto simp: writable_at_def bl_path_env0)
qed

lemma bk_world_sep: "al_file lg0 \<noteq> resolve env0 bl_path" "al_file lg0 \<notin> json_temps env0 bl_path"
  by (auto simp: lg0_def bl_path_env0)

lemma bk_world_utf8: "valid_utf8 ''1.2''" "valid_utf8 (al_installation_id lg0)" "valid_utf8 ''0.9''"
  unfolding lg0_def by code_simp+

lemma typed_blacklist0:
  "json_typed env0 ''Blacklist'' decode_blacklist (enc (blacklist_json bl)) = Inr bl"
proof -
  have "decode_blacklist (blacklist_json bl) = Some bl"
    by (simp add: decode_blacklist_def blacklist_json_def fld_list_def fld_string_def comp_def)
  then show ?thesis by (simp add: json_typed_def parse_enc map_inr_def sort_json_keys_id [OF blacklist_json_wf])
qed

lemma signed0_accepted: "sorted vs \<Longrightarrow> blacklist_accepted env0 ''k'' (signed0 vs)"
  by (rule signed_blacklist.sealed_accepted)
     (simp add: seal_env0 blacklist_body_def blacklist_payload_wf signed0_def sorted_sort_id)

lemma stored_signed0:
  assumes "blacklist_accepted env0 ''k'' bl"
  shows "stored_blacklist env0 ''k'' bl_path (bk_world [([''bk'', ''blacklist.json''], File (enc (blacklist_json bl)) 0x180)]) = Some bl"
  using assms by (simp add: stored_blacklist_def file_at_def bl_path_env0 bk_world_def world_of_def typed_blacklist0)

text \<open>A list that does not exist yet, and one out of order, signed over its sorted form, that lists the version already.\<close>

lemma blacklist_then_lookup_witness:
  "(\<exists>w1. blacklist_version env0 ''1.2'' bl_path ''k'' lg0 (bk_world []) = (Inr (), w1) \<and>
     fst (is_blacklisted env0 ''1.2'' bl_path ''k'' w1) = Inr True \<and> fst (is_blacklisted env0 ''1.3'' bl_path ''k'' w1) = Inr False) \<and>
   (\<exists>w1 m. blacklist_version env0 ''1.2'' bl_path ''k'' lg0
      (bk_world [([''bk'', ''blacklist.json''], File (enc (blacklist_json ((signed0 [''0.9'', ''1.2''])\<lparr>bl_blacklisted := [''1.2'', ''0.9'']\<rparr>))) 0x180)]) = (Inr (), w1) \<and>
     fst (is_blacklisted env0 ''1.2'' bl_path ''k'' w1) = Inl (Crypto m))"
proof
  have none: "listed env0 ''k'' bl_path (bk_world []) = []"
    by (simp add: listed_def stored_blacklist_def file_at_def bl_path_env0 bk_world_def world_of_def)
  then have "valid_list env0 ''k'' bl_path (bk_world [])" by (simp add: valid_list_def)
  from blacklist_then_lookup [OF no_faults_env0 logging_env0 bk_world_utf8(1,2) this bk_world_writable bk_world_sep]
  show "\<exists>w1. blacklist_version env0 ''1.2'' bl_path ''k'' lg0 (bk_world []) = (Inr (), w1) \<and>
     fst (is_blacklisted env0 ''1.2'' bl_path ''k'' w1) = Inr True \<and> fst (is_blacklisted env0 ''1.3'' bl_path ''k'' w1) = Inr False"
    using none by (auto simp: lg0_def)
next
  let ?bl = "(signed0 [''0.9'', ''1.2''])\<lparr>bl_blacklisted := [''1.2'', ''0.9'']\<rparr>"
  let ?w = "bk_world [([''bk'', ''blacklist.json''], File (enc (blacklist_json ?bl)) 0x180)]"
  have srt: "sort [''1.2'', ''0.9''] = [''0.9'', ''1.2'']" by code_simp
  have "blacklist_accepted env0 ''k'' ?bl"
    by (rule signed_blacklist.sealed_accepted)
      (simp add: seal_env0 blacklist_body_def blacklist_payload_wf signed0_def srt del: sort_key_simps)
  then have ls: "listed env0 ''k'' bl_path ?w = [''1.2'', ''0.9'']" by (simp add: listed_def stored_signed0)
  then have vl: "valid_list env0 ''k'' bl_path ?w" using bk_world_utf8 by (simp add: valid_list_def)
  have wr: "writable_at env0 bl_path ?w" by (rule bk_world_writable) auto
  have "blacklist_payload [''1.2'', ''0.9''] \<noteq> blacklist_payload [''0.9'', ''1.2'']"
    by (simp add: blacklist_payload_def json_obj_def bt_collect_def)
  then have "enc (blacklist_payload [''1.2'', ''0.9'']) \<noteq> enc (blacklist_payload [''0.9'', ''1.2''])" using parse_enc by (metis Inr_inject)
  then have "mac_separates env0 ''k'' (blacklist_payload [''1.2'', ''0.9'']) (blacklist_payload (sort [''1.2'', ''0.9'']))"
    unfolding srt by (simp add: mac_separates_def seal_env0 blacklist_payload_wf enc_str_inj)
  with blacklist_then_lookup [OF no_faults_env0 logging_env0 bk_world_utf8(1,2) vl wr bk_world_sep]
  obtain w1 where "blacklist_version env0 ''1.2'' bl_path ''k'' lg0 ?w = (Inr (), w1)"
    "\<And>u. \<exists>m. fst (is_blacklisted env0 u bl_path ''k'' w1) = Inl (Crypto m)"
    unfolding ls by auto
  then show "\<exists>w1 m. blacklist_version env0 ''1.2'' bl_path ''k'' lg0 ?w = (Inr (), w1) \<and>
     fst (is_blacklisted env0 ''1.2'' bl_path ''k'' w1) = Inl (Crypto m)" by blast
qed

lemma tampered_blacklist_reported_witness:
  "\<exists>m w'. is_blacklisted env0 ''1.2'' bl_path ''k''
     (bk_world [([''bk'', ''blacklist.json''], File (enc (blacklist_json ((signed0 [''1.2''])\<lparr>bl_blacklisted := []\<rparr>))) 0x180)])
     = (Inl (Crypto m), w')"
proof -
  let ?bl = "(signed0 [''1.2''])\<lparr>bl_blacklisted := []\<rparr>"
  have "blacklist_payload [''1.2''] \<noteq> blacklist_payload []"
    by (simp add: blacklist_payload_def json_obj_def bt_collect_def)
  then have "enc (blacklist_payload [''1.2'']) \<noteq> enc (blacklist_payload [])" using parse_enc by (metis Inr_inject)
  then have "mac_separates env0 ''k'' (blacklist_body (signed0 [''1.2''])) (blacklist_body ?bl)"
    by (simp add: mac_separates_def seal_env0 blacklist_body_def blacklist_payload_wf signed0_def enc_str_inj)
  moreover have "seal env0 ''k'' (blacklist_body ?bl) = Inr (enc_str (''k'' @ ''.'' @ enc (blacklist_body ?bl)))"
    by (rule seal_env0) (simp add: blacklist_body_def blacklist_payload_wf)
  ultimately show ?thesis
    using signed0_accepted [of "[''1.2'']"]
    by (intro tampered_blacklist_reported [OF no_faults_env0 _ typed_blacklist0, where bl = "signed0 [''1.2'']"])
       (simp_all add: bk_world_def world_of_def file_at_def bl_path_env0 signed0_def)
qed

lemma blacklisting_discards_tampered_list_witness:
  "\<exists>w1. blacklist_version env0 ''1.2'' bl_path ''k'' lg0
       (bk_world [([''bk'', ''blacklist.json''], File (enc (blacklist_json ((signed0 [''0.9''])\<lparr>bl_list_hmac := ''bad''\<rparr>))) 0x180)]) = (Inr (), w1) \<and>
     fst (is_blacklisted env0 ''0.9'' bl_path ''k'' w1) = Inr False"
proof -
  let ?bl = "(signed0 [''0.9''])\<lparr>bl_list_hmac := ''bad''\<rparr>"
  let ?w = "bk_world [([''bk'', ''blacklist.json''], File (enc (blacklist_json ?bl)) 0x180)]"
  have "enc_str (''k'' @ ''.'' @ enc (blacklist_payload [''0.9''])) \<noteq> ''bad''"
    by (simp add: enc_str.simps)
  then have "\<not> blacklist_accepted env0 ''k'' ?bl"
    using signed0_accepted [of "[''0.9'']"]
    by (intro signed_blacklist.retagged_rejected [of _ _ "signed0 [''0.9'']"]) (simp_all add: blacklist_body_def signed0_def)
  then have none: "stored_blacklist env0 ''k'' bl_path ?w = None"
    by (simp add: stored_blacklist_def file_at_def bl_path_env0 bk_world_def world_of_def typed_blacklist0)
  have wr: "writable_at env0 bl_path ?w" by (rule bk_world_writable) auto
  from blacklisting_discards_tampered_list [OF no_faults_env0 logging_env0 bk_world_utf8(1,2) none wr bk_world_sep]
  show ?thesis by (auto simp: lg0_def)
qed

lemma write_json_atomic_atomic_witness:
  "file_at (snd (write_json_atomic env0 bl_path (JBool True) (bk_world []))) [''bk'', ''blacklist.json''] \<in> {None, Some ''t''}"
proof -
  have "e_json_pretty env0 (JBool True) = Inr ''t''" by (simp add: enc.simps)
  moreover have "resolve env0 bl_path \<notin> json_temps env0 bl_path"
    using bk_world_writable [of "[]"] by (simp add: writable_at_def)
  ultimately show ?thesis
    using write_json_atomic_atomic [of env0 "JBool True" "''t''" bl_path "bk_world []", OF _ _ prod.collapse [symmetric]]
    by (simp add: bl_path_env0 file_at_def bk_world_def world_of_def)
qed

lemma rollbacks_counted_witness:
  "\<exists>w'. for_each (replicate 3 ''1.2'') (\<lambda>v. bindE (increment_rollback_counter env0 v bl_path) (\<lambda>_. ret ())) (bk_world []) = (Inr (), w') \<and>
     unat (rollback_count env0 bl_path ''1.2'' w') = 3"
proof -
  have st: "stored_counters env0 bl_path (bk_world []) = Some []"
    by (simp add: stored_counters_def path_exists_def bl_path_env0 bk_world_def world_of_def)
  have wr: "writable_at env0 bl_path (bk_world [])" by (rule bk_world_writable) simp
  have "good_counters []" by (simp add: good_counters_def json_readable_def JSON_MAX_DEPTH_def)
  from rollbacks_counted [OF no_faults_env0 json_laws_env0 bk_world_utf8(1) wr st this, of 3]
  show ?thesis by (auto simp: rollback_count_def st counter_of_def)
qed

end
