(* ===== verification/Rollback.thy ===== *)
theory Rollback
  imports Blacklist
begin

text \<open>
  Snapshots and rollback of \<open>src/rollback.rs\<close>: taking a signed snapshot of the target files, verifying
  it, restoring every file through a temporary one, and the bookkeeping afterwards. Built for a Unix
  system.
\<close>

section \<open>Snapshot manifests\<close>

record file_entry =
  fe_path :: string
  fe_sha256 :: string
  fe_permissions :: u32
  fe_size_bytes :: u64

record snapshot_manifest =
  sm_version :: string
  sm_created_at :: string
  sm_files :: "file_entry list"
  sm_manifest_hmac :: string

text \<open>The text of a struct keeps the order of its fields; as a value the keys are ordered.\<close>

definition file_entry_fields :: "file_entry \<Rightarrow> (string \<times> json) list" where
  "file_entry_fields e =
     [(''path'', JString (fe_path e)), (''sha256'', JString (fe_sha256 e)),
      (''permissions'', jnat (ucast (fe_permissions e))), (''size_bytes'', jnat (fe_size_bytes e))]"

definition manifest_json :: "snapshot_manifest \<Rightarrow> json" where
  "manifest_json sm = JObject
     [(''version'', JString (sm_version sm)), (''created_at'', JString (sm_created_at sm)),
      (''files'', JArray (map (\<lambda>e. JObject (file_entry_fields e)) (sm_files sm))),
      (''manifest_hmac'', JString (sm_manifest_hmac sm))]"

definition unsigned_manifest :: "string \<Rightarrow> string \<Rightarrow> file_entry list \<Rightarrow> json" where
  "unsigned_manifest version created_at files = json_obj
     [(''version'', JString version), (''created_at'', JString created_at),
      (''files'', JArray (map (\<lambda>e. json_obj (file_entry_fields e)) files))]"

definition decode_file_entry :: "json \<Rightarrow> file_entry option" where
  "decode_file_entry v = Option.bind (as_struct [''path'', ''sha256'', ''permissions'', ''size_bytes''] v) (\<lambda>m.
     case (fld_string m ''path'', fld_string m ''sha256'', fld_u32 m ''permissions'', fld_u64 m ''size_bytes'') of
       (Some p, Some s, Some pm, Some sz) \<Rightarrow>
         Some \<lparr>fe_path = p, fe_sha256 = s, fe_permissions = pm, fe_size_bytes = sz\<rparr>
     | _ \<Rightarrow> None)"

definition decode_manifest :: "json \<Rightarrow> snapshot_manifest option" where
  "decode_manifest v = Option.bind (as_struct [''version'', ''created_at'', ''files'', ''manifest_hmac''] v) (\<lambda>m.
     case (fld_string m ''version'', fld_string m ''created_at'', fld_list m ''files'' decode_file_entry,
           fld_string m ''manifest_hmac'') of
       (Some v, Some c, Some fs, Some h) \<Rightarrow>
         Some \<lparr>sm_version = v, sm_created_at = c, sm_files = fs, sm_manifest_hmac = h\<rparr>
     | _ \<Rightarrow> None)"

section \<open>Paths\<close>

definition version_dir :: "path \<Rightarrow> string \<Rightarrow> path" where
  "version_dir backup_dir version = path_join backup_dir (parse_path (''v'' @ version))"

definition assert_path_under_parent :: "env \<Rightarrow> path \<Rightarrow> path \<Rightarrow> synqro_error + unit" where
  "assert_path_under_parent E path parent =
     (case strip_prefix path parent of
        None \<Rightarrow> Inl (InvalidInput (''Path traversal detected: '' @ e_debug_path E path @ '' is not under '' @ e_debug_path E parent))
      | Some relative \<Rightarrow>
          if ParentDir \<in> set relative
          then Inl (InvalidInput ''Path traversal: `..` component detected in relative path'')
          else Inr ())"

text \<open>\<open>canonical_json_sorted\<close> is the audit log's \<open>canonical_json\<close> once more.\<close>

definition canonical_json_sorted :: "env \<Rightarrow> json \<Rightarrow> synqro_error + string" where
  "canonical_json_sorted E value =
     (let sorted = sort_json_keys value in
      map_inl (\<lambda>e. Internal (''Canonical JSON failed: '' @ e)) (e_json_str E sorted))"

section \<open>take_snapshot\<close>

text \<open>One round of the loop over the target paths.\<close>

definition snapshot_file :: "env \<Rightarrow> path \<Rightarrow> path \<Rightarrow> ('z, file_entry) eio" where
  "snapshot_file E canonical_backup src_path =
     bindE (map_err (\<lambda>e. Permission (''Cannot canonicalize source path: '' @ e)) (canonicalize E src_path)) (\<lambda>canonical_src.
     bindE (lift_res (ok_or (InvalidInput ''Source path has no file name'') (file_name canonical_src))) (\<lambda>name.
     let dest_path = path_join canonical_backup [Normal name] in
     bindE (lift_res (assert_path_under_parent E dest_path canonical_backup)) (\<lambda>_.
     bindE (map_err (\<lambda>e. Permission (''Cannot read source file: '' @ e)) (fs_read E canonical_src)) (\<lambda>file_bytes.
     let sha256 = e_hex E (e_sha256 E file_bytes) in
     bindE (map_err (\<lambda>e. Permission (''Cannot stat file: '' @ e)) (metadata_mode E canonical_src)) (\<lambda>permissions.
     bindE (map_err (\<lambda>e. Permission (''Cannot write backup file: '' @ e)) (fs_write E dest_path file_bytes)) (\<lambda>_.
     ret \<lparr>fe_path = from_utf8_lossy name, fe_sha256 = sha256, fe_permissions = permissions,
          fe_size_bytes = of_nat (length file_bytes)\<rparr>))))))"

definition take_snapshot :: "env \<Rightarrow> string \<Rightarrow> path list \<Rightarrow> path \<Rightarrow> bytes \<Rightarrow> ('z, unit) eio" where
  "take_snapshot E version target_paths backup_dir hmac_key =
     bindE (map_err (\<lambda>e. Permission (''Cannot create backup dir: '' @ e)) (create_dir_all E 0x1C0 backup_dir)) (\<lambda>_.
     let vdir = version_dir backup_dir version in
     bindE (map_err (\<lambda>e. Permission (''Cannot create version backup dir: '' @ e)) (create_dir_all E 0x1C0 vdir)) (\<lambda>_.
     bindE (map_err (\<lambda>e. Permission (''Cannot canonicalize backup dir: '' @ e)) (canonicalize E vdir)) (\<lambda>canonical_backup.
     bindE (collect_each target_paths (snapshot_file E canonical_backup)) (\<lambda>file_entries.
     bindE (utc_now E) (\<lambda>now.
     let created_at = e_rfc3339 E now;
         unsigned = unsigned_manifest version created_at file_entries in
     bindE (lift_res (canonical_json_sorted E unsigned)) (\<lambda>canonical.
     bindE (lift_res (compute_hmac E hmac_key canonical)) (\<lambda>manifest_hmac.
     let manifest = \<lparr>sm_version = version, sm_created_at = created_at, sm_files = file_entries,
                     sm_manifest_hmac = manifest_hmac\<rparr>;
         manifest_path = path_join canonical_backup [Normal ''snapshot.json''] in
     bindE (lift_res (map_inl (\<lambda>e. Internal (''Manifest serialise failed: '' @ e)) (e_json_pretty E (manifest_json manifest)))) (\<lambda>manifest_bytes.
     map_err (\<lambda>e. Permission (''Cannot write snapshot.json: '' @ e)) (fs_write E manifest_path manifest_bytes)))))))))"

section \<open>start_watchdog\<close>

definition start_watchdog :: "env \<Rightarrow> u32 \<Rightarrow> u64 \<Rightarrow> u64 \<Rightarrow> ('z, unit) eio" where
  "start_watchdog E app_pid timeout grace = (\<lambda>w. case e_exe E of
      Inl e \<Rightarrow> (Inl (Internal (''Cannot determine current executable path: '' @ e)), w)
    | Inr exe \<Rightarrow>
        bindE (run_command E \<lparr>cmd_program = path_text exe,
             cmd_args = [''--watchdog'', ''--pid'', show_nat (unat app_pid), ''--timeout'', show_nat (unat timeout),
                         ''--grace'', show_nat (unat grace)], cmd_stdin = None\<rparr>)
          (\<lambda>r. case r of SpawnFailed e \<Rightarrow> fail (Internal (''Failed to spawn watchdog process: '' @ e)) | _ \<Rightarrow> ret ()) w)"

section \<open>rollback\<close>

text \<open>Step 1: the signature of the snapshot.\<close>

definition check_snapshot :: "env \<Rightarrow> bytes \<Rightarrow> snapshot_manifest \<Rightarrow> synqro_error + bool" where
  "check_snapshot E hmac_key manifest =
     (let unsigned = unsigned_manifest (sm_version manifest) (sm_created_at manifest) (sm_files manifest) in
      bind_res (canonical_json_sorted E unsigned) (\<lambda>canonical.
      bind_res (compute_hmac E hmac_key canonical) (\<lambda>expected_hmac.
      Inr (constant_time_eq expected_hmac (sm_manifest_hmac manifest)))))"

definition load_snapshot :: "env \<Rightarrow> string \<Rightarrow> path \<Rightarrow> bytes \<Rightarrow> audit_logger \<Rightarrow> ('z, snapshot_manifest) eio" where
  "load_snapshot E version vdir hmac_key audit =
     (let snapshot_path = path_join vdir [Normal ''snapshot.json''] in
      bindE (map_err (\<lambda>e. Rollback (''Cannot read snapshot.json: '' @ e)) (fs_read E snapshot_path)) (\<lambda>snapshot_bytes.
      bindE (lift_res (map_inl (\<lambda>e. Rollback (''Snapshot.json is not valid JSON: '' @ e))
               (json_typed E ''SnapshotManifest'' decode_manifest snapshot_bytes))) (\<lambda>manifest.
      bindE (lift_res (check_snapshot E hmac_key manifest)) (\<lambda>good.
      if \<not> good then
        bindE (ignore (audit_log E audit BackupTampered (json_obj [(''version'', JString version)]))) (\<lambda>_.
        fail (Rollback (''Snapshot HMAC invalid '' @ em_dash @ '' rollback aborted (backup tampered)'')))
      else ret manifest))))"

text \<open>Step 3: the verified bytes are put in place of the file of that name.\<close>

definition restore_temp :: "path \<Rightarrow> path" where
  "restore_temp dest = with_extension dest ''synqro_restore.tmp''"

definition restore_file :: "env \<Rightarrow> file_entry \<Rightarrow> bytes \<Rightarrow> ('z, unit) eio" where
  "restore_file E entry backup_bytes =
     (let dest = parse_path (fe_path entry); temp_dest = restore_temp dest in
      bindE (case path_parent dest of
               Some parent \<Rightarrow>
                 if parent \<noteq> [] then
                   map_err (\<lambda>e. Permission (''Cannot create parent dir for `'' @ fe_path entry @ ''`: '' @ e))
                     (create_dir_all E (e_mkdir_mode E) parent)
                 else ret ()
             | None \<Rightarrow> ret ()) (\<lambda>_.
      bindE (bindE (map_err (\<lambda>e. Rollback (''Cannot write restore temp for `'' @ fe_path entry @ ''`: '' @ e))
               (fs_write E temp_dest backup_bytes)) (\<lambda>_.
             map_err (\<lambda>e. Permission (''Cannot set permissions on `'' @ fe_path entry @ ''`: '' @ e))
               (set_mode E temp_dest (fe_permissions entry)))) (\<lambda>_.
      publish E temp_dest dest (\<lambda>e. Rollback (''Atomic rename failed for `'' @ fe_path entry @ ''`: '' @ e)))))"

text \<open>Steps 2 and 3 for one file.\<close>

definition restore_entry :: "env \<Rightarrow> string \<Rightarrow> path \<Rightarrow> audit_logger \<Rightarrow> file_entry \<Rightarrow> ('z, unit) eio" where
  "restore_entry E version canonical_backup audit entry =
     (let backup_file = path_join canonical_backup (parse_path (fe_path entry)) in
      bindE (lift_res (assert_path_under_parent E backup_file canonical_backup)) (\<lambda>_.
      bindE (map_err (\<lambda>e. Rollback (''Cannot read backup file `'' @ fe_path entry @ ''`: '' @ e)) (fs_read E backup_file)) (\<lambda>backup_bytes.
      let actual_sha256 = e_hex E (e_sha256 E backup_bytes) in
      if \<not> constant_time_eq actual_sha256 (fe_sha256 entry) then
        bindE (ignore (audit_log E audit BackupTampered (json_obj
          [(''version'', JString version), (''file'', JString (fe_path entry)),
           (''expected'', JString (fe_sha256 entry)), (''actual'', JString actual_sha256)]))) (\<lambda>_.
        fail (Rollback (''Backup file `'' @ fe_path entry @ ''` SHA-256 mismatch '' @ em_dash @ '' backup tampered'')))
      else restore_file E entry backup_bytes)))"

text \<open>Steps 4 and 5.\<close>

definition after_restore :: "env \<Rightarrow> string \<Rightarrow> path \<Rightarrow> bytes \<Rightarrow> audit_logger \<Rightarrow> nat \<Rightarrow> ('z, unit) eio" where
  "after_restore E version backup_dir hmac_key audit file_count =
     bindE (utc_now E) (\<lambda>now.
     bindE (audit_log E audit RollbackSuccess (json_obj
       [(''version'', JString version), (''file_count'', jnat (of_nat file_count)), (''ts'', JString (e_rfc3339 E now))])) (\<lambda>_.
     let counter_path = path_join backup_dir [Normal ''rollback_counters.json''] in
     bindE (increment_rollback_counter E version counter_path) (\<lambda>new_count.
     if new_count \<ge> 3 then
       blacklist_version E version (path_join backup_dir [Normal ''blacklist.json'']) hmac_key audit
     else ret ())))"

definition rollback :: "env \<Rightarrow> string \<Rightarrow> path \<Rightarrow> bytes \<Rightarrow> audit_logger \<Rightarrow> ('z, unit) eio" where
  "rollback E version backup_dir hmac_key audit =
     (let vdir = version_dir backup_dir version in
      bindE (load_snapshot E version vdir hmac_key audit) (\<lambda>manifest.
      bindE (map_err (\<lambda>e. Permission (''Cannot canonicalize backup dir: '' @ e)) (canonicalize E vdir)) (\<lambda>canonical_backup.
      bindE (for_each (sm_files manifest) (restore_entry E version canonical_backup audit)) (\<lambda>_.
      after_restore E version backup_dir hmac_key audit (length (sm_files manifest))))))"

section \<open>What restoring one file can touch\<close>

definition restore_target :: "env \<Rightarrow> file_entry \<Rightarrow> names" where
  "restore_target E e = resolve E (parse_path (fe_path e))"

definition restore_dirs :: "env \<Rightarrow> file_entry \<Rightarrow> names set" where
  "restore_dirs E e = (case path_parent (parse_path (fe_path e)) of
      Some parent \<Rightarrow> if parent \<noteq> [] then set (prefixes (resolve E parent)) else {}
    | None \<Rightarrow> {})"

definition restore_scratch :: "env \<Rightarrow> file_entry \<Rightarrow> names set" where
  "restore_scratch E e = insert (resolve E (restore_temp (parse_path (fe_path e)))) (restore_dirs E e)"

definition names_file :: "file_entry \<Rightarrow> bool" where
  "names_file e \<longleftrightarrow> file_name (parse_path (fe_path e)) \<noteq> None"

lemma file_name_split: "file_name p = Some s \<Longrightarrow> p = butlast p @ [Normal s]"
  by (cases p rule: rev_cases) (auto simp: file_name_def split: comp.splits)

lemma restore_temp_eq: "file_name p = Some s \<Longrightarrow> restore_temp p = butlast p @ [Normal (stem s @ ''.synqro_restore.tmp'')]"
  by (simp add: restore_temp_def with_extension_def)

lemma resolve_snoc: "resolve E (p @ [Normal s]) = resolve E p @ [s]"
  by (simp add: resolve_def resolve_from_append)

lemma restore_target_not_scratch:
  assumes "names_file e"
  shows "restore_target E e \<notin> restore_scratch E e"
proof -
  let ?p = "parse_path (fe_path e)"
  from assms obtain s where s: "file_name ?p = Some s" by (auto simp: names_file_def)
  then have p: "?p = butlast ?p @ [Normal s]" by (rule file_name_split)
  have t: "restore_target E e = resolve E (butlast ?p) @ [s]"
    unfolding restore_target_def by (subst p) (rule resolve_snoc)
  have "restore_target E e \<noteq> resolve E (restore_temp ?p)"
    using with_extension_other_name [of "''synqro_restore.tmp''" s]
    unfolding restore_temp_eq [OF s] resolve_snoc t by simp
  moreover have "restore_target E e \<notin> restore_dirs E e"
    unfolding restore_dirs_def t
    by (cases "?p = []") (auto simp: path_parent_def split: if_splits dest!: prefix_length_le)
  ultimately show ?thesis by (simp add: restore_scratch_def)
qed

text \<open>The middle of \<open>restore_file\<close>: the temporary file with its content and mode.\<close>

definition fill_restore_temp :: "env \<Rightarrow> file_entry \<Rightarrow> bytes \<Rightarrow> ('z, unit) eio" where
  "fill_restore_temp E entry b =
     bindE (map_err (\<lambda>e. Rollback (''Cannot write restore temp for `'' @ fe_path entry @ ''`: '' @ e))
       (fs_write E (restore_temp (parse_path (fe_path entry))) b)) (\<lambda>_.
     map_err (\<lambda>e. Permission (''Cannot set permissions on `'' @ fe_path entry @ ''`: '' @ e))
       (set_mode E (restore_temp (parse_path (fe_path entry))) (fe_permissions entry)))"

definition make_parents :: "env \<Rightarrow> file_entry \<Rightarrow> ('z, unit) eio" where
  "make_parents E entry = (case path_parent (parse_path (fe_path entry)) of
     Some parent \<Rightarrow>
       if parent \<noteq> [] then
         map_err (\<lambda>e. Permission (''Cannot create parent dir for `'' @ fe_path entry @ ''`: '' @ e))
           (create_dir_all E (e_mkdir_mode E) parent)
       else ret ()
   | None \<Rightarrow> ret ())"

lemma restore_file_eq:
  "restore_file E e b = bindE (make_parents E e) (\<lambda>_. bindE (fill_restore_temp E e b) (\<lambda>_.
     publish E (restore_temp (parse_path (fe_path e))) (parse_path (fe_path e))
       (\<lambda>m. Rollback (''Atomic rename failed for `'' @ fe_path e @ ''`: '' @ m))))"
  by (simp add: restore_file_def make_parents_def fill_restore_temp_def Let_def)

lemma steps_make_parents: "steps (fs_only (restore_dirs E e)) (make_parents E e)"
  unfolding make_parents_def restore_dirs_def by (auto intro!: steps_intro split: option.splits)

lemma steps_fill_restore_temp:
  "resolve E (restore_temp (parse_path (fe_path e))) \<in> S \<Longrightarrow> steps (fs_only S) (fill_restore_temp E e b)"
  unfolding fill_restore_temp_def by (auto intro!: steps_intro)

lemma fill_restore_temp_Inr:
  "fill_restore_temp E e b w = (Inr x, w') \<Longrightarrow> file_at w' (resolve E (restore_temp (parse_path (fe_path e)))) = Some b"
proof -
  let ?ns = "resolve E (restore_temp (parse_path (fe_path e)))"
  assume "fill_restore_temp E e b w = (Inr x, w')"
  then obtain u w1 where "fs_write E (restore_temp (parse_path (fe_path e))) b w = (Inr u, w1)"
    "set_mode E (restore_temp (parse_path (fe_path e))) (fe_permissions e) w1 = (Inr x, w')"
    by (auto simp: fill_restore_temp_def run_iff)
  then show "file_at w' ?ns = Some b" using fs_write_file_at set_mode_Inr by metis
qed

lemma steps_restore_file:
  "steps (fs_only (insert (restore_target E e) (restore_scratch E e))) (restore_file E e b)"
  unfolding restore_file_eq restore_target_def restore_scratch_def
  by (intro steps_bindE preorder_fs_only steps_fs_only_mono [OF steps_make_parents] steps_fill_restore_temp steps_publish) auto

lemma restore_file_outcome:
  assumes "names_file e" and run: "restore_file E e b w = (r, w')"
  shows "file_at w' (restore_target E e) \<in> {file_at w (restore_target E e), Some b}"
    and "r = Inr x \<Longrightarrow> file_at w' (restore_target E e) = Some b"
proof -
  let ?temp = "restore_temp (parse_path (fe_path e))"
  note sep = restore_target_not_scratch [OF assms(1), of E]
  obtain q w1 where m: "make_parents E e w = (q, w1)" by fastforce
  have same: "file_at w1 (restore_target E e) = file_at w (restore_target E e)"
    using fs_only_file_at [OF stepsD [OF steps_make_parents m]] sep by (auto simp: restore_scratch_def)
  have ne: "resolve E ?temp \<noteq> resolve E (parse_path (fe_path e))"
    using sep by (auto simp: restore_scratch_def restore_target_def)
  have both: "file_at w' (restore_target E e) \<in> {file_at w (restore_target E e), Some b} \<and>
        (\<forall>x. r = Inr x \<longrightarrow> file_at w' (restore_target E e) = Some b)"
  proof (cases q)
    case (Inl err)
    with run m same show ?thesis by (auto simp: restore_file_eq bindE_def)
  next
    case (Inr u)
    with run m have rest: "bindE (fill_restore_temp E e b) (\<lambda>_. publish E ?temp (parse_path (fe_path e))
         (\<lambda>m. Rollback (''Atomic rename failed for `'' @ fe_path e @ ''`: '' @ m))) w1 = (r, w')"
      unfolding restore_file_eq by (simp add: bindE_def [where m = "make_parents E e"])
    have fr: "steps (fs_only {resolve E ?temp}) (fill_restore_temp E e b)" by (rule steps_fill_restore_temp) simp
    have fin: "\<And>x v. fill_restore_temp E e b w1 = (Inr x, v) \<Longrightarrow> file_at v (resolve E ?temp) = Some b"
      by (rule fill_restore_temp_Inr)
    note out = prepare_publish [OF rest fr fin ne]
    from out(1) out(2) same show ?thesis by (auto simp: restore_target_def)
  qed
  from both show "file_at w' (restore_target E e) \<in> {file_at w (restore_target E e), Some b}" by simp
  from both show "r = Inr x \<Longrightarrow> file_at w' (restore_target E e) = Some b" by simp
qed

record restore_item =
  ri_env :: env
  ri_entry :: file_entry
  ri_bytes :: bytes

interpretation restore: atomic_replace
  "\<lambda>i. restore_file (ri_env i) (ri_entry i) (ri_bytes i)" "\<lambda>i. names_file (ri_entry i)"
  "\<lambda>i. restore_target (ri_env i) (ri_entry i)" ri_bytes "\<lambda>i. restore_scratch (ri_env i) (ri_entry i)"
  by unfold_locales (auto intro: steps_restore_file dest: restore_file_outcome(1) restore_file_outcome(2))

text \<open>Restoring one entry: the file it names keeps its content or gets bytes with the recorded digest.\<close>

definition has_digest :: "env \<Rightarrow> file_entry \<Rightarrow> bytes \<Rightarrow> bool" where
  "has_digest E e b \<longleftrightarrow> e_hex E (e_sha256 E b) = fe_sha256 e"

definition backup_path :: "path \<Rightarrow> file_entry \<Rightarrow> path" where
  "backup_path cb e = path_join cb (parse_path (fe_path e))"

lemma steps_restore_entry:
  "steps (fs_only (insert (al_file lg) (insert (restore_target E e) (restore_scratch E e)))) (restore_entry E v cb lg e)"
proof -
  have f: "steps (fs_only (insert (al_file lg) (insert (restore_target E e) (restore_scratch E e)))) (restore_file E e b)" for b
    by (rule steps_fs_only_mono [OF steps_restore_file]) auto
  have l: "steps (fs_only (insert (al_file lg) (insert (restore_target E e) (restore_scratch E e)))) (audit_log E lg ev d)" for ev d
    by (rule steps_fs_only_mono [OF steps_audit_log]) auto
  show ?thesis
    unfolding restore_entry_def Let_def by (intro steps_intro preorder_fs_only f l)
qed

lemma fs_read_fs: "fs_read E p w = (r, w') \<Longrightarrow> w_fs w' = w_fs w"
  by (auto simp: fs_read_def Let_def sys_def no_effect_def split: option.splits node.splits)

lemma restore_entry_cases:
  assumes "restore_entry E v cb lg e w = (r, w')"
  obtains (refused) m where "r = Inl m" "\<forall>q. q \<noteq> al_file lg \<longrightarrow> file_at w' q = file_at w q"
  | (restored) b w1 where "file_at w (resolve E (backup_path cb e)) = Some b" "has_digest E e b"
      "restore_file E e b w1 = (r, w')" "w_fs w1 = w_fs w"
proof (cases "assert_path_under_parent E (backup_path cb e) cb")
  case (Inl m)
  with assms show ?thesis
    by (intro refused [of m]) (auto simp: restore_entry_def backup_path_def bindE_def lift_res_def)
next
  case (Inr u)
  obtain q w1 where rd: "fs_read E (backup_path cb e) w = (q, w1)" by fastforce
  note fs = fs_read_fs [OF rd]
  show ?thesis
  proof (cases q)
    case (Inl m)
    with assms rd \<open>assert_path_under_parent E (backup_path cb e) cb = Inr u\<close> fs show ?thesis
      by (intro refused [of "Rollback (''Cannot read backup file `'' @ fe_path e @ ''`: '' @ m)"])
         (auto simp: restore_entry_def backup_path_def bindE_def lift_res_def map_err_def file_at_def)
  next
    case rdok: (Inr b)
    note pre = assms rd Inr rdok
    show ?thesis
    proof (cases "has_digest E e b")
      case True
      with pre have "restore_file E e b w1 = (r, w')"
        by (simp add: restore_entry_def backup_path_def bindE_def lift_res_def map_err_def has_digest_def)
      with fs_read_Inr(1) [of E "backup_path cb e" w b w1] rd rdok True fs show ?thesis by (intro restored [of b w1]) auto
    next
      case False
      let ?log = "audit_log E lg BackupTampered (json_obj
          [(''version'', JString v), (''file'', JString (fe_path e)),
           (''expected'', JString (fe_sha256 e)), (''actual'', JString (e_hex E (e_sha256 E b)))])"
      from False pre have "r = Inl (Rollback (''Backup file `'' @ fe_path e @ ''` SHA-256 mismatch '' @ em_dash @ '' backup tampered''))"
        and w': "w' = snd (?log w1)"
        by (auto simp: restore_entry_def backup_path_def bindE_def lift_res_def map_err_def has_digest_def ignore_def fail_def)
      moreover have "file_at w' q = file_at w q" if "q \<noteq> al_file lg" for q
      proof -
        have "file_at w' q = file_at w1 q"
          unfolding w' by (rule fs_only_file_at [OF steps_snd [OF steps_audit_log]]) (use that in auto)
        with fs show ?thesis by (simp add: file_at_def)
      qed
      ultimately show ?thesis by (intro refused) auto
    qed
  qed
qed

lemma restore_entry_outcome:
  assumes "names_file e" "restore_entry E v cb lg e w = (r, w')" "q \<notin> restore_scratch E e" "q \<noteq> al_file lg"
  shows "file_at w' q = file_at w q \<or>
         q = restore_target E e \<and> (\<exists>b. file_at w (resolve E (backup_path cb e)) = Some b \<and> file_at w' q = Some b \<and> has_digest E e b)"
  using assms(2)
proof (cases rule: restore_entry_cases)
  case (refused m)
  with assms(4) show ?thesis by simp
next
  case (restored b w1)
  have "file_at w1 q = file_at w q" using restored(4) by (simp add: file_at_def)
  with restored restore_file_outcome(1) [OF assms(1) restored(3)]
    fs_only_file_at [OF stepsD [OF steps_restore_file restored(3)], of q] assms(3)
  show ?thesis by (cases "q = restore_target E e") auto
qed

lemma restore_entry_done:
  assumes "names_file e" "restore_entry E v cb lg e w = (Inr x, w')"
  shows "\<exists>b. file_at w (resolve E (backup_path cb e)) = Some b \<and> has_digest E e b \<and> file_at w' (restore_target E e) = Some b"
  using assms(2)
proof (cases rule: restore_entry_cases)
  case (restored b w1)
  with restore_file_outcome(2) [OF assms(1) restored(3)] show ?thesis by auto
qed simp

section \<open>The loop\<close>

lemma restore_all_outcome:
  assumes "for_each es (restore_entry E v cb lg) w = (r, w')" "\<forall>e \<in> set es. names_file e"
    and "\<forall>e \<in> set es. q \<notin> restore_scratch E e" "q \<noteq> al_file lg"
  shows "file_at w' q = file_at w q \<or>
         (\<exists>e \<in> set es. q = restore_target E e \<and> (\<exists>b. file_at w' q = Some b \<and> has_digest E e b))"
  using assms(1-3)
proof (induction es arbitrary: w)
  case Nil
  then show ?case by (simp add: ret_def)
next
  case (Cons e es)
  obtain p w1 where p: "restore_entry E v cb lg e w = (p, w1)" by fastforce
  have first: "file_at w1 q = file_at w q \<or> q = restore_target E e \<and> (\<exists>b. file_at w1 q = Some b \<and> has_digest E e b)"
    using restore_entry_outcome [OF _ p, of q] Cons.prems(2,3) assms(4) by auto
  show ?case
  proof (cases p)
    case (Inl m)
    with Cons.prems(1) p have "w' = w1" by (auto simp: bindE_def)
    with first show ?thesis by auto
  next
    case (Inr u)
    with Cons.prems(1) p have "for_each es (restore_entry E v cb lg) w1 = (r, w')" by (simp add: bindE_def)
    from Cons.IH [OF this] Cons.prems(2,3) first show ?thesis by auto
  qed
qed

text \<open>When the loop succeeds, every file named by one entry only has the verified content of its
  backup; backups are not disturbed by the loop when they lie elsewhere.\<close>

definition apart :: "env \<Rightarrow> path \<Rightarrow> audit_logger \<Rightarrow> file_entry list \<Rightarrow> bool" where
  "apart E cb lg es \<longleftrightarrow>
     distinct (map (restore_target E) es) \<and>
     (\<forall>e \<in> set es. names_file e \<and> restore_target E e \<noteq> al_file lg \<and> resolve E (backup_path cb e) \<noteq> al_file lg \<and>
        (\<forall>d \<in> set es. restore_target E e \<notin> restore_scratch E d \<and>
           resolve E (backup_path cb e) \<notin> insert (restore_target E d) (restore_scratch E d)))"

lemma apart_Cons: "apart E cb lg (e # es) \<Longrightarrow> apart E cb lg es"
  by (auto simp: apart_def)

lemma restore_all_done:
  assumes "for_each es (restore_entry E v cb lg) w = (Inr x, w')" "apart E cb lg es" "e \<in> set es"
  shows "\<exists>b. file_at w (resolve E (backup_path cb e)) = Some b \<and> has_digest E e b \<and> file_at w' (restore_target E e) = Some b"
  using assms
proof (induction es arbitrary: w)
  case (Cons d es)
  from Cons.prems(1) obtain u w1 where p: "restore_entry E v cb lg d w = (Inr u, w1)"
    and rest: "for_each es (restore_entry E v cb lg) w1 = (Inr x, w')" by (auto simp: run_iff)
  note ap = Cons.prems(2)
  show ?case
  proof (cases "e \<in> set es")
    case True
    have "file_at w1 (resolve E (backup_path cb e)) = file_at w (resolve E (backup_path cb e))"
      using True ap by (intro fs_only_file_at [OF stepsD [OF steps_restore_entry p]]) (auto simp: apart_def)
    with Cons.IH [OF rest apart_Cons [OF ap] True] show ?thesis by simp
  next
    case False
    with Cons.prems(3) have e: "e = d" by simp
    from restore_entry_done [OF _ p] ap obtain b where
      b: "file_at w (resolve E (backup_path cb d)) = Some b" "has_digest E d b" "file_at w1 (restore_target E d) = Some b"
      by (auto simp: apart_def)
    have "file_at w' (restore_target E d) = file_at w1 (restore_target E d)"
    proof -
      have "\<forall>f \<in> set es. names_file f" "\<forall>f \<in> set es. restore_target E d \<notin> restore_scratch E f"
        "restore_target E d \<noteq> al_file lg" "restore_target E d \<notin> restore_target E ` set es"
        using ap by (auto simp: apart_def)
      with restore_all_outcome [OF rest, of "restore_target E d"] show ?thesis by auto
    qed
    with b e show ?thesis by auto
  qed
qed simp

section \<open>The signed snapshot\<close>

definition manifest_body :: "snapshot_manifest \<Rightarrow> json" where
  "manifest_body sm = unsigned_manifest (sm_version sm) (sm_created_at sm) (sm_files sm)"

definition snapshot_accepted :: "env \<Rightarrow> bytes \<Rightarrow> snapshot_manifest \<Rightarrow> bool" where
  "snapshot_accepted E key sm \<longleftrightarrow> check_snapshot E key sm = Inr True"

lemma canonical_json_sorted_eq: "canonical_json_sorted = canonical_json"
  by (simp add: fun_eq_iff canonical_json_sorted_def canonical_json_def)

lemma check_snapshot_seal:
  "check_snapshot E key sm = map_inl (\<lambda>e. e) (bind_res (seal E key (manifest_body sm)) (\<lambda>t. Inr (t = sm_manifest_hmac sm)))"
  by (cases "canonical_json E (manifest_body sm)"; cases "compute_hmac E key (projr (canonical_json E (manifest_body sm)))")
     (auto simp: check_snapshot_def seal_def manifest_body_def canonical_json_sorted_eq Let_def)

interpretation snapshot: sealed_record manifest_body sm_manifest_hmac snapshot_accepted
  by unfold_locales (auto simp: snapshot_accepted_def check_snapshot_seal run_iff)

definition snapshot_path :: "path \<Rightarrow> string \<Rightarrow> path" where
  "snapshot_path bd v = path_join (version_dir bd v) [Normal ''snapshot.json'']"

definition stored_snapshot :: "env \<Rightarrow> path \<Rightarrow> string \<Rightarrow> 'z world_scheme \<Rightarrow> snapshot_manifest option" where
  "stored_snapshot E bd v w =
     (case file_at w (resolve E (snapshot_path bd v)) of None \<Rightarrow> None
      | Some b \<Rightarrow> (case json_typed E ''SnapshotManifest'' decode_manifest b of Inl _ \<Rightarrow> None | Inr sm \<Rightarrow> Some sm))"

lemma load_snapshot_same:
  assumes "load_snapshot E v (version_dir bd v) key lg w = (r, w')" "q \<noteq> al_file lg"
  shows "w_fs w' q = w_fs w q"
proof -
  have "steps (fs_only {al_file lg}) (load_snapshot E v (version_dir bd v) key lg)"
    unfolding load_snapshot_def Let_def by (intro steps_intro preorder_fs_only)
  from fs_only_same [OF stepsD [OF this assms(1)]] assms(2) show ?thesis by simp
qed

lemma load_snapshot_Inr:
  assumes "load_snapshot E v (version_dir bd v) key lg w = (Inr sm, w')"
  shows "stored_snapshot E bd v w = Some sm" and "snapshot_accepted E key sm" and "w_fs w' = w_fs w"
proof -
  from assms obtain b w1 where rd: "fs_read E (snapshot_path bd v) w = (Inr b, w1)"
    and ty: "json_typed E ''SnapshotManifest'' decode_manifest b = Inr sm"
    and ck: "check_snapshot E key sm = Inr True" and w': "w' = w1"
    by (auto simp: load_snapshot_def run_iff snapshot_path_def split: if_splits)
  from fs_read_Inr(1) [OF rd] ty show "stored_snapshot E bd v w = Some sm" by (simp add: stored_snapshot_def)
  from ck show "snapshot_accepted E key sm" by (simp add: snapshot_accepted_def)
  from fs_read_fs [OF rd] w' show "w_fs w' = w_fs w" by simp
qed

lemma load_snapshot_refused:
  assumes "load_snapshot E v (version_dir bd v) key lg w = (r, w')"
    and "stored_snapshot E bd v w = Some sm" "check_snapshot E key sm = Inr False"
  shows "\<exists>m. r = Inl (Rollback m)"
proof -
  obtain q w1 where rd: "fs_read E (snapshot_path bd v) w = (q, w1)" by fastforce
  show ?thesis
  proof (cases q)
    case (Inl e)
    with assms(1) rd show ?thesis
      by (auto simp: load_snapshot_def Let_def bindE_def map_err_def snapshot_path_def)
  next
    case (Inr b)
    with rd have "file_at w (resolve E (snapshot_path bd v)) = Some b" using fs_read_Inr(1) by blast
    with assms(2) have "json_typed E ''SnapshotManifest'' decode_manifest b = Inr sm"
      by (auto simp: stored_snapshot_def split: sum.splits)
    with assms(1,3) rd Inr show ?thesis
      by (auto simp: load_snapshot_def Let_def bindE_def map_err_def lift_res_def ignore_def fail_def snapshot_path_def)
  qed
qed

section \<open>The bookkeeping\<close>

definition books :: "env \<Rightarrow> path \<Rightarrow> audit_logger \<Rightarrow> names set" where
  "books E bd lg = insert (al_file lg) (range (\<lambda>n. resolve E bd @ [n]))"

lemma resolve_join_name: "resolve E (path_join p [Normal s]) = resolve E p @ [s]"
  by (simp add: path_join_normal resolve_snoc)

lemma parent_join_name: "parent_or_dot (path_join p [Normal s]) = p"
  by (simp add: path_join_normal parent_or_dot_def path_parent_def)

lemma books_json:
  "resolve E (path_join bd [Normal s]) \<in> books E bd lg" "json_temps E (path_join bd [Normal s]) \<subseteq> books E bd lg"
  "al_file lg \<in> books E bd lg"
  by (auto simp: books_def resolve_join_name json_temps_def parent_join_name)

lemma steps_increment:
  "resolve E p \<in> S \<Longrightarrow> json_temps E p \<subseteq> S \<Longrightarrow> steps (fs_only S) (increment_rollback_counter E v p)"
proof -
  assume S: "resolve E p \<in> S" "json_temps E p \<subseteq> S"
  have main: "steps (fs_only S) (bindE (if b then
              bindE (map_err (\<lambda>e. Internal (''Cannot read rollback counters: '' @ e)) (fs_read E p)) (\<lambda>bytes.
              lift_res (map_inl (\<lambda>e. Internal (''Rollback counters JSON parse error: '' @ e))
                (json_map E bytes)))
            else ret []) (\<lambda>counters.
          let next = sat_add (counter_of counters v) 1;
              counters = bt_insert v (jnat (ucast next)) counters in
          bindE (write_json_atomic E p (JObject counters)) (\<lambda>_. ret next)))" for b
    unfolding Let_def by (intro steps_intro steps_write_json_atomic S preorder_fs_only)
  show ?thesis
    unfolding steps_def increment_rollback_counter_def by (intro allI) (rule steps_snd [OF main])
qed

lemma steps_load_blacklist: "steps (fs_only S) (load_blacklist_raw E p key)"
  unfolding load_blacklist_raw_def by (intro steps_intro preorder_fs_only)

lemma steps_blacklist_version:
  "resolve E p \<in> S \<Longrightarrow> json_temps E p \<subseteq> S \<Longrightarrow> al_file lg \<in> S \<Longrightarrow> steps (fs_only S) (blacklist_version E v p key lg)"
  unfolding blacklist_version_def Let_def
  by (intro steps_bindE steps_attempt steps_load_blacklist steps_lift_res steps_write_json_atomic preorder_fs_only
      steps_fs_only_mono [OF steps_audit_log]) auto

lemma steps_after_restore: "steps (fs_only (books E bd lg)) (after_restore E v bd key lg n)"
  unfolding after_restore_def Let_def
  by (intro steps_bindE steps_utc_now steps_if steps_ret steps_increment steps_blacklist_version books_json preorder_fs_only
      steps_fs_only_mono [OF steps_audit_log]) (auto simp: books_def)

lemma canonicalize_Inr:
  "canonicalize E p w = (Inr cb, w') \<Longrightarrow> cb = abs_path (resolve E p) \<and> w_fs w' = w_fs w"
  by (auto simp: canonicalize_def Let_def dest!: sys_Inr split: if_splits)

lemma canonicalize_fs: "canonicalize E p w = (r, w') \<Longrightarrow> w_fs w' = w_fs w"
  by (auto simp: canonicalize_def Let_def sys_def no_effect_def split: option.splits if_splits)

text \<open>The three ways a rollback can go.\<close>

lemma rollback_cases:
  assumes "rollback E v bd key lg w = (r, w')"
  obtains (not_loaded) m where "r = Inl m" "load_snapshot E v (version_dir bd v) key lg w = (Inl m, w')"
  | (no_dir) m where "r = Inl m" "w_fs w' = w_fs w"
  | (loop) sm w1 q w2 where "stored_snapshot E bd v w = Some sm" "snapshot_accepted E key sm" "w_fs w1 = w_fs w"
      "for_each (sm_files sm) (restore_entry E v (abs_path (resolve E (version_dir bd v))) lg) w1 = (q, w2)"
      "case q of Inl m \<Rightarrow> r = Inl m \<and> w' = w2
       | Inr _ \<Rightarrow> after_restore E v bd key lg (length (sm_files sm)) w2 = (r, w')"
proof -
  obtain l w0 where ld: "load_snapshot E v (version_dir bd v) key lg w = (l, w0)" by fastforce
  show ?thesis
  proof (cases l)
    case (Inl m)
    with assms ld show ?thesis by (intro not_loaded [of m]) (auto simp: rollback_def Let_def bindE_def)
  next
    case sm: (Inr sm)
    obtain c w1 where cn: "canonicalize E (version_dir bd v) w0 = (c, w1)" by fastforce
    have fs: "w_fs w1 = w_fs w" using canonicalize_fs [OF cn] load_snapshot_Inr(3) ld sm by metis
    show ?thesis
    proof (cases c)
      case (Inl m)
      with assms ld sm cn fs show ?thesis
        by (intro no_dir) (auto simp: rollback_def Let_def bindE_def map_err_def)
    next
      case (Inr cb)
      with cn have cb: "cb = abs_path (resolve E (version_dir bd v))" using canonicalize_Inr by blast
      obtain q w2 where lp: "for_each (sm_files sm) (restore_entry E v cb lg) w1 = (q, w2)" by fastforce
      have "case q of Inl m \<Rightarrow> r = Inl m \<and> w' = w2
         | Inr _ \<Rightarrow> after_restore E v bd key lg (length (sm_files sm)) w2 = (r, w')"
        using assms ld sm cn Inr lp by (cases q) (auto simp: rollback_def Let_def bindE_def map_err_def)
      with loop load_snapshot_Inr(1,2) [of E v bd key lg w sm w0] ld sm fs lp cb show ?thesis by blast
    qed
  qed
qed

section \<open>Confinement\<close>

text \<open>Below a directory, above it, or beside it.\<close>

definition near :: "names \<Rightarrow> names set" where
  "near base = {q. prefix base q \<or> prefix q base}"

definition beside :: "names \<Rightarrow> names set" where
  "beside base = range (\<lambda>s. butlast base @ [s])"

lemma no_parent_below:
  "ParentDir \<notin> set p \<Longrightarrow> RootDir \<notin> set p \<Longrightarrow> prefix d (resolve_from d p)"
  using resolve_no_parent by (metis prefixI)

lemma prefixes_near: "prefix base q \<Longrightarrow> set (prefixes q) \<subseteq> near base"
  by (auto simp: near_def dest: prefix_same_cases)

text \<open>A path below a base, its temporary name and its parent directories are near the base.\<close>

lemma below_near:
  assumes "ParentDir \<notin> set r" "RootDir \<notin> set r"
  shows "resolve_from d r \<in> near d" and "resolve_from d (butlast r @ [Normal s]) \<in> near d"
    and "set (prefixes (resolve_from d (butlast r))) \<subseteq> near d"
proof -
  have "ParentDir \<notin> set (butlast r)" "RootDir \<notin> set (butlast r)"
    using assms by (auto dest: in_set_butlastD)
  then have "prefix d (resolve_from d (butlast r))" by (rule no_parent_below)
  then show "resolve_from d (butlast r @ [Normal s]) \<in> near d" "set (prefixes (resolve_from d (butlast r))) \<subseteq> near d"
    by (auto simp: resolve_from_append near_def intro: prefix_order.trans dest: prefix_same_cases)
  show "resolve_from d r \<in> near d" using no_parent_below [OF assms] by (simp add: near_def)
qed

lemma parse_root: "RootDir \<in> set (parse_path s) \<Longrightarrow> is_absolute (parse_path s)"
  using root_only_first [of s] by (cases "parse_path s") (auto simp: is_absolute_def)

lemma assert_ok:
  "assert_path_under_parent E p parent = Inr u \<longleftrightarrow> (\<exists>r. p = parent @ r \<and> ParentDir \<notin> set r)"
  by (auto simp: assert_path_under_parent_def strip_prefix_Some split: option.splits if_splits)
     (metis option.distinct(1) strip_prefix_Some)+

lemma restore_confined:
  assumes "assert_path_under_parent E (backup_path (abs_path vns) e) (abs_path vns) = Inr u"
  shows "insert (restore_target E e) (restore_scratch E e) \<subseteq> near (e_cwd E) \<union> near vns \<union> beside vns"
proof -
  let ?p = "parse_path (fe_path e)"
  from assms obtain r where r: "backup_path (abs_path vns) e = abs_path vns @ r" "ParentDir \<notin> set r"
    by (auto simp: assert_ok)
  have scratch: "insert (restore_target E e) (restore_scratch E e) \<subseteq> near base"
    if "\<And>s. resolve E (butlast ?p @ [Normal s]) \<in> near base" "resolve E ?p \<in> near base"
      "set (prefixes (resolve E (butlast ?p))) \<subseteq> near base" for base
    using that by (auto simp: restore_target_def restore_scratch_def restore_temp_def with_extension_def restore_dirs_def
        path_parent_def split: option.splits if_splits)
  show ?thesis
  proof (cases "is_absolute ?p")
    case True
    then have p: "?p = RootDir # map Normal vns @ r"
      using r(1) by (simp add: backup_path_def path_join_def abs_path_def)
    then have "RootDir \<notin> set r" using root_only_first [of "fe_path e"] by (simp del: set_map)
    note below = below_near [OF r(2) this, of vns]
    have res: "resolve E (RootDir # map Normal vns @ x) = resolve_from vns x" for x
      by (simp add: resolve_def resolve_from_append resolve_from_normals)
    show ?thesis
    proof (cases "r = []")
      case False
      then have b: "butlast ?p = RootDir # map Normal vns @ butlast r" by (simp add: p butlast_append)
      have "insert (restore_target E e) (restore_scratch E e) \<subseteq> near vns"
        by (rule scratch) (use below in \<open>simp_all add: b res, simp_all add: p res\<close>)
      then show ?thesis by blast
    next
      case True
      show ?thesis
      proof (cases "vns = []")
        case True
        with p \<open>r = []\<close> have "?p = [RootDir]" by simp
        then have "insert (restore_target E e) (restore_scratch E e) \<subseteq> {[]}"
          by (simp add: restore_target_def restore_scratch_def restore_temp_def with_extension_def restore_dirs_def
              path_parent_def file_name_def resolve_def)
        then show ?thesis by (auto simp: near_def)
      next
        case False
        with p True have b: "butlast ?p = RootDir # map Normal (butlast vns)" by (simp add: map_butlast)
        have rb: "resolve E (butlast ?p) = butlast vns" "resolve E ?p = vns"
          unfolding b by (simp_all add: p True resolve_def resolve_from_normals)
        have pre: "prefix (butlast vns) vns" using False by (metis append_butlast_last_id prefixI)
        have "resolve E (butlast ?p @ [Normal s]) \<in> beside vns" for s
          by (simp add: b resolve_def resolve_from_append resolve_from_normals beside_def)
        moreover have "resolve E ?p \<in> near vns" "set (prefixes (resolve E (butlast ?p))) \<subseteq> near vns"
          unfolding rb using pre by (auto simp: near_def intro: prefix_order.trans)
        ultimately show ?thesis
          by (auto simp: restore_target_def restore_scratch_def restore_temp_def with_extension_def restore_dirs_def
              path_parent_def split: option.splits if_splits)
      qed
    qed
  next
    case False
    then have "filter (\<lambda>c. c \<noteq> CurDir) ?p = r"
      using r(1) by (simp add: backup_path_def path_join_def abs_path_def)
    then have "ParentDir \<notin> set ?p" using r(2) by auto
    moreover have "RootDir \<notin> set ?p" using False parse_root by blast
    ultimately have "insert (restore_target E e) (restore_scratch E e) \<subseteq> near (e_cwd E)"
      using below_near [of ?p "e_cwd E"] by (intro scratch) (auto simp: resolve_def)
    then show ?thesis by blast
  qed
qed

end
