(* ===== verification/Rollback_Facts.thy ===== *)
theory Rollback_Facts
  imports Rollback
begin

text \<open>
  What a rollback promises: nothing but verified bytes replaces a file, a tampered snapshot changes
  nothing, a finished rollback is complete, and a snapshot taken by the code can be rolled back.
\<close>

section \<open>The text of a snapshot\<close>

definition entry_utf8 :: "file_entry \<Rightarrow> bool" where
  "entry_utf8 e \<longleftrightarrow> valid_utf8 (fe_path e) \<and> valid_utf8 (fe_sha256 e)"

definition manifest_utf8 :: "snapshot_manifest \<Rightarrow> bool" where
  "manifest_utf8 sm \<longleftrightarrow> valid_utf8 (sm_version sm) \<and> valid_utf8 (sm_created_at sm) \<and> valid_utf8 (sm_manifest_hmac sm) \<and>
     (\<forall>e \<in> set (sm_files sm). entry_utf8 e)"

lemma snapshot_keys_utf8:
  "valid_utf8 ''version''" "valid_utf8 ''created_at''" "valid_utf8 ''files''" "valid_utf8 ''manifest_hmac''"
  "valid_utf8 ''path''" "valid_utf8 ''sha256''" "valid_utf8 ''permissions''" "valid_utf8 ''size_bytes''"
  "valid_utf8 ''file_count''" "valid_utf8 ''ts''"
  by code_simp+

lemma manifest_json_distinct: "json_distinct (manifest_json sm)"
  by (simp add: manifest_json_def file_entry_fields_def jnat_def)

lemma manifest_json_plain: "manifest_utf8 sm \<Longrightarrow> json_readable (manifest_json sm)"
proof -
  have "json_depth (JArray (map (\<lambda>e. JObject (file_entry_fields e)) es)) \<le> 2" for es
    using foldr_max_le [of json_depth "map (\<lambda>e. JObject (file_entry_fields e)) es" 1]
    by (simp add: file_entry_fields_def jnat_def)
  from this [of "sm_files sm"] have "json_depth (manifest_json sm) \<le> JSON_MAX_DEPTH"
    by (simp add: manifest_json_def JSON_MAX_DEPTH_def)
  then show "manifest_utf8 sm \<Longrightarrow> json_readable (manifest_json sm)"
  by (simp add: json_readable_def manifest_json_def file_entry_fields_def jnat_def manifest_utf8_def entry_utf8_def snapshot_keys_utf8)
qed

lemma sort_object_distinct:
  "distinct (map fst m) \<Longrightarrow> \<exists>m'. sort_json_keys (JObject m) = JObject m' \<and> (\<forall>k. map_of m' k = map_option sort_json_keys (map_of m k))"
proof -
  let ?n = "map (\<lambda>(k, v). (k, sort_json_keys v)) m"
  assume d: "distinct (map fst m)"
  then have n: "distinct (map fst ?n)" by (simp only: map_fst_sort_children)
  have "map_of (bt_collect ?n) k = map_option sort_json_keys (map_of m k)" for k
    by (simp add: map_of_bt_collect map_of_rev_distinct [OF n] map_of_map)
  then show ?thesis
    by (intro exI [of _ "bt_collect ?n"]) (simp only: sort_json_keys.simps bt_collect_sort_key [OF n], simp)
qed

lemma u32_back: "unat (ucast (p :: u32) :: u64) < 2 ^ 32 \<and> (ucast (ucast p :: u64) :: u32) = p"
proof -
  have "unat (ucast p :: u64) = unat p" by transfer (simp add: take_bit_eq_mod)
  then have "unat (ucast p :: u64) < 2 ^ 32" using unsigned_less [of p, where 'a = nat] by simp
  moreover have "(ucast (ucast p :: u64) :: u32) = p" by transfer (simp add: take_bit_eq_mod)
  ultimately show ?thesis by blast
qed

lemma decode_file_entry_sorted: "decode_file_entry (sort_json_keys (JObject (file_entry_fields e))) = Some e"
proof -
  have "distinct (map fst (file_entry_fields e))" by (simp add: file_entry_fields_def)
  from sort_object_distinct [OF this] obtain m where
    m: "sort_json_keys (JObject (file_entry_fields e)) = JObject m" "\<And>k. map_of m k = map_option sort_json_keys (map_of (file_entry_fields e) k)"
    by blast
  show ?thesis
    unfolding m(1)
    by (simp add: decode_file_entry_def fld_string_def fld_u32_def fld_u64_def m(2) file_entry_fields_def jnat_def u32_back [simplified])
qed

lemma decode_manifest_sorted: "decode_manifest (sort_json_keys (manifest_json sm)) = Some sm"
proof -
  let ?f = "[(''version'', JString (sm_version sm)), (''created_at'', JString (sm_created_at sm)),
      (''files'', JArray (map (\<lambda>e. JObject (file_entry_fields e)) (sm_files sm))),
      (''manifest_hmac'', JString (sm_manifest_hmac sm))]"
  have "distinct (map fst ?f)" by simp
  from sort_object_distinct [OF this] obtain m where
    m: "sort_json_keys (manifest_json sm) = JObject m" "\<And>k. map_of m k = map_option sort_json_keys (map_of ?f k)"
    unfolding manifest_json_def by blast
  have "all_some (map (decode_file_entry \<circ> (sort_json_keys \<circ> (\<lambda>e. JObject (file_entry_fields e)))) (sm_files sm)) = Some (sm_files sm)"
    using all_some_map_eq [of "sm_files sm" "decode_file_entry \<circ> (sort_json_keys \<circ> (\<lambda>e. JObject (file_entry_fields e)))" "\<lambda>e. e"]
      decode_file_entry_sorted by (simp del: sort_json_keys.simps)
  then show ?thesis
    unfolding m(1)
    by (simp add: decode_manifest_def fld_string_def fld_list_def m(2) del: sort_json_keys.simps(1))
qed

lemma manifest_text:
  assumes "json_laws E" "manifest_utf8 sm"
  obtains s where "e_json_pretty E (manifest_json sm) = Inr s" "json_typed E ''SnapshotManifest'' decode_manifest s = Inr sm"
proof -
  from json_laws_pretty [OF assms(1) manifest_json_distinct manifest_json_plain [OF assms(2)]] obtain s where
    s: "e_json_pretty E (manifest_json sm) = Inr s" "e_json_parse E s = Inr (sort_json_keys (manifest_json sm))"
       "\<not> e_json_dup E ''SnapshotManifest'' s" by blast
  with that show thesis by (simp add: json_typed_def decode_manifest_sorted)
qed

lemma unsigned_manifest_wf: "json_wf (unsigned_manifest v c es)"
  unfolding unsigned_manifest_def
  by (rule json_wf_obj) (auto intro!: json_wf_obj simp: file_entry_fields_def jnat_def)

section \<open>Properties of any rollback\<close>

text \<open>C29. Old or verified: whatever calls of the operating system fail and however the rollback ends, every
  file other than the log, the books and the temporary files keeps its content, or is named by an entry
  of the stored snapshot that verified and holds bytes with the digest recorded there.\<close>

theorem rollback_old_or_verified:
  assumes "rollback E v bd key lg w = (r, w')" "q \<notin> books E bd lg"
    and "\<forall>sm e. stored_snapshot E bd v w = Some sm \<longrightarrow> e \<in> set (sm_files sm) \<longrightarrow> names_file e \<and> q \<notin> restore_scratch E e"
  shows "file_at w' q = file_at w q \<or>
         (\<exists>sm. stored_snapshot E bd v w = Some sm \<and> snapshot_accepted E key sm \<and>
            (\<exists>e \<in> set (sm_files sm). q = restore_target E e \<and> (\<exists>b. file_at w' q = Some b \<and> has_digest E e b)))"
  using assms(1)
proof (cases rule: rollback_cases)
  case (not_loaded m)
  with load_snapshot_same [OF not_loaded(2), of q] assms(2) show ?thesis by (auto simp: file_at_def books_def)
next
  case (no_dir m)
  then show ?thesis by (simp add: file_at_def)
next
  case (loop sm w1 p w2)
  have out: "file_at w2 q = file_at w1 q \<or> (\<exists>e \<in> set (sm_files sm). q = restore_target E e \<and> (\<exists>b. file_at w2 q = Some b \<and> has_digest E e b))"
    using loop(1) assms(2,3) by (intro restore_all_outcome [OF loop(4)]) (auto simp: books_def)
  have "file_at w' q = file_at w2 q"
  proof (cases p)
    case (Inr u)
    with loop(5) have "after_restore E v bd key lg (length (sm_files sm)) w2 = (r, w')" by simp
    from fs_only_file_at [OF stepsD [OF steps_after_restore this] assms(2)] show ?thesis .
  qed (use loop(5) in simp)
  with out loop(1-3) show ?thesis by (auto simp: file_at_def)
qed

text \<open>C30. A snapshot whose content was changed under an authentic code stops the rollback with a rollback
  error before any file but the audit log is touched, as far as the MAC tells the two contents apart.\<close>

theorem tampered_snapshot_aborts:
  assumes "rollback E v bd key lg w = (r, w')" "stored_snapshot E bd v w = Some sm'"
    and "snapshot_accepted E key sm" "sm_manifest_hmac sm' = sm_manifest_hmac sm"
    and "mac_separates E key (manifest_body sm) (manifest_body sm')" "seal E key (manifest_body sm') = Inr t"
  shows "(\<exists>m. r = Inl (Rollback m)) \<and> (\<forall>q. q \<noteq> al_file lg \<longrightarrow> w_fs w' q = w_fs w q)"
proof -
  have bad: "\<not> snapshot_accepted E key sm'" by (rule snapshot.altered_rejected [OF assms(3-5)])
  with assms(6) have ck: "check_snapshot E key sm' = Inr False"
    by (auto simp: snapshot_accepted_def check_snapshot_seal bind_res_def)
  obtain l w0 where ld: "load_snapshot E v (version_dir bd v) key lg w = (l, w0)" by fastforce
  with load_snapshot_refused [OF ld assms(2) ck] obtain m where l: "l = Inl (Rollback m)" by blast
  with assms(1) ld have "r = Inl (Rollback m)" "w' = w0" by (auto simp: rollback_def Let_def bindE_def)
  with load_snapshot_same [OF ld] show ?thesis by blast
qed

lemma rollback_complete_files:
  assumes "rollback E v bd key lg w = (Inr u, w')" "stored_snapshot E bd v w = Some sm"
    and "apart E (abs_path (resolve E (version_dir bd v))) lg (sm_files sm)"
    and "\<forall>e \<in> set (sm_files sm). restore_target E e \<notin> books E bd lg"
  shows "\<forall>e \<in> set (sm_files sm). \<exists>b.
           file_at w (resolve E (backup_path (abs_path (resolve E (version_dir bd v))) e)) = Some b \<and> has_digest E e b \<and>
           file_at w' (restore_target E e) = Some b"
  using assms(1)
proof (cases rule: rollback_cases)
  case (loop sm' w1 p w2)
  with assms(2) have sm: "sm' = sm" by simp
  from loop(5) obtain x where p: "p = Inr x" and af: "after_restore E v bd key lg (length (sm_files sm)) w2 = (Inr u, w')"
    by (cases p) (auto simp: sm)
  show ?thesis
  proof
    fix e assume e: "e \<in> set (sm_files sm)"
    from restore_all_done [OF loop(4) [unfolded p sm] assms(3) e] obtain b where
      b: "file_at w1 (resolve E (backup_path (abs_path (resolve E (version_dir bd v))) e)) = Some b" "has_digest E e b"
         "file_at w2 (restore_target E e) = Some b" by blast
    have "file_at w' (restore_target E e) = file_at w2 (restore_target E e)"
      using assms(4) e by (intro fs_only_file_at [OF stepsD [OF steps_after_restore af]]) auto
    with b loop(3) show "\<exists>b. file_at w (resolve E (backup_path (abs_path (resolve E (version_dir bd v))) e)) = Some b \<and>
        has_digest E e b \<and> file_at w' (restore_target E e) = Some b"
      by (auto simp: file_at_def)
  qed
qed simp_all

section \<open>Where a rollback can write\<close>

lemma restore_entry_confined:
  "steps (fs_only (insert (al_file lg) (near (e_cwd E) \<union> near vns \<union> beside vns))) (restore_entry E v (abs_path vns) lg e)"
proof (cases "assert_path_under_parent E (backup_path (abs_path vns) e) (abs_path vns)")
  case (Inl m)
  then show ?thesis
    by (simp add: steps_def restore_entry_def backup_path_def bindE_def lift_res_def fs_only_refl)
next
  case (Inr u)
  show ?thesis
    by (rule steps_fs_only_mono [OF steps_restore_entry]) (use restore_confined [OF Inr] in auto)
qed

text \<open>C31. A rollback writes nowhere but in and above the working directory, in, above and beside the
  directory of the snapshot, and in the books, whatever the snapshot contains and whatever fails.\<close>

theorem rollback_confined:
  assumes "rollback E v bd key lg w = (r, w')" "vns = resolve E (version_dir bd v)"
    and "q \<notin> near (e_cwd E) \<union> near vns \<union> beside vns \<union> books E bd lg"
  shows "w_fs w' q = w_fs w q"
proof -
  let ?S = "near (e_cwd E) \<union> near vns \<union> beside vns \<union> books E bd lg"
  show ?thesis using assms(1)
  proof (cases rule: rollback_cases)
    case (not_loaded m)
    with load_snapshot_same [OF not_loaded(2), of q] assms(3) show ?thesis by (auto simp: books_def)
  next
    case (loop sm w1 p w2)
    have st: "steps (fs_only ?S) (for_each (sm_files sm) (restore_entry E v (abs_path vns) lg))"
      by (intro steps_intro preorder_fs_only steps_fs_only_mono [OF restore_entry_confined]) (auto simp: books_def)
    have "w_fs w2 q = w_fs w1 q"
      using fs_only_same [OF stepsD [OF st loop(4) [folded assms(2)]] assms(3)] .
    moreover have "w_fs w' q = w_fs w2 q"
    proof (cases p)
      case (Inr u)
      with loop(5) have "after_restore E v bd key lg (length (sm_files sm)) w2 = (r, w')" by simp
      from fs_only_same [OF stepsD [OF steps_after_restore this], of q] assms(3) show ?thesis by blast
    qed (use loop(5) in simp)
    ultimately show ?thesis using loop(3) by simp
  qed simp
qed

section \<open>Witnesses\<close>

definition lg1 :: audit_logger where
  "lg1 = \<lparr>al_log_path = [RootDir, Normal ''var'', Normal ''log''], al_hmac_key = ''key'', al_installation_id = ''id'', al_file = [''var'', ''log'']\<rparr>"

definition sm1 :: "file_entry list \<Rightarrow> snapshot_manifest" where
  "sm1 es = \<lparr>sm_version = ''1.2'', sm_created_at = ''now'', sm_files = es,
     sm_manifest_hmac = enc_str (''k.'' @ enc (unsigned_manifest ''1.2'' ''now'' es))\<rparr>"

definition entry1 :: file_entry where
  "entry1 = \<lparr>fe_path = ''prog'', fe_sha256 = enc_str ''data'', fe_permissions = 0x81A4, fe_size_bytes = 4\<rparr>"

definition bk1 :: path where
  "bk1 = [RootDir, Normal ''bk'']"

definition rb_world :: "snapshot_manifest \<Rightarrow> (names \<times> node) list \<Rightarrow> world" where
  "rb_world sm xs = world_of ([([''bk''], Dir 0x1C0), ([''bk'', ''v1.2''], Dir 0x1C0),
     ([''bk'', ''v1.2'', ''snapshot.json''], File (enc (manifest_json sm)) 0x1A4), ([''bk'', ''v1.2'', ''prog''], File ''data'' 0x1A4),
     ([''var''], Dir 0x1C0), ([''var'', ''log''], File [] 0x180)] @ xs)"

lemma plain1: "plain_name ''v1.2''" "plain_name ''prog''"
  by (simp_all add: plain_name_def)

lemma version_dir1: "version_dir bk1 ''1.2'' = [RootDir, Normal ''bk'', Normal ''v1.2'']"
  using parse_plain_name [OF plain1(1)] by (simp add: version_dir_def bk1_def path_join_normal)

lemma resolve1:
  "resolve E bk1 = [''bk'']" "resolve E (version_dir bk1 ''1.2'') = [''bk'', ''v1.2'']"
  "resolve E (snapshot_path bk1 ''1.2'') = [''bk'', ''v1.2'', ''snapshot.json'']"
  by (simp_all add: snapshot_path_def version_dir1 path_join_normal resolve_def) (simp add: bk1_def)

lemma stored1: "stored_snapshot env0 bk1 ''1.2'' (rb_world sm xs) = Some sm"
  by (simp add: stored_snapshot_def resolve1 rb_world_def world_of_def file_at_def json_typed_def parse_enc map_inr_def decode_manifest_sorted)

lemma accepted1: "snapshot_accepted env0 ''k'' (sm1 es)"
  by (rule snapshot.sealed_accepted) (simp add: seal_env0 manifest_body_def unsigned_manifest_wf sm1_def)

lemma rollback_old_or_verified_witness:
  "file_at (snd (rollback env0 ''1.2'' bk1 ''k'' lg1 (rb_world (sm1 [entry1]) []))) [''prog''] \<in> {None, Some ''data''}"
proof -
  let ?w = "rb_world (sm1 [entry1]) []"
  have p: "plain_name (fe_path entry1)" by (simp add: entry1_def plain1)
  have "parse_path ''prog'' = [Normal ''prog'']" by (rule parse_plain_name [OF plain1(2)])
  then have e: "names_file entry1" "[''prog''] \<notin> restore_scratch env0 entry1"
    by (simp_all add: names_file_def restore_scratch_def restore_temp_def with_extension_def restore_dirs_def path_parent_def
        file_name_def resolve_def entry1_def stem_def)
  have q: "[''prog''] \<notin> books env0 bk1 lg1" by (auto simp: books_def resolve1 lg1_def)
  have files: "sm_files (sm1 [entry1]) = [entry1]" by (simp add: sm1_def)
  have none: "file_at ?w [''prog''] = None" by (simp add: rb_world_def world_of_def file_at_def)
  have dig: "has_digest env0 entry1 b \<longleftrightarrow> b = ''data''" for b by (simp add: has_digest_def entry1_def enc_str_inj)
  obtain r w' where run: "rollback env0 ''1.2'' bk1 ''k'' lg1 ?w = (r, w')" by fastforce
  have "file_at w' [''prog''] \<in> {None, Some ''data''}"
    using rollback_old_or_verified [OF run q] e unfolding stored1 option.inject files none by (auto simp: files dig)
  then show ?thesis by (simp add: run)
qed

lemma tampered_snapshot_aborts_witness:
  "\<exists>m. fst (rollback env0 ''1.2'' bk1 ''k'' lg1 (rb_world ((sm1 [entry1])\<lparr>sm_files := []\<rparr>) [])) = Inl (Rollback m)"
proof -
  let ?sm = "(sm1 [entry1])\<lparr>sm_files := []\<rparr>"
  have "unsigned_manifest ''1.2'' ''now'' [entry1] \<noteq> unsigned_manifest ''1.2'' ''now'' []"
    by (simp add: unsigned_manifest_def json_obj_def bt_collect_def)
  then have "enc (unsigned_manifest ''1.2'' ''now'' [entry1]) \<noteq> enc (unsigned_manifest ''1.2'' ''now'' [])"
    using parse_enc by (metis Inr_inject)
  then have "mac_separates env0 ''k'' (manifest_body (sm1 [entry1])) (manifest_body ?sm)"
    by (simp add: mac_separates_def seal_env0 manifest_body_def unsigned_manifest_wf sm1_def enc_str_inj)
  moreover have "seal env0 ''k'' (manifest_body ?sm) = Inr (enc_str (''k'' @ ''.'' @ enc (manifest_body ?sm)))"
    by (rule seal_env0) (simp add: manifest_body_def unsigned_manifest_wf)
  ultimately show ?thesis
    using tampered_snapshot_aborts [OF prod.collapse [symmetric] stored1 accepted1, where lg = lg1] by (simp add: sm1_def)
qed

lemma rollback_confined_witness:
  "w_fs (snd (rollback (env0\<lparr>e_cwd := [''app'']\<rparr>) ''1.2'' bk1 ''k'' lg1 (rb_world (sm1 [entry1]) []))) [''etc'', ''passwd''] = None"
proof -
  have "[''etc'', ''passwd''] \<notin> near [''app''] \<union> near [''bk'', ''v1.2''] \<union> beside [''bk'', ''v1.2''] \<union> books (env0\<lparr>e_cwd := [''app'']\<rparr>) bk1 lg1"
    by (auto simp: near_def beside_def books_def resolve1 lg1_def)
  then show ?thesis
    by (subst rollback_confined [OF prod.collapse [symmetric] refl]) (simp_all add: resolve1 rb_world_def world_of_def)
qed

end
