(* ===== verification/Snapshot_Roundtrip.thy ===== *)
theory Snapshot_Roundtrip
  imports Rollback_Facts
begin

text \<open>
  What \<open>take_snapshot\<close> stores, \<open>rollback\<close> restores: the snapshot file is read back as the manifest that
  was written, it verifies, and with a working system the rollback runs to its end.
\<close>

section \<open>What a snapshot stores\<close>

definition target_name :: "env \<Rightarrow> path \<Rightarrow> string" where
  "target_name E p = last (resolve E p)"

text \<open>Targets with different plain names, outside the directory of the snapshot.\<close>

definition snapshot_targets :: "env \<Rightarrow> names \<Rightarrow> path list \<Rightarrow> bool" where
  "snapshot_targets E vns ps \<longleftrightarrow> distinct (map (target_name E) ps) \<and>
     (\<forall>p \<in> set ps. resolve E p \<noteq> [] \<and> \<not> prefix vns (resolve E p) \<and> plain_name (target_name E p) \<and>
        valid_utf8 (target_name E p) \<and> target_name E p \<noteq> ''snapshot.json'')"

lemma file_name_abs: "ns \<noteq> [] \<Longrightarrow> file_name (abs_path ns) = Some (last ns)"
  by (simp add: file_name_def abs_path_def last_map)

definition copied :: "env \<Rightarrow> names \<Rightarrow> 'z world_scheme \<Rightarrow> 'z world_scheme \<Rightarrow> path \<Rightarrow> file_entry \<Rightarrow> bool" where
  "copied E vns w w' p e \<longleftrightarrow>
     (\<exists>b. file_at w (resolve E p) = Some b \<and> fe_path e = target_name E p \<and> has_digest E e b \<and>
          file_at w' (vns @ [target_name E p]) = Some b)"

lemma resolve_abs [simp]: "resolve E (abs_path ns) = ns"
  by (simp add: resolve_def)

lemma metadata_mode_fs: "metadata_mode E p w = (r, w') \<Longrightarrow> w_fs w' = w_fs w"
  by (auto simp: metadata_mode_def Let_def sys_def no_effect_def split: option.splits node.splits)

lemma snapshot_file_Inr:
  assumes "snapshot_file E (abs_path vns) p w = (Inr e, w')" "resolve E p \<noteq> []" "valid_utf8 (target_name E p)"
  shows "copied E vns w w' p e" "\<forall>q. q \<noteq> vns @ [target_name E p] \<longrightarrow> w_fs w' q = w_fs w q"
proof -
  let ?n = "target_name E p"
  let ?d = "path_join (abs_path vns) [Normal ?n]"
  have d: "resolve E ?d = vns @ [?n]" by (simp add: resolve_join_name)
  from assms(1) obtain x w1 where c: "canonicalize E p w = (Inr x, w1)"
    by (auto simp: snapshot_file_def run_iff)
  then have "x = abs_path (resolve E p)" using canonicalize_Inr by blast
  with c have c: "canonicalize E p w = (Inr (abs_path (resolve E p)), w1)" by simp
  from assms(1,2) c obtain b m w2 w3 u where
    1: "fs_read E (abs_path (resolve E p)) w1 = (Inr b, w2)"
       "metadata_mode E (abs_path (resolve E p)) w2 = (Inr m, w3)"
       "fs_write E ?d b w3 = (Inr u, w')"
       "e = \<lparr>fe_path = from_utf8_lossy ?n, fe_sha256 = e_hex E (e_sha256 E b), fe_permissions = m, fe_size_bytes = of_nat (length b)\<rparr>"
    by (auto simp: snapshot_file_def run_iff Let_def file_name_abs target_name_def)
  have fs: "w_fs w3 = w_fs w" "w_fs w1 = w_fs w"
    using canonicalize_fs [OF c] fs_read_fs [OF 1(1)] metadata_mode_fs [OF 1(2)] by simp_all
  have "file_at w (resolve E p) = Some b" using fs_read_Inr(1) [OF 1(1)] fs(2) by (simp add: file_at_def)
  then show "copied E vns w w' p e"
    using fs_write_file_at [OF 1(3)] d assms(3) 1(4) by (simp add: copied_def has_digest_def from_utf8_lossy_valid)
  have "fs_only {vns @ [?n]} w3 w'" by (rule stepsD [OF steps_fs_write 1(3)]) (simp add: d)
  with fs(1) show "\<forall>q. q \<noteq> vns @ [?n] \<longrightarrow> w_fs w' q = w_fs w q" using fs_only_same by fastforce
qed

lemma snapshot_files_Inr:
  assumes "collect_each ps (snapshot_file E (abs_path vns)) w = (Inr es, w')" "snapshot_targets E vns ps"
  shows "list_all2 (copied E vns w w') ps es"
    and "\<forall>q. q \<notin> (\<lambda>p. vns @ [target_name E p]) ` set ps \<longrightarrow> w_fs w' q = w_fs w q"
proof -
  have "list_all2 (copied E vns w w') ps es \<and>
        (\<forall>q. q \<notin> (\<lambda>p. vns @ [target_name E p]) ` set ps \<longrightarrow> w_fs w' q = w_fs w q)"
    using assms
  proof (induction ps arbitrary: w es)
    case Nil
    then show ?case by (auto simp: ret_def)
  next
    case (Cons p ps)
    from Cons.prems(1) obtain e w1 fs where
      e: "snapshot_file E (abs_path vns) p w = (Inr e, w1)" and es: "es = e # fs"
      and rest: "collect_each ps (snapshot_file E (abs_path vns)) w1 = (Inr fs, w')"
      by (auto simp: run_iff)
    have p: "resolve E p \<noteq> []" "valid_utf8 (target_name E p)" "target_name E p \<notin> target_name E ` set ps"
      and ps: "snapshot_targets E vns ps"
      using Cons.prems(2) by (auto simp: snapshot_targets_def)
    note one = snapshot_file_Inr [OF e p(1,2)]
    from Cons.IH [OF rest ps] have all: "list_all2 (copied E vns w1 w') ps fs"
      and same: "\<forall>q. q \<notin> (\<lambda>p. vns @ [target_name E p]) ` set ps \<longrightarrow> w_fs w' q = w_fs w1 q" by blast+
    have src: "file_at w1 (resolve E q) = file_at w (resolve E q)" if "q \<in> set ps" for q
    proof -
      have "resolve E q \<noteq> vns @ [target_name E p]" using Cons.prems(2) that by (auto simp: snapshot_targets_def)
      with one(2) show ?thesis by (simp add: file_at_def)
    qed
    have "list_all2 (copied E vns w w') ps fs"
      by (rule list.rel_mono_strong [OF all]) (auto simp: copied_def src)
    moreover have "copied E vns w w' p e"
    proof -
      have "vns @ [target_name E p] \<notin> (\<lambda>p. vns @ [target_name E p]) ` set ps" using p(3) by auto
      with same have "file_at w' (vns @ [target_name E p]) = file_at w1 (vns @ [target_name E p])" by (simp add: file_at_def)
      with one(1) show ?thesis by (simp add: copied_def)
    qed
    ultimately show ?case using es same one(2) by auto
  qed
  then show "list_all2 (copied E vns w w') ps es"
    "\<forall>q. q \<notin> (\<lambda>p. vns @ [target_name E p]) ` set ps \<longrightarrow> w_fs w' q = w_fs w q" by blast+
qed

text \<open>Making directories leaves what is there alone.\<close>

definition new_dirs :: "names set \<Rightarrow> 'z world_scheme \<Rightarrow> 'z world_scheme \<Rightarrow> bool" where
  "new_dirs S w w' \<longleftrightarrow> (\<forall>q. w_fs w' q = w_fs w q \<or>
     q \<in> S \<and> \<not> is_dir w q \<and> w_fs w q = None \<and> (\<exists>m. w_fs w' q = Some (Dir m)))"

lemma preorder_new_dirs [intro, simp]: "preorder_rel (new_dirs S)"
  unfolding preorder_rel_def
proof
  show "reflp (new_dirs S)" by (auto simp: reflp_def new_dirs_def)
  show "transp (new_dirs S)"
  proof (rule transpI)
    fix u v w
    assume uv: "new_dirs S u v" and vw: "new_dirs S v w"
    show "new_dirs S u w"
      unfolding new_dirs_def
    proof
      fix q
      from uv consider "w_fs v q = w_fs u q" | m where "q \<in> S" "\<not> is_dir u q" "w_fs u q = None" "w_fs v q = Some (Dir m)"
        unfolding new_dirs_def by blast
      then show "w_fs w q = w_fs u q \<or> q \<in> S \<and> \<not> is_dir u q \<and> w_fs u q = None \<and> (\<exists>m. w_fs w q = Some (Dir m))"
      proof cases
        case 1
        then show ?thesis using vw is_dir_cong [of v q u] unfolding new_dirs_def by metis
      next
        case 2
        then have "w_fs w q = w_fs v q" using vw unfolding new_dirs_def by (metis option.distinct(1))
        with 2 show ?thesis by simp
      qed
    qed
  qed
qed

lemma new_dirs_files: "new_dirs S w w' \<Longrightarrow> file_at w' q = file_at w q"
  unfolding new_dirs_def file_at_def by (drule spec [of _ q]) auto

lemma new_dirs_dir: "new_dirs S w w' \<Longrightarrow> is_dir w q \<Longrightarrow> w_fs w' q = w_fs w q \<and> is_dir w' q"
  unfolding new_dirs_def by (metis is_dir_cong)

lemma new_dirs_other: "new_dirs S w w' \<Longrightarrow> q \<notin> S \<Longrightarrow> w_fs w' q = w_fs w q"
  unfolding new_dirs_def by blast

lemma steps_new_mkdirs: "set ds \<subseteq> S \<Longrightarrow> steps (new_dirs S) (mkdirs E m ds :: ('z, unit) sio)"
proof (induction ds)
  case (Cons d ds)
  let ?mk = "sys E OpMkdir d no_effect (\<lambda>w. case w_fs w d of
              Some n \<Rightarrow> (Inl EEXIST, w)
            | None \<Rightarrow> if is_dir w (butlast d) then (Inr (), fs_put d (Some (Dir m)) w) else (Inl ENOTDIR, w))"
  have rest: "steps (new_dirs S) (mkdirs E m ds :: ('z, unit) sio)" using Cons by simp
  have "new_dirs S w (snd (?mk w))" if "\<not> is_dir w d" for w :: "'z world_scheme"
    using that Cons.prems by (auto simp: sys_def Let_def no_effect_def new_dirs_def fs_put_def split: option.splits)
  note mk = this
  have "new_dirs S w (snd (bindE ?mk (\<lambda>_. mkdirs E m ds) w))" if dir: "\<not> is_dir w d" for w :: "'z world_scheme"
  proof -
    obtain r w1 where r: "?mk w = (r, w1)" by fastforce
    from mk [OF dir] have 1: "new_dirs S w w1" unfolding r by simp
    have "new_dirs S w1 (snd (mkdirs E m ds w1))" by (rule steps_snd [OF rest])
    with 1 have "new_dirs S w (snd (mkdirs E m ds w1))"
      using preorder_new_dirs [of S, unfolded preorder_rel_def] by (blast dest: transpD)
    with 1 show ?thesis unfolding bindE_def r by (auto split: sum.splits)
  qed
  with rest show ?case by (simp add: steps_def)
qed (simp add: steps_ret)

lemma steps_new_dirs: "set (prefixes (resolve E p)) \<subseteq> S \<Longrightarrow> steps (new_dirs S) (create_dir_all E m p)"
  unfolding create_dir_all_def by (simp add: steps_ret steps_new_mkdirs)

lemma create_dir_all_new: "create_dir_all E m p w = (r, w') \<Longrightarrow> new_dirs (set (prefixes (resolve E p))) w w'"
  by (rule stepsD [OF steps_new_dirs [OF order_refl]])

lemma create_dir_all_files: "create_dir_all E m p w = (r, w') \<Longrightarrow> file_at w' q = file_at w q"
  by (rule new_dirs_files [OF create_dir_all_new])

lemma canonical_json_wf: "json_wf v \<Longrightarrow> canonical_json E v = map_inl (\<lambda>e. Internal (''Canonical JSON failed: '' @ e)) (e_json_str E v)"
  by (simp add: canonical_json_def sort_json_keys_id)

text \<open>The part of \<open>take_snapshot\<close> after its loop.\<close>

definition finish_snapshot :: "env \<Rightarrow> string \<Rightarrow> bytes \<Rightarrow> path \<Rightarrow> file_entry list \<Rightarrow> ('z, unit) eio" where
  "finish_snapshot E version hmac_key canonical_backup file_entries =
     bindE (utc_now E) (\<lambda>now.
     let created_at = e_rfc3339 E now in
     bindE (lift_res (canonical_json_sorted E (unsigned_manifest version created_at file_entries))) (\<lambda>canonical.
     bindE (lift_res (compute_hmac E hmac_key canonical)) (\<lambda>manifest_hmac.
     bindE (lift_res (map_inl (\<lambda>e. Internal (''Manifest serialise failed: '' @ e)) (e_json_pretty E (manifest_json
       \<lparr>sm_version = version, sm_created_at = created_at, sm_files = file_entries, sm_manifest_hmac = manifest_hmac\<rparr>)))) (\<lambda>s.
     map_err (\<lambda>e. Permission (''Cannot write snapshot.json: '' @ e))
       (fs_write E (path_join canonical_backup [Normal ''snapshot.json'']) s)))))"

lemma take_snapshot_eq:
  "take_snapshot E version ps bd key =
     bindE (map_err (\<lambda>e. Permission (''Cannot create backup dir: '' @ e)) (create_dir_all E 0x1C0 bd)) (\<lambda>_.
     bindE (map_err (\<lambda>e. Permission (''Cannot create version backup dir: '' @ e)) (create_dir_all E 0x1C0 (version_dir bd version))) (\<lambda>_.
     bindE (map_err (\<lambda>e. Permission (''Cannot canonicalize backup dir: '' @ e)) (canonicalize E (version_dir bd version))) (\<lambda>cb.
     bindE (collect_each ps (snapshot_file E cb)) (finish_snapshot E version key cb))))"
  unfolding take_snapshot_def finish_snapshot_def [abs_def] Let_def by (rule refl)

text \<open>A successful \<open>take_snapshot\<close> leaves a snapshot that is read back, verifies, and describes the copies.\<close>

lemma take_snapshot_stored:
  assumes "take_snapshot E v ps bd key w = (Inr u, w')" "snapshot_targets E (resolve E (version_dir bd v)) ps"
    and "logging_env E" "valid_utf8 v"
  shows "\<exists>sm. stored_snapshot E bd v w' = Some sm \<and> snapshot_accepted E key sm \<and>
           list_all2 (copied E (resolve E (version_dir bd v)) w w') ps (sm_files sm)"
proof -
  let ?v = "resolve E (version_dir bd v)"
  let ?mp = "path_join (abs_path ?v) [Normal ''snapshot.json'']"
  have mp: "resolve E ?mp = ?v @ [''snapshot.json'']" "resolve E (snapshot_path bd v) = ?v @ [''snapshot.json'']"
    by (simp_all add: resolve_join_name snapshot_path_def)
  from assms(1) obtain a1 w1 a2 w2 cb w3 es w4 where
    1: "create_dir_all E 0x1C0 bd w = (Inr a1, w1)" "create_dir_all E 0x1C0 (version_dir bd v) w1 = (Inr a2, w2)"
       "canonicalize E (version_dir bd v) w2 = (Inr cb, w3)" "collect_each ps (snapshot_file E cb) w3 = (Inr es, w4)"
    and fin: "finish_snapshot E v key cb es w4 = (Inr u, w')"
    unfolding take_snapshot_eq run_iff by blast
  define now where "now = e_clock E (w_tick w4)"
  define w5 where "w5 = w4\<lparr>w_tick := Suc (w_tick w4)\<rparr>"
  then have w5: "w_fs w5 = w_fs w4" by simp
  from fin obtain c tag s where
    c: "canonical_json E (unsigned_manifest v (e_rfc3339 E now) es) = Inr c" "compute_hmac E key c = Inr tag" and
    2: "e_json_pretty E (manifest_json \<lparr>sm_version = v, sm_created_at = e_rfc3339 E now, sm_files = es, sm_manifest_hmac = tag\<rparr>) = Inr s"
       "fs_write E (path_join cb [Normal ''snapshot.json'']) s w5 = (Inr u, w')"
    by (auto simp: finish_snapshot_def run_iff Let_def canonical_json_sorted_eq utc_now_def simp flip: now_def w5_def)
  let ?sm = "\<lparr>sm_version = v, sm_created_at = e_rfc3339 E now, sm_files = es, sm_manifest_hmac = tag\<rparr>"
  have seal: "seal E key (unsigned_manifest v (e_rfc3339 E now) es) = Inr tag" using c by (simp add: seal_def)
  have cb: "cb = abs_path ?v" "w_fs w3 = w_fs w2" using canonicalize_Inr [OF 1(3)] by simp_all
  have "file_at w3 q = file_at w q" for q
    using create_dir_all_files [OF 1(1)] create_dir_all_files [OF 1(2)] cb(2) by (simp add: file_at_def)
  moreover note snapshot_files_Inr(1) [OF 1(4) [unfolded cb(1)] assms(2)]
  moreover have "file_at w' (?v @ [target_name E p]) = file_at w4 (?v @ [target_name E p])" if "p \<in> set ps" for p
  proof -
    have "target_name E p \<noteq> ''snapshot.json''" using assms(2) that by (auto simp: snapshot_targets_def)
    with fs_only_file_at [OF stepsD [OF steps_fs_write [of E "path_join cb [Normal ''snapshot.json'']" "{?v @ [''snapshot.json'']}"] 2(2)]]
    show ?thesis using w5 mp(1) by (simp add: cb(1) file_at_def)
  qed
  ultimately have files: "list_all2 (copied E ?v w w') ps es"
    by (elim list.rel_mono_strong) (auto simp: copied_def)
  have laws: "json_laws E" "hex_ascii E" "time_ascii E" using assms(3) by (simp_all add: logging_env_def)
  have "entry_utf8 e" if "e \<in> set es" for e
  proof -
    from files that obtain p where "p \<in> set ps" "copied E ?v w w' p e" by (metis in_set_conv_nth list_all2_conv_all_nth)
    then obtain b where "fe_path e = target_name E p" "fe_sha256 e = e_hex E (e_sha256 E b)"
      unfolding copied_def has_digest_def by metis
    with assms(2) laws(2) \<open>p \<in> set ps\<close> show ?thesis
      by (auto simp: entry_utf8_def snapshot_targets_def hex_ascii_def ascii_valid_utf8)
  qed
  moreover have "valid_utf8 tag" using seal laws(2) by (auto simp: seal_Inr hex_ascii_def ascii_valid_utf8)
  ultimately have "manifest_utf8 ?sm"
    using assms(4) laws(3) by (simp add: manifest_utf8_def time_ascii_def ascii_valid_utf8)
  from manifest_text [OF laws(1) this] 2(1) have "json_typed E ''SnapshotManifest'' decode_manifest s = Inr ?sm" by auto
  moreover have "file_at w' (?v @ [''snapshot.json'']) = Some s"
    using fs_write_file_at [OF 2(2)] mp(1) by (simp add: cb(1))
  ultimately have "stored_snapshot E bd v w' = Some ?sm" by (simp add: stored_snapshot_def mp(2))
  moreover have "snapshot_accepted E key ?sm"
    using seal by (intro snapshot.sealed_accepted) (simp add: manifest_body_def)
  ultimately show ?thesis using files by auto
qed

section \<open>Restoring with a working system\<close>

definition restore_temp_name :: "string \<Rightarrow> string" where
  "restore_temp_name n = stem n @ ''.synqro_restore.tmp''"

text \<open>The names a snapshot restores: plain, different, none the temporary name of another.\<close>

definition restorable_names :: "string list \<Rightarrow> bool" where
  "restorable_names ns \<longleftrightarrow> distinct ns \<and> (\<forall>n \<in> set ns. plain_name n \<and> (\<forall>m \<in> set ns. n \<noteq> restore_temp_name m))"

lemma entry_paths:
  assumes "plain_name (fe_path e)"
  shows "restore_target E e = e_cwd E @ [fe_path e]" "names_file e"
    "restore_scratch E e = {e_cwd E @ [restore_temp_name (fe_path e)]}"
    "backup_path (abs_path vns) e = abs_path vns @ [Normal (fe_path e)]"
    "restore_temp (parse_path (fe_path e)) = [Normal (restore_temp_name (fe_path e))]"
  by (simp_all add: parse_plain_name [OF assms] restore_target_def names_file_def restore_scratch_def restore_temp_def
      with_extension_def file_name_def restore_dirs_def path_parent_def resolve_def backup_path_def path_join_normal
      restore_temp_name_def)

lemma set_mode_run:
  assumes "no_faults E" "w_fs w (resolve E p) = Some (File b m0)"
  shows "\<exists>w'. set_mode E p m w = (Inr (), w') \<and> w_fs w' = (w_fs w)(resolve E p \<mapsto> File b (m AND 0xFFF))"
  using assms by (simp add: set_mode_def Let_def sys_nofault fs_put_def)

lemma fs_write_run:
  assumes "no_faults E" "resolve E p = d @ [s]" "is_dir w d" "no_dir_at w (d @ [s])"
  shows "\<exists>w' m. fs_write E p b w = (Inr (), w') \<and> w_fs w' = (w_fs w)(d @ [s] \<mapsto> File b m)"
proof -
  obtain w1 m where 1: "file_create E p w = (Inr (), w1)" "w_fs w1 = (w_fs w)(d @ [s] \<mapsto> File [] m)"
    using file_create_run [OF assms] by blast
  then obtain w2 where "write_all E p b w1 = (Inr (), w2)" "w_fs w2 = (w_fs w)(d @ [s] \<mapsto> File b m)"
    using write_all_run [OF assms(1), of w1 p "[]" m b] assms(2) by auto
  with 1 show ?thesis by (simp add: fs_write_def bindE_def) blast
qed

lemma fs_read_run:
  "no_faults E \<Longrightarrow> file_at w (resolve E p) = Some b \<Longrightarrow> fs_read E p w = (Inr b, w\<lparr>w_tick := Suc (w_tick w)\<rparr>)"
  by (auto simp: file_at_Some fs_read_def Let_def sys_nofault)

lemma restore_entry_run:
  fixes w :: "'z world_scheme"
  assumes nf: "no_faults E" and pn: "plain_name (fe_path e)" "fe_path e \<noteq> restore_temp_name (fe_path e)"
    and bk: "file_at w (vns @ [fe_path e]) = Some b" "has_digest E e b"
    and fs: "is_dir w (e_cwd E)" "no_dir_at w (e_cwd E @ [fe_path e])" "no_dir_at w (e_cwd E @ [restore_temp_name (fe_path e)])"
  shows "\<exists>w' m. restore_entry E v (abs_path vns) lg e w = (Inr (), w') \<and>
           w_fs w' = (w_fs w)(e_cwd E @ [restore_temp_name (fe_path e)] := None, e_cwd E @ [fe_path e] \<mapsto> File b m)"
proof -
  note ps = entry_paths [OF pn(1)]
  let ?tp = "[Normal (restore_temp_name (fe_path e))]" and ?t = "e_cwd E @ [restore_temp_name (fe_path e)]"
  let ?w = "w\<lparr>w_tick := Suc (w_tick w)\<rparr>"
  have t: "resolve E ?tp = ?t" "resolve E [Normal (fe_path e)] = e_cwd E @ [fe_path e]" by (simp_all add: resolve_def)
  have "is_dir ?w (e_cwd E)" "no_dir_at ?w ?t" using fs by (simp_all add: is_dir_def no_dir_at_def)
  from fs_write_run [OF nf t(1) this, of b] obtain w1 m1 where
    1: "fs_write E ?tp b ?w = (Inr (), w1)" "w_fs w1 = (w_fs w)(?t \<mapsto> File b m1)" by auto
  from set_mode_run [OF nf, of w1 ?tp b m1 "fe_permissions e"] 1(2) obtain w2 where
    2: "set_mode E ?tp (fe_permissions e) w1 = (Inr (), w2)" "w_fs w2 = (w_fs w)(?t \<mapsto> File b (fe_permissions e AND 0xFFF))"
    by (auto simp: t(1))
  have "is_dir w2 (e_cwd E)" "no_dir_at w2 (e_cwd E @ [fe_path e])"
    using fs pn(2) is_dir_cong [of w2 "e_cwd E" w] by (auto simp: 2(2) no_dir_at_def)
  from fs_rename_run [OF nf _ t(2) this, of ?tp b "fe_permissions e AND 0xFFF"] obtain w3 where
    3: "fs_rename E ?tp [Normal (fe_path e)] w2 = (Inr (), w3)"
       "w_fs w3 = (w_fs w)(?t := None, e_cwd E @ [fe_path e] \<mapsto> File b (fe_permissions e AND 0xFFF))"
    by (auto simp: t(1) 2(2))
  have "restore_file E e b ?w = (Inr (), w3)"
    using 1(1) 2(1) 3(1)
    by (simp add: restore_file_eq make_parents_def fill_restore_temp_def
        ps(5) [unfolded parse_plain_name [OF pn(1)]] parse_plain_name [OF pn(1)] path_parent_def
        bindE_def map_err_def ret_def publish_def on_err_def)
  moreover have "fs_read E (backup_path (abs_path vns) e) w = (Inr b, ?w)"
    using bk(1) by (intro fs_read_run [OF nf]) (simp add: ps(4) resolve_snoc)
  moreover have "assert_path_under_parent E (backup_path (abs_path vns) e) (abs_path vns) = Inr ()"
    using assert_ok [of E "backup_path (abs_path vns) e" "abs_path vns" "()"] ps(4) by auto
  ultimately have "restore_entry E v (abs_path vns) lg e w = (Inr (), w3)"
    using bk(2) unfolding restore_entry_def has_digest_def
    by (simp add: Let_def bindE_def lift_res_def map_err_def flip: backup_path_def)
  with 3(2) show ?thesis by blast
qed

text \<open>The whole loop. Nothing outside the restored names, their temporary names and the log changes,
  and none of those becomes a directory.\<close>

definition restored_places :: "env \<Rightarrow> file_entry list \<Rightarrow> names set" where
  "restored_places E es = (\<Union>e \<in> set es. {e_cwd E @ [fe_path e], e_cwd E @ [restore_temp_name (fe_path e)]})"

definition ready_entry :: "env \<Rightarrow> names \<Rightarrow> 'z world_scheme \<Rightarrow> file_entry \<Rightarrow> bool" where
  "ready_entry E vns w e \<longleftrightarrow> (\<exists>b. file_at w (vns @ [fe_path e]) = Some b \<and> has_digest E e b) \<and>
     no_dir_at w (e_cwd E @ [fe_path e]) \<and> no_dir_at w (e_cwd E @ [restore_temp_name (fe_path e)])"

lemma restore_all_run:
  fixes w :: "'z world_scheme"
  assumes "no_faults E" "restorable_names (map fe_path es)" "is_dir w (e_cwd E)" "vns \<noteq> e_cwd E"
    and "\<forall>e \<in> set es. ready_entry E vns w e"
  shows "\<exists>w'. for_each es (restore_entry E v (abs_path vns) lg) w = (Inr (), w') \<and>
           (\<forall>q. q \<notin> restored_places E es \<longrightarrow> w_fs w' q = w_fs w q)"
  using assms(2-)
proof (induction es arbitrary: w)
  case Nil
  then show ?case by (simp add: ret_def)
next
  case (Cons e es)
  from Cons.prems(1) have names: "plain_name (fe_path e)" "fe_path e \<noteq> restore_temp_name (fe_path e)"
    and rest: "restorable_names (map fe_path es)" by (auto simp: restorable_names_def)
  from Cons.prems(4) obtain b where b: "file_at w (vns @ [fe_path e]) = Some b" "has_digest E e b"
    and nd: "no_dir_at w (e_cwd E @ [fe_path e])" "no_dir_at w (e_cwd E @ [restore_temp_name (fe_path e)])"
    by (auto simp: ready_entry_def)
  from restore_entry_run [OF assms(1) names b Cons.prems(2) nd, of v lg] obtain w1 m where
    1: "restore_entry E v (abs_path vns) lg e w = (Inr (), w1)"
       "w_fs w1 = (w_fs w)(e_cwd E @ [restore_temp_name (fe_path e)] := None, e_cwd E @ [fe_path e] \<mapsto> File b m)" by blast
  have "is_dir w1 (e_cwd E)" using Cons.prems(2) is_dir_cong [of w1 "e_cwd E" w] by (simp add: 1(2))
  moreover have "\<forall>d \<in> set es. ready_entry E vns w1 d"
    using Cons.prems(3,4) by (auto simp: ready_entry_def 1(2) file_at_def no_dir_at_def)
  ultimately obtain w2 where
    2: "for_each es (restore_entry E v (abs_path vns) lg) w1 = (Inr (), w2)"
       "\<forall>q. q \<notin> restored_places E es \<longrightarrow> w_fs w2 q = w_fs w1 q"
    using Cons.IH [OF rest] Cons.prems(3) by blast
  have "w_fs w2 q = w_fs w q" if "q \<notin> restored_places E (e # es)" for q
    using 2(2) that by (auto simp: restored_places_def 1(2))
  with 1(1) 2(1) show ?case by (auto simp: bindE_def)
qed

section \<open>The bookkeeping with a working system\<close>

definition counters_path :: "path \<Rightarrow> path" where
  "counters_path bd = path_join bd [Normal ''rollback_counters.json'']"

definition blacklist_path :: "path \<Rightarrow> path" where
  "blacklist_path bd = path_join bd [Normal ''blacklist.json'']"

text \<open>The audit log is outside the backup directory, whose two books can be written and read.\<close>

definition books_ready :: "env \<Rightarrow> bytes \<Rightarrow> path \<Rightarrow> audit_logger \<Rightarrow> 'z world_scheme \<Rightarrow> bool" where
  "books_ready E key bd lg w \<longleftrightarrow>
     al_file lg \<noteq> resolve E bd \<and> al_file lg \<notin> range (\<lambda>n. resolve E bd @ [n]) \<and>
     writable_at E (counters_path bd) w \<and> writable_at E (blacklist_path bd) w \<and>
     (\<exists>m. stored_counters E (counters_path bd) w = Some m \<and> good_counters m) \<and>
     valid_list E key (blacklist_path bd) w"

lemma books_paths:
  "resolve E (counters_path bd) = resolve E bd @ [''rollback_counters.json'']"
  "resolve E (blacklist_path bd) = resolve E bd @ [''blacklist.json'']"
  "json_temps E (counters_path bd) = range (\<lambda>n. resolve E bd @ [json_temp_name n])"
  "json_temps E (blacklist_path bd) = range (\<lambda>n. resolve E bd @ [json_temp_name n])"
  "parent_or_dot (counters_path bd) = bd" "parent_or_dot (blacklist_path bd) = bd"
  by (simp_all add: counters_path_def blacklist_path_def resolve_join_name json_temps_def parent_join_name)

lemma json_temp_not_book: "json_temp_name n \<noteq> ''rollback_counters.json''" "json_temp_name n \<noteq> ''blacklist.json''"
  by (simp_all add: json_temp_name_def)

text \<open>Nothing of it depends on files elsewhere.\<close>

definition book_names :: "string set" where
  "book_names = {''rollback_counters.json'', ''blacklist.json''} \<union> range json_temp_name"

lemma books_ready_names:
  assumes "books_ready E key bd lg w" "w_fs w' (resolve E bd) = w_fs w (resolve E bd)"
    and "\<forall>n \<in> book_names. w_fs w' (resolve E bd @ [n]) = w_fs w (resolve E bd @ [n])"
  shows "books_ready E key bd lg w'"
proof -
  have "writable_at E p w' = writable_at E p w" if "p = counters_path bd \<or> p = blacklist_path bd" for p
    using that assms(2,3) is_dir_cong [of w' "resolve E bd" w]
    by (auto simp: writable_at_def books_paths no_dir_at_def book_names_def; metis)
  moreover have "stored_counters E (counters_path bd) w' = stored_counters E (counters_path bd) w"
    using assms(3) by (simp add: stored_counters_def path_exists_def file_at_def books_paths book_names_def)
  moreover have "valid_list E key (blacklist_path bd) w' = valid_list E key (blacklist_path bd) w"
    using assms(3) by (simp add: valid_list_def listed_def stored_blacklist_def file_at_def books_paths book_names_def)
  ultimately show ?thesis using assms(1) by (simp add: books_ready_def)
qed

lemma books_ready_cong:
  assumes "books_ready E key bd lg w" "w_fs w' (resolve E bd) = w_fs w (resolve E bd)"
    and "\<forall>n. w_fs w' (resolve E bd @ [n]) = w_fs w (resolve E bd @ [n])"
  shows "books_ready E key bd lg w'"
  using books_ready_names [OF assms(1,2)] assms(3) by blast

definition due_for_blacklist :: "u32 \<Rightarrow> bool" where
  "due_for_blacklist n \<longleftrightarrow> n \<ge> 3"

lemma increment_books_run:
  fixes w :: "'z world_scheme"
  assumes env: "no_faults E" "json_laws E" "valid_utf8 v" and bk: "books_ready E key bd lg w"
  shows "\<exists>w'. increment_rollback_counter E v (counters_path bd) w = (Inr (sat_add (rollback_count E (counters_path bd) v w) 1), w') \<and>
           rollback_count E (counters_path bd) v w' = sat_add (rollback_count E (counters_path bd) v w) 1 \<and>
           w_fs w' (resolve E (blacklist_path bd)) = w_fs w (resolve E (blacklist_path bd)) \<and> books_ready E key bd lg w'"
proof -
  let ?c = "counters_path bd" and ?b = "blacklist_path bd"
  from bk obtain m where m: "stored_counters E ?c w = Some m" "good_counters m" "writable_at E ?c w" "writable_at E ?b w"
    and vl: "valid_list E key ?b w"
    and al: "al_file lg \<noteq> resolve E bd" "al_file lg \<notin> range (\<lambda>n. resolve E bd @ [n])"
    by (auto simp: books_ready_def)
  from increment_run [OF env m(3,1,2)] obtain w1 m1 where
    1: "increment_rollback_counter E v ?c w = (Inr (sat_add (rollback_count E ?c v w) 1), w1)"
       "stored_counters E ?c w1 = Some m1" "good_counters m1" "writable_at E ?c w1"
       "counter_of m1 v = sat_add (rollback_count E ?c v w) 1" by auto
  have "steps (fs_only (insert (resolve E ?c) (json_temps E ?c))) (increment_rollback_counter E v ?c :: ('z, u32) eio)"
    by (rule steps_increment) auto
  from fs_only_same [OF stepsD [OF this 1(1)]]
  have same: "w_fs w1 q = w_fs w q" if "q \<notin> insert (resolve E ?c) (json_temps E ?c)" for q using that by blast
  have b: "w_fs w1 (resolve E ?b) = w_fs w (resolve E ?b)"
    by (rule same) (use json_temp_not_book(2) in \<open>auto simp: books_paths dest: sym\<close>)
  have "writable_at E ?b w1"
    using 1(4) m(4) b by (simp add: writable_at_def books_paths no_dir_at_def)
  moreover have "valid_list E key ?b w1" using vl b by (simp add: valid_list_def listed_def stored_blacklist_def file_at_def)
  ultimately have "books_ready E key bd lg w1" using 1(2-4) al by (simp add: books_ready_def)
  with 1 b show ?thesis by (auto simp: rollback_count_def)
qed

lemma blacklist_books_run:
  fixes w :: "'z world_scheme"
  assumes env: "no_faults E" "logging_env E" "valid_utf8 v" "valid_utf8 (al_installation_id lg)" and bk: "books_ready E key bd lg w"
  shows "\<exists>w'. blacklist_version E v (blacklist_path bd) key lg w = (Inr (), w') \<and>
           rollback_count E (counters_path bd) v w' = rollback_count E (counters_path bd) v w \<and>
           (add_sorts E key v (blacklist_path bd) w \<longrightarrow>
              blacklisted_in E key (blacklist_path bd) w' = insert v (blacklisted_in E key (blacklist_path bd) w))"
proof -
  let ?c = "counters_path bd" and ?b = "blacklist_path bd"
  from bk have al: "al_file lg \<notin> range (\<lambda>n. resolve E bd @ [n])"
    and wr: "writable_at E ?b w" "valid_list E key ?b w"
    by (auto simp: books_ready_def)
  have sep: "al_file lg \<noteq> resolve E ?b" "al_file lg \<notin> json_temps E ?b" using al by (auto simp: books_paths)
  from blacklist_version_run [OF env wr(2,1) sep] obtain w1 bl where
    1: "blacklist_version E v ?b key lg w = (Inr (), w1)" by blast
  with blacklist_version_adds [OF env wr(2,1) sep]
  have added: "add_sorts E key v ?b w \<Longrightarrow> blacklisted_in E key ?b w1 = insert v (blacklisted_in E key ?b w)" by auto
  have fr: "steps (fs_only (insert (al_file lg) (insert (resolve E ?b) (json_temps E ?b)))) (blacklist_version E v ?b key lg :: ('z, unit) eio)"
    by (rule steps_blacklist_version) auto
  have "resolve E ?c \<notin> insert (al_file lg) (insert (resolve E ?b) (json_temps E ?b))"
    using al json_temp_not_book(1) by (auto simp: books_paths dest: sym)
  then have "w_fs w1 (resolve E ?c) = w_fs w (resolve E ?c)" by (rule fs_only_same [OF stepsD [OF fr 1]])
  then have "stored_counters E ?c w1 = stored_counters E ?c w" by (simp add: stored_counters_def path_exists_def file_at_def)
  with 1 added show ?thesis by (intro exI [of _ w1]) (simp add: rollback_count_def)
qed

lemma after_restore_run:
  fixes w :: "'z world_scheme"
  assumes env: "no_faults E" "logging_env E" "valid_utf8 v" "valid_utf8 (al_installation_id lg)" and bk: "books_ready E key bd lg w"
  shows "\<exists>w'. after_restore E v bd key lg n w = (Inr (), w') \<and>
           rollback_count E (counters_path bd) v w' = sat_add (rollback_count E (counters_path bd) v w) 1 \<and>
           (add_sorts E key v (blacklist_path bd) w \<longrightarrow> blacklisted_in E key (blacklist_path bd) w' =
             (if due_for_blacklist (rollback_count E (counters_path bd) v w') then insert v else id)
               (blacklisted_in E key (blacklist_path bd) w))"
proof -
  let ?c = "counters_path bd" and ?b = "blacklist_path bd" and ?w = "w\<lparr>w_tick := Suc (w_tick w)\<rparr>"
  have laws: "json_laws E" "time_ascii E" using env(2) by (simp_all add: logging_env_def)
  define d where "d = json_obj [(''version'', JString v), (''file_count'', jnat (of_nat n)), (''ts'', JString (e_rfc3339 E (e_clock E (w_tick w))))]"
  have "json_depth d \<le> Suc 0" unfolding d_def by (rule json_depth_obj) (simp add: jnat_def)
  then have pe: "printable_event (RollbackSuccess, d)"
    using env(3) laws(2) unfolding printable_event_def
    by (auto intro!: json_wf_obj json_plain_obj simp: d_def jnat_def snapshot_keys_utf8 time_ascii_def ascii_valid_utf8 JSON_MAX_DEPTH_def)
  from audit_log_ok [OF env(1,2,4) pe] obtain w1 where 1: "audit_log E lg RollbackSuccess d ?w = (Inr (), w1)" by blast
  have same: "w_fs w1 q = w_fs w q" if "q \<noteq> al_file lg" for q
    using fs_only_same [OF stepsD [OF steps_audit_log 1], of q] that by simp
  have "al_file lg \<noteq> resolve E bd" "al_file lg \<notin> range (\<lambda>n. resolve E bd @ [n])" using bk by (simp_all add: books_ready_def)
  then have same_books: "w_fs w1 (resolve E bd) = w_fs w (resolve E bd)" "\<forall>n. w_fs w1 (resolve E bd @ [n]) = w_fs w (resolve E bd @ [n])"
    using same by (metis, metis rangeI)
  then have "books_ready E key bd lg w1" using books_ready_cong [OF bk] by blast
  from increment_books_run [OF env(1) laws(1) env(3) this] obtain w2 where
    2: "increment_rollback_counter E v ?c w1 = (Inr (sat_add (rollback_count E ?c v w1) 1), w2)"
       "rollback_count E ?c v w2 = sat_add (rollback_count E ?c v w1) 1"
       "w_fs w2 (resolve E ?b) = w_fs w1 (resolve E ?b)" "books_ready E key bd lg w2" by blast
  have cnt: "rollback_count E ?c v w1 = rollback_count E ?c v w"
    using same_books(2) by (simp add: rollback_count_def stored_counters_def path_exists_def file_at_def books_paths)
  have bl: "blacklisted_in E key ?b w2 = blacklisted_in E key ?b w" "add_sorts E key v ?b w2 = add_sorts E key v ?b w"
    using 2(3) same_books(2) by (simp_all add: add_sorts_def listed_def blacklisted_in_def stored_blacklist_def file_at_def books_paths)
  from blacklist_books_run [OF env 2(4)] obtain w3 where
    3: "blacklist_version E v ?b key lg w2 = (Inr (), w3)" "rollback_count E ?c v w3 = rollback_count E ?c v w2"
       "add_sorts E key v ?b w2 \<longrightarrow> blacklisted_in E key ?b w3 = insert v (blacklisted_in E key ?b w2)" by blast
  have run: "after_restore E v bd key lg n w = (if due_for_blacklist (rollback_count E ?c v w2) then (Inr (), w3) else (Inr (), w2))"
    using 1 2(1,2) 3(1)
    by (simp add: after_restore_def bindE_def utc_now_def Let_def ret_def due_for_blacklist_def flip: d_def counters_path_def blacklist_path_def)
  show ?thesis
  proof (cases "due_for_blacklist (rollback_count E ?c v w2)")
    case True
    with run 2(2) 3(2,3) cnt bl show ?thesis by (intro exI [of _ w3]) simp
  next
    case False
    with run 2(2) cnt bl show ?thesis by (intro exI [of _ w2]) simp
  qed
qed

section \<open>The rollback\<close>

definition names_apart :: "env \<Rightarrow> path \<Rightarrow> names \<Rightarrow> audit_logger \<Rightarrow> bool" where
  "names_apart E bd vns lg \<longleftrightarrow> vns \<noteq> e_cwd E \<and> resolve E bd \<noteq> e_cwd E \<and>
     al_file lg \<notin> range (\<lambda>n. e_cwd E @ [n]) \<and> al_file lg \<notin> range (\<lambda>n. vns @ [n])"

lemma apart_entries:
  assumes "restorable_names (map fe_path es)" "names_apart E bd vns lg"
  shows "apart E (abs_path vns) lg es" "\<forall>e \<in> set es. restore_target E e \<notin> books E bd lg"
proof -
  have e: "plain_name (fe_path e)" if "e \<in> set es" for e using assms(1) that by (auto simp: restorable_names_def)
  note p = entry_paths [OF e]
  have "map (restore_target E) es = map (\<lambda>n. e_cwd E @ [n]) (map fe_path es)" using p(1) by simp
  moreover have "inj_on (\<lambda>n. e_cwd E @ [n]) X" for X by (auto intro: inj_onI)
  ultimately have "distinct (map (restore_target E) es)"
    using assms(1) by (simp only: distinct_map restorable_names_def)
  moreover have "al_file lg \<noteq> e_cwd E @ [n]" "al_file lg \<noteq> vns @ [n]" for n
    using assms(2) by (auto simp: names_apart_def)
  ultimately show "apart E (abs_path vns) lg es"
    using assms by (auto simp: apart_def p resolve_snoc restorable_names_def names_apart_def dest: sym)
  show "\<forall>e \<in> set es. restore_target E e \<notin> books E bd lg"
    using assms(2) by (auto simp: books_def p names_apart_def dest: sym)
qed

lemma rollback_run:
  fixes w :: "'z world_scheme"
  assumes env: "no_faults E" "logging_env E" "valid_utf8 v" "valid_utf8 (al_installation_id lg)"
    and sm: "stored_snapshot E bd v w = Some sm" "snapshot_accepted E key sm" "restorable_names (map fe_path (sm_files sm))"
    and fs: "is_dir w (e_cwd E)" "is_dir w vns" "vns = resolve E (version_dir bd v)" "names_apart E bd vns lg"
    and rd: "\<forall>e \<in> set (sm_files sm). ready_entry E vns w e" and bk: "books_ready E key bd lg w"
  shows "\<exists>w'. rollback E v bd key lg w = (Inr (), w') \<and>
           (\<forall>e \<in> set (sm_files sm). file_at w' (e_cwd E @ [fe_path e]) = file_at w (vns @ [fe_path e])) \<and>
           rollback_count E (counters_path bd) v w' = sat_add (rollback_count E (counters_path bd) v w) 1 \<and>
           (add_sorts E key v (blacklist_path bd) w \<longrightarrow> blacklisted_in E key (blacklist_path bd) w' =
             (if due_for_blacklist (rollback_count E (counters_path bd) v w') then insert v else id)
               (blacklisted_in E key (blacklist_path bd) w))"
proof -
  let ?w = "w\<lparr>w_tick := Suc (w_tick w)\<rparr>" and ?w2 = "w\<lparr>w_tick := Suc (Suc (w_tick w))\<rparr>"
  from sm(1) obtain s where s: "file_at w (resolve E (snapshot_path bd v)) = Some s"
    "json_typed E ''SnapshotManifest'' decode_manifest s = Inr sm"
    by (auto simp: stored_snapshot_def split: option.splits sum.splits)
  from fs_read_run [OF env(1) s(1)] s(2) sm(2) have ld: "load_snapshot E v (version_dir bd v) key lg w = (Inr sm, ?w)"
    by (simp add: load_snapshot_def Let_def bindE_def map_err_def lift_res_def snapshot_accepted_def ret_def flip: snapshot_path_def)
  have cn: "canonicalize E (version_dir bd v) ?w = (Inr (abs_path vns), ?w2)"
    using fs(2) env(1) by (auto simp: canonicalize_def Let_def sys_nofault fs(3) is_dir_def split: option.splits node.splits)
  have "is_dir ?w2 (e_cwd E)" "\<forall>e \<in> set (sm_files sm). ready_entry E vns ?w2 e" "vns \<noteq> e_cwd E"
    using fs(1,4) rd by (simp_all add: is_dir_def ready_entry_def no_dir_at_def file_at_def names_apart_def)
  from restore_all_run [OF env(1) sm(3) this(1,3,2), of v lg] obtain w3 where
    3: "for_each (sm_files sm) (restore_entry E v (abs_path vns) lg) ?w2 = (Inr (), w3)"
       "\<forall>q. q \<notin> restored_places E (sm_files sm) \<longrightarrow> w_fs w3 q = w_fs w q" by auto
  have "resolve E bd \<notin> restored_places E (sm_files sm)"
  proof
    assume "resolve E bd \<in> restored_places E (sm_files sm)"
    then have "no_dir_at w (resolve E bd)" "resolve E bd \<noteq> []" using rd by (auto simp: restored_places_def ready_entry_def)
    moreover have "is_dir w (resolve E bd)" using bk by (simp add: books_ready_def writable_at_def books_paths)
    ultimately show False by (auto simp: is_dir_def no_dir_at_def split: option.splits node.splits)
  qed
  moreover have "resolve E bd @ [n] \<notin> restored_places E (sm_files sm)" for n
    using fs(4) by (auto simp: restored_places_def names_apart_def)
  ultimately have out: "w_fs w3 (resolve E bd) = w_fs w (resolve E bd)" "\<forall>n. w_fs w3 (resolve E bd @ [n]) = w_fs w (resolve E bd @ [n])"
    using 3(2) by blast+
  note bk3 = books_ready_cong [OF bk out]
  from after_restore_run [OF env bk3, of "length (sm_files sm)"] obtain w4 where
    4: "after_restore E v bd key lg (length (sm_files sm)) w3 = (Inr (), w4)"
       "rollback_count E (counters_path bd) v w4 = sat_add (rollback_count E (counters_path bd) v w3) 1"
       "add_sorts E key v (blacklist_path bd) w3 \<longrightarrow> blacklisted_in E key (blacklist_path bd) w4 =
          (if due_for_blacklist (rollback_count E (counters_path bd) v w4) then insert v else id) (blacklisted_in E key (blacklist_path bd) w3)"
    by blast
  have same: "rollback_count E (counters_path bd) v w3 = rollback_count E (counters_path bd) v w"
    "blacklisted_in E key (blacklist_path bd) w3 = blacklisted_in E key (blacklist_path bd) w"
    "add_sorts E key v (blacklist_path bd) w3 = add_sorts E key v (blacklist_path bd) w"
    using out(2) by (simp_all add: add_sorts_def listed_def rollback_count_def stored_counters_def path_exists_def blacklisted_in_def stored_blacklist_def
        file_at_def books_paths)
  have run: "rollback E v bd key lg w = (Inr (), w4)"
    using ld cn 3(1) 4(1) by (simp add: rollback_def Let_def bindE_def map_err_def)
  note ap = apart_entries [OF sm(3) fs(4)]
  have "file_at w4 (e_cwd E @ [fe_path e]) = file_at w (vns @ [fe_path e])" if "e \<in> set (sm_files sm)" for e
  proof -
    have pn: "plain_name (fe_path e)" using sm(3) that by (auto simp: restorable_names_def)
    from rollback_complete_files [OF run sm(1) ap [unfolded fs(3)]] that
    show ?thesis by (auto simp: entry_paths [OF pn] resolve_snoc fs(3))
  qed
  with run 4(2,3) same show ?thesis by auto
qed

section \<open>The restored files\<close>

lemma snapshot_restored:
  fixes w :: "'z world_scheme"
  assumes env: "no_faults E" "logging_env E" "valid_utf8 v" "valid_utf8 (al_installation_id lg)"
    and snap: "take_snapshot E v ps bd key w0 = (Inr u, w1)" "snapshot_targets E vns ps"
      "restorable_names (map (target_name E) ps)" "vns = resolve E (version_dir bd v)"
    and kept: "\<forall>n. w_fs w (vns @ [n]) = w_fs w1 (vns @ [n])"
    and fs: "is_dir w (e_cwd E)" "is_dir w vns" "names_apart E bd vns lg" "books_ready E key bd lg w"
    and places: "\<forall>p \<in> set ps. no_dir_at w (e_cwd E @ [target_name E p]) \<and> no_dir_at w (e_cwd E @ [restore_temp_name (target_name E p)])"
  shows "\<exists>w'. rollback E v bd key lg w = (Inr (), w') \<and>
           (\<forall>p \<in> set ps. \<exists>b. file_at w0 (resolve E p) = Some b \<and> file_at w' (e_cwd E @ [target_name E p]) = Some b)"
proof -
  from take_snapshot_stored [OF snap(1) snap(2) [unfolded snap(4)] env(2,3)] obtain sm where
    sm: "stored_snapshot E bd v w1 = Some sm" "snapshot_accepted E key sm" "list_all2 (copied E vns w0 w1) ps (sm_files sm)"
    unfolding snap(4) by blast
  have names: "map fe_path (sm_files sm) = map (target_name E) ps"
    using sm(3) by (induction rule: list_all2_induct) (auto simp: copied_def)
  have same: "file_at w (vns @ [n]) = file_at w1 (vns @ [n])" for n using kept by (simp add: file_at_def)
  have st: "stored_snapshot E bd v w = Some sm"
    using sm(1) same by (simp add: stored_snapshot_def snapshot_path_def resolve_join_name flip: snap(4))
  have origin: "\<exists>p \<in> set ps. copied E vns w0 w1 p e" if "e \<in> set (sm_files sm)" for e
    using sm(3) that by (metis in_set_conv_nth list_all2_conv_all_nth)
  have ready: "\<forall>e \<in> set (sm_files sm). ready_entry E vns w e"
    using origin places same by (fastforce simp: ready_entry_def copied_def)
  from rollback_run [OF env st sm(2) _ fs(1,2) snap(4) fs(3) ready fs(4)] snap(3) obtain w' where
    w': "rollback E v bd key lg w = (Inr (), w')"
        "\<forall>e \<in> set (sm_files sm). file_at w' (e_cwd E @ [fe_path e]) = file_at w (vns @ [fe_path e])"
    unfolding names by blast
  have "\<exists>b. file_at w0 (resolve E p) = Some b \<and> file_at w' (e_cwd E @ [target_name E p]) = Some b" if "p \<in> set ps" for p
  proof -
    from sm(3) that obtain e where "e \<in> set (sm_files sm)" "copied E vns w0 w1 p e"
      by (metis in_set_conv_nth list_all2_conv_all_nth)
    with w'(2) same show ?thesis by (force simp: copied_def)
  qed
  with w'(1) show ?thesis by blast
qed

section \<open>Properties\<close>

text \<open>C32. A snapshot can be rolled back: when \<open>take_snapshot\<close> has succeeded on files whose base names are distinct,
  none of them \<open>snapshot.json\<close> nor the temporary name of another, and nobody has touched the stored snapshot
  since, then with a working system and places in the working directory that are not directories the
  rollback succeeds, and under its base name in the working directory every file has the content it had
  when the snapshot was taken. (Of two files with one base name, \<open>take_snapshot\<close> keeps the last.)\<close>

theorem snapshot_rollback_roundtrip:
  fixes w :: "'z world_scheme"
  assumes env: "no_faults E" "logging_env E" "valid_utf8 v" "valid_utf8 (al_installation_id lg)"
    and snap: "take_snapshot E v ps bd key w0 = (Inr u, w1)" "snapshot_targets E vns ps"
      "restorable_names (map (target_name E) ps)" "vns = resolve E (version_dir bd v)"
    and kept: "\<forall>n. w_fs w (vns @ [n]) = w_fs w1 (vns @ [n])"
    and fs: "is_dir w (e_cwd E)" "is_dir w vns" "names_apart E bd vns lg" "books_ready E key bd lg w"
    and places: "\<forall>p \<in> set ps. no_dir_at w (e_cwd E @ [target_name E p]) \<and> no_dir_at w (e_cwd E @ [restore_temp_name (target_name E p)])"
  shows "\<exists>w'. rollback E v bd key lg w = (Inr (), w') \<and>
           (\<forall>p \<in> set ps. \<exists>b. file_at w0 (resolve E p) = Some b \<and> file_at w' (e_cwd E @ [target_name E p]) = Some b)"
  by (rule snapshot_restored [OF assms])

text \<open>C33. A rollback that succeeds is complete: every file of the snapshot then holds the bytes its backup
  held, and these have the recorded digest (the files being apart from each other, from the backups
  and from the log).\<close>

theorem rollback_complete:
  assumes "rollback E v bd key lg w = (Inr u, w')" "stored_snapshot E bd v w = Some sm"
    and "apart E (abs_path (resolve E (version_dir bd v))) lg (sm_files sm)"
    and "\<forall>e \<in> set (sm_files sm). restore_target E e \<notin> books E bd lg"
  shows "\<forall>e \<in> set (sm_files sm). \<exists>b.
           file_at w (resolve E (backup_path (abs_path (resolve E (version_dir bd v))) e)) = Some b \<and> has_digest E e b \<and>
           file_at w' (restore_target E e) = Some b"
  by (rule rollback_complete_files [OF assms])

text \<open>C34. The third rollback of a version blacklists it: with a working system, when a version has been
  rolled back twice or more, the next rollback of it succeeds and the version is reported as
  blacklisted afterwards (unless the blacklist already holds it and is out of order).\<close>

theorem third_rollback_blacklists:
  fixes w :: "'z world_scheme"
  assumes env: "no_faults E" "logging_env E" "valid_utf8 v" "valid_utf8 (al_installation_id lg)"
    and sm: "stored_snapshot E bd v w = Some sm" "snapshot_accepted E key sm" "restorable_names (map fe_path (sm_files sm))"
    and fs: "is_dir w (e_cwd E)" "is_dir w vns" "vns = resolve E (version_dir bd v)" "names_apart E bd vns lg"
    and rd: "\<forall>e \<in> set (sm_files sm). ready_entry E vns w e" and bk: "books_ready E key bd lg w"
    and twice: "2 \<le> rollback_count E (counters_path bd) v w" and order: "add_sorts E key v (blacklist_path bd) w"
  shows "\<exists>w'. rollback E v bd key lg w = (Inr (), w') \<and> fst (is_blacklisted E v (blacklist_path bd) key w') = Inr True"
proof -
  from rollback_run [OF env sm fs rd bk] obtain w' where
    w': "rollback E v bd key lg w = (Inr (), w')"
        "rollback_count E (counters_path bd) v w' = sat_add (rollback_count E (counters_path bd) v w) 1"
        "blacklisted_in E key (blacklist_path bd) w' =
             (if due_for_blacklist (rollback_count E (counters_path bd) v w') then insert v else id)
               (blacklisted_in E key (blacklist_path bd) w)" using order by blast
  have "due_for_blacklist (rollback_count E (counters_path bd) v w')"
    using twice unfolding w'(2) due_for_blacklist_def word_le_nat_alt unat_sat_add by simp
  with w'(3) have v: "v \<in> blacklisted_in E key (blacklist_path bd) w'" by simp
  then obtain bl where "stored_blacklist E key (blacklist_path bd) w' = Some bl"
    by (auto simp: blacklisted_in_def split: option.splits)
  from is_blacklisted_run [OF env(1) this, of v] v w'(1) show ?thesis by auto
qed

section \<open>Witnesses\<close>

lemma version_utf8: "valid_utf8 ''1.2''" "valid_utf8 (al_installation_id lg1)"
  unfolding lg1_def by code_simp+

lemma apart1: "names_apart env0 bk1 [''bk'', ''v1.2''] lg1"
  by (auto simp: names_apart_def resolve1 lg1_def)

lemma names1: "restorable_names [''prog'']"
  by (simp add: restorable_names_def plain1 restore_temp_name_def stem_def)

lemma ready1:
  assumes "w_fs w [''bk'', ''v1.2'', ''prog''] = Some (File ''data'' m)" "w_fs w [''prog''] = None" "w_fs w [restore_temp_name ''prog''] = None"
  shows "ready_entry env0 [''bk'', ''v1.2''] w entry1"
  using assms by (simp add: ready_entry_def entry1_def has_digest_def no_dir_at_def file_at_def)

text \<open>Worlds whose backup directory holds no other directories and whose books are readable.\<close>

lemma books_ready1:
  assumes "w_fs w [''bk''] = Some (Dir 0x1C0)" "\<forall>n. no_dir_at w [''bk'', n] \<or> n = ''v1.2''"
    and "w_fs w [''bk'', ''blacklist.json''] = None"
    and "stored_counters env0 (counters_path bk1) w = Some m" "good_counters m"
  shows "books_ready env0 key bk1 lg1 w"
proof -
  have "json_temp_name n \<noteq> ''v1.2''" for n by (simp add: json_temp_name_def)
  then have nd: "\<forall>n. no_dir_at w [''bk'', json_temp_name n]" "no_dir_at w [''bk'', ''rollback_counters.json'']"
    "no_dir_at w [''bk'', ''blacklist.json'']" using assms(2) by auto
  have "is_dir w [''bk'']" using assms(1) by (simp add: is_dir_def)
  with nd have "writable_at env0 (counters_path bk1) w" "writable_at env0 (blacklist_path bk1) w"
    using json_temp_not_book by (auto simp: writable_at_def books_paths resolve1 dest: sym)
  moreover have "valid_list env0 key (blacklist_path bk1) w"
    using assms(3) by (simp add: valid_list_def listed_def stored_blacklist_def file_at_def books_paths resolve1)
  ultimately show ?thesis
    using assms(4,5) by (auto simp: books_ready_def resolve1 lg1_def)
qed

definition app_world :: world where
  "app_world = rb_world (sm1 []) [([''app''], Dir 0x1C0), ([''app'', ''prog''], File ''data'' 0x1ED)]"

lemma app_world_fs:
  "w_fs app_world [''app'', ''prog''] = Some (File ''data'' 0x1ED)" "w_fs app_world [''bk'', ''v1.2''] = Some (Dir 0x1C0)"
  "w_fs app_world [''bk'', ''v1.2'', ''prog''] = Some (File ''data'' 0x1A4)" "\<exists>s. w_fs app_world [''bk'', ''v1.2'', ''snapshot.json''] = Some (File s 0x1A4)"
  "w_fs app_world [''bk''] = Some (Dir 0x1C0)"
  by (simp_all add: app_world_def rb_world_def world_of_def)

lemma snapshot_file1:
  assumes "w_fs w = w_fs app_world"
  shows "\<exists>e w1 m. snapshot_file env0 (abs_path [''bk'', ''v1.2'']) [RootDir, Normal ''app'', Normal ''prog''] w = (Inr e, w1) \<and>
           w_fs w1 = (w_fs w)([''bk'', ''v1.2'', ''prog''] \<mapsto> File ''data'' m)"
proof -
  let ?p = "[RootDir, Normal ''app'', Normal ''prog'']" and ?c = "abs_path [''app'', ''prog'']"
  let ?d = "path_join (abs_path [''bk'', ''v1.2'']) [Normal ''prog'']"
  note nf = no_faults_env0
  let ?w1 = "w\<lparr>w_tick := Suc (w_tick w)\<rparr>" and ?w2 = "w\<lparr>w_tick := Suc (Suc (w_tick w))\<rparr>" and ?w3 = "w\<lparr>w_tick := Suc (Suc (Suc (w_tick w)))\<rparr>"
  have 1: "canonicalize env0 ?p w = (Inr ?c, ?w1)"
    by (simp add: canonicalize_def Let_def sys_nofault assms app_world_fs resolve_def)
  have 2: "fs_read env0 ?c ?w1 = (Inr ''data'', ?w2)"
    using fs_read_run [OF nf, of ?w1 ?c "''data''"] by (simp add: file_at_def assms app_world_fs)
  have 3: "metadata_mode env0 ?c ?w2 = (Inr (0x1ED OR 0x8000), ?w3)"
    by (simp add: metadata_mode_def Let_def sys_nofault assms app_world_fs)
  have "is_dir ?w3 [''bk'', ''v1.2'']" "no_dir_at ?w3 ([''bk'', ''v1.2''] @ [''prog''])" "resolve env0 ?d = [''bk'', ''v1.2''] @ [''prog'']"
    by (simp_all add: is_dir_def no_dir_at_def assms app_world_fs resolve_join_name)
  from fs_write_run [OF nf this(3,1,2), of "''data''"] obtain w4 m where
    4: "fs_write env0 ?d ''data'' ?w3 = (Inr (), w4)" "w_fs w4 = (w_fs w)([''bk'', ''v1.2'', ''prog''] \<mapsto> File ''data'' m)" by auto
  have 5: "assert_path_under_parent env0 ?d (abs_path [''bk'', ''v1.2'']) = Inr ()"
    using assert_ok [of env0 ?d "abs_path [''bk'', ''v1.2'']" "()"] by (simp add: path_join_normal)
  have "file_name ?c = Some ''prog''" by (simp add: file_name_abs)
  with 1 2 3 4 5 show ?thesis
    by (auto simp: snapshot_file_def bindE_def map_err_def lift_res_def Let_def ret_def)
qed

lemma finish_snapshot1:
  assumes "is_dir w [''bk'', ''v1.2'']" "no_dir_at w [''bk'', ''v1.2'', ''snapshot.json'']"
  shows "\<exists>w1 s m. finish_snapshot env0 v key (abs_path [''bk'', ''v1.2'']) es w = (Inr (), w1) \<and>
           w_fs w1 = (w_fs w)([''bk'', ''v1.2'', ''snapshot.json''] \<mapsto> File s m)"
proof -
  let ?d = "path_join (abs_path [''bk'', ''v1.2'']) [Normal ''snapshot.json'']" and ?w = "w\<lparr>w_tick := Suc (w_tick w)\<rparr>"
  have r: "resolve env0 ?d = [''bk'', ''v1.2''] @ [''snapshot.json'']" by (simp add: resolve_join_name)
  have "is_dir ?w [''bk'', ''v1.2'']" "no_dir_at ?w ([''bk'', ''v1.2''] @ [''snapshot.json''])"
    using assms by (simp_all add: is_dir_def no_dir_at_def)
  note wr = fs_write_run [OF no_faults_env0 r this]
  define s where "s = enc (manifest_json \<lparr>sm_version = v, sm_created_at = show_int 1700000000, sm_files = es,
    sm_manifest_hmac = enc_str (key @ CHR ''.'' # enc (sort_json_keys (unsigned_manifest v (show_int 1700000000) es)))\<rparr>)"
  from wr [of s] obtain w1 m where w1: "fs_write env0 ?d s ?w = (Inr (), w1)"
    "w_fs w1 = (w_fs w)([''bk'', ''v1.2'', ''snapshot.json''] \<mapsto> File s m)" by auto
  then have "finish_snapshot env0 v key (abs_path [''bk'', ''v1.2'']) es w = (Inr (), w1)"
    by (simp add: finish_snapshot_def utc_now_def bindE_def lift_res_def map_err_def Let_def canonical_json_sorted_eq
        canonical_json_def compute_hmac_def flip: s_def)
  with w1(2) show ?thesis by blast
qed

lemma take_snapshot1:
  obtains w1 m1 s m2 where
    "take_snapshot env0 ''1.2'' [[RootDir, Normal ''app'', Normal ''prog'']] bk1 ''k'' app_world = (Inr (), w1)"
    "w_fs w1 = (w_fs app_world)([''bk'', ''v1.2'', ''prog''] \<mapsto> File ''data'' m1, [''bk'', ''v1.2'', ''snapshot.json''] \<mapsto> File s m2)"
proof -
  let ?w = "app_world\<lparr>w_tick := Suc (w_tick app_world)\<rparr>"
  have "is_dir app_world [''bk'']" "is_dir app_world [''bk'', ''v1.2'']" by (simp_all add: is_dir_def app_world_fs)
  moreover have "prefixes (resolve env0 bk1) = [[], [''bk'']]" "prefixes (resolve env0 (version_dir bk1 ''1.2'')) = [[], [''bk''], [''bk'', ''v1.2'']]"
    by (simp_all add: resolve1)
  ultimately have 1: "create_dir_all env0 0x1C0 bk1 app_world = (Inr (), app_world)"
    "create_dir_all env0 0x1C0 (version_dir bk1 ''1.2'') app_world = (Inr (), app_world)"
    by (simp_all add: create_dir_all_def bk1_def version_dir1 ret_def is_dir_def)
  have 2: "canonicalize env0 (version_dir bk1 ''1.2'') app_world = (Inr (abs_path [''bk'', ''v1.2'']), ?w)"
    by (simp add: canonicalize_def Let_def sys_nofault resolve1 app_world_fs)
  from snapshot_file1 [of ?w] obtain e w1 m where
    3: "snapshot_file env0 (abs_path [''bk'', ''v1.2'']) [RootDir, Normal ''app'', Normal ''prog''] ?w = (Inr e, w1)"
       "w_fs w1 = (w_fs app_world)([''bk'', ''v1.2'', ''prog''] \<mapsto> File ''data'' m)" by auto
  have "is_dir w1 [''bk'', ''v1.2'']" "no_dir_at w1 [''bk'', ''v1.2'', ''snapshot.json'']"
    using app_world_fs(4) by (auto simp: is_dir_def no_dir_at_def 3(2) app_world_fs(2))
  from finish_snapshot1 [OF this, of "''1.2''" "''k''" "[e]"] obtain w2 s m2 where
    4: "finish_snapshot env0 ''1.2'' ''k'' (abs_path [''bk'', ''v1.2'']) [e] w1 = (Inr (), w2)"
       "w_fs w2 = (w_fs app_world)([''bk'', ''v1.2'', ''prog''] \<mapsto> File ''data'' m, [''bk'', ''v1.2'', ''snapshot.json''] \<mapsto> File s m2)"
    unfolding 3(2) by blast
  show thesis
    by (rule that [OF _ 4(2)]) (simp add: take_snapshot_eq bindE_def map_err_def 1 2 3(1) 4(1) ret_def)
qed

lemma snapshot_rollback_roundtrip_witness:
  "\<exists>w1 w'. take_snapshot env0 ''1.2'' [[RootDir, Normal ''app'', Normal ''prog'']] bk1 ''k'' app_world = (Inr (), w1) \<and>
     rollback env0 ''1.2'' bk1 ''k'' lg1 w1 = (Inr (), w') \<and> file_at w' [''prog''] = Some ''data''"
proof -
  let ?ps = "[[RootDir, Normal ''app'', Normal ''prog'']]"
  obtain w1 m1 s m2 where
    1: "take_snapshot env0 ''1.2'' ?ps bk1 ''k'' app_world = (Inr (), w1)" and
    fs: "w_fs w1 = (w_fs app_world)([''bk'', ''v1.2'', ''prog''] \<mapsto> File ''data'' m1, [''bk'', ''v1.2'', ''snapshot.json''] \<mapsto> File s m2)"
    by (rule take_snapshot1)
  have n: "target_name env0 [RootDir, Normal ''app'', Normal ''prog''] = ''prog''" by (simp add: target_name_def resolve_def)
  have "valid_utf8 ''prog''" by code_simp
  then have tg: "snapshot_targets env0 [''bk'', ''v1.2''] ?ps"
    by (simp add: snapshot_targets_def n plain1) (simp add: resolve_def)
  have nm: "restorable_names (map (target_name env0) ?ps)" using names1 by (simp add: n)
  have free: "w_fs w1 [x] = (if x = ''bk'' \<or> x = ''var'' \<or> x = ''app'' then Some (Dir 0x1C0) else None)" for x
    by (simp add: fs app_world_def rb_world_def world_of_def)
  have temp: "restore_temp_name ''prog'' = ''prog.synqro_restore.tmp''" by (simp add: restore_temp_name_def stem_def)
  have "books_ready env0 ''k'' bk1 lg1 w1"
  proof (rule books_ready1)
    show "stored_counters env0 (counters_path bk1) w1 = Some []"
      by (simp add: stored_counters_def path_exists_def books_paths resolve1 fs app_world_def rb_world_def world_of_def)
    show "\<forall>n. no_dir_at w1 [''bk'', n] \<or> n = ''v1.2''"
      by (simp add: no_dir_at_def fs app_world_def rb_world_def world_of_def)
  qed (simp_all add: free good_counters_def json_readable_def JSON_MAX_DEPTH_def, simp_all add: fs app_world_def rb_world_def world_of_def)
  moreover have "is_dir w1 [''bk'', ''v1.2'']" by (simp add: is_dir_def fs app_world_fs)
  ultimately show ?thesis
    using snapshot_rollback_roundtrip [OF no_faults_env0 logging_env0 version_utf8 1 tg nm _ _ _ _ apart1, of w1]
    by (auto simp: resolve1 is_dir_def n temp free no_dir_at_def 1) (auto simp: resolve_def file_at_def app_world_fs)
qed

definition counted_world :: "u64 \<Rightarrow> world" where
  "counted_world n = rb_world (sm1 [entry1]) [([''bk'', ''rollback_counters.json''], File (enc (JObject [(''1.2'', jnat n)])) 0x180)]"

lemma counted_world_ready:
  "restorable_names (map fe_path (sm_files (sm1 [entry1])))" "is_dir (counted_world n) (e_cwd env0)" "is_dir (counted_world n) [''bk'', ''v1.2'']"
  "\<forall>e \<in> set (sm_files (sm1 [entry1])). ready_entry env0 [''bk'', ''v1.2''] (counted_world n) e"
  using names1 ready1 [of "counted_world n"]
  by (simp_all add: sm1_def entry1_def is_dir_def counted_world_def rb_world_def world_of_def restore_temp_name_def stem_def)

lemma counted_world_counters: "stored_counters env0 (counters_path bk1) (counted_world n) = Some [(''1.2'', jnat n)]"
  by (simp add: stored_counters_def path_exists_def books_paths resolve1 counted_world_def rb_world_def world_of_def file_at_def
      json_map_def parse_enc map_inr_def bt_collect_def jnat_def)

lemma counted_world_books: "books_ready env0 key bk1 lg1 (counted_world n)"
proof (rule books_ready1)
  show "stored_counters env0 (counters_path bk1) (counted_world n) = Some [(''1.2'', jnat n)]" by (rule counted_world_counters)
  show "good_counters [(''1.2'', jnat n)]" using version_utf8(1) by (simp add: good_counters_def json_readable_def JSON_MAX_DEPTH_def jnat_def)
  show "\<forall>x. no_dir_at (counted_world n) [''bk'', x] \<or> x = ''v1.2''"
    by (simp add: no_dir_at_def counted_world_def rb_world_def world_of_def)
qed (simp_all add: counted_world_def rb_world_def world_of_def)

lemma rollback_complete_witness:
  "\<exists>w'. rollback env0 ''1.2'' bk1 ''k'' lg1 (counted_world 0) = (Inr (), w') \<and> file_at w' [''prog''] = Some ''data''"
proof -
  have st: "stored_snapshot env0 bk1 ''1.2'' (counted_world 0) = Some (sm1 [entry1])" by (simp add: counted_world_def stored1)
  have p: "plain_name (fe_path entry1)" by (simp add: entry1_def plain1)
  have files: "sm_files (sm1 [entry1]) = [entry1]" by (simp add: sm1_def)
  from rollback_run [OF no_faults_env0 logging_env0 version_utf8 st accepted1 counted_world_ready(1-3) resolve1(2) [symmetric]
      apart1 counted_world_ready(4) counted_world_books]
  obtain w' where w': "rollback env0 ''1.2'' bk1 ''k'' lg1 (counted_world 0) = (Inr (), w')" by blast
  from rollback_complete [OF w' st] apart_entries [OF counted_world_ready(1) apart1]
  have "\<exists>b. has_digest env0 entry1 b \<and> file_at w' (restore_target env0 entry1) = Some b"
    unfolding resolve1 files by auto
  then have "file_at w' (restore_target env0 entry1) = Some ''data''"
    by (simp add: has_digest_def entry1_def enc_str_inj)
  with w' show ?thesis by (simp add: entry_paths [OF p]) (simp add: entry1_def)
qed

lemma third_rollback_blacklists_witness:
  "\<exists>w'. rollback env0 ''1.2'' bk1 ''k'' lg1 (counted_world 2) = (Inr (), w') \<and>
     fst (is_blacklisted env0 ''1.2'' (blacklist_path bk1) ''k'' w') = Inr True"
proof -
  have st: "stored_snapshot env0 bk1 ''1.2'' (counted_world 2) = Some (sm1 [entry1])" by (simp add: counted_world_def stored1)
  have n: "2 \<le> rollback_count env0 (counters_path bk1) ''1.2'' (counted_world 2)"
    unfolding rollback_count_def counted_world_counters by (simp add: counter_of_def jnat_def)
  have "add_sorts env0 ''k'' ''1.2'' (blacklist_path bk1) (counted_world 2)"
    by (simp add: add_sorts_def listed_def stored_blacklist_def file_at_def books_paths resolve1 counted_world_def rb_world_def world_of_def)
  with n show ?thesis
    by (rule third_rollback_blacklists [OF no_faults_env0 logging_env0 version_utf8 st accepted1 counted_world_ready(1-3) resolve1(2) [symmetric]
      apart1 counted_world_ready(4) counted_world_books])
qed

end
