(* ===== verification/Result_FFI.thy ===== *)
theory Result_FFI
  imports Witness_Env
begin

text \<open>
  What crosses the C boundary: the error counter and \<open>SynqroResult\<close> of \<open>src/error.rs\<close>, the allocation
  and release of C strings, \<open>decode_cstr\<close>, \<open>catch_all\<close> and the two free functions of \<open>src/lib.rs\<close>. The C
  heap maps addresses to the strings \<open>into_raw\<close> handed out; address 0 is the null pointer.
\<close>

section \<open>C strings\<close>

definition into_raw :: "string \<Rightarrow> 'z world_scheme \<Rightarrow> nat \<times> 'z world_scheme" where
  "into_raw s w = (w_brk w, w\<lparr>w_heap := (w_heap w)(w_brk w \<mapsto> s), w_brk := Suc (w_brk w)\<rparr>)"

definition drop_raw :: "nat \<Rightarrow> 'z world_scheme \<Rightarrow> 'z world_scheme" where
  "drop_raw p w = w\<lparr>w_heap := (w_heap w)(p := None)\<rparr>"

text \<open>\<open>CString::new\<close> refuses interior NUL bytes.\<close>

definition cstring_new :: "string \<Rightarrow> string option" where
  "cstring_new s = (if CHR 0x00 \<in> set s then None else Some s)"

text \<open>What a C caller reads: up to the terminating NUL.\<close>

definition c_text :: "string \<Rightarrow> string" where
  "c_text s = takeWhile (\<lambda>c. c \<noteq> CHR 0x00) s"

text \<open>Addresses handed out later are new; null is never one.\<close>

definition heap_ok :: "'z world_scheme \<Rightarrow> bool" where
  "heap_ok w \<longleftrightarrow> 0 < w_brk w \<and> (\<forall>p \<ge> w_brk w. w_heap w p = None) \<and> w_heap w 0 = None"

section \<open>Results\<close>

record synqro_result =
  r_status :: synqro_status
  r_message :: nat
  r_error_id :: u64

definition next_error_id :: "'z world_scheme \<Rightarrow> u64 \<times> 'z world_scheme" where
  "next_error_id w = (w_next_id w, w\<lparr>w_next_id := w_next_id w + 1\<rparr>)"

definition result_ok :: synqro_result where
  "result_ok = \<lparr>r_status = SynqroOk, r_message = 0, r_error_id = 0\<rparr>"

definition result_err :: "synqro_status \<Rightarrow> string \<Rightarrow> u64 \<Rightarrow> 'z world_scheme \<Rightarrow> synqro_result \<times> 'z world_scheme" where
  "result_err status msg n w =
     (let cstring = (case cstring_new (sanitise msg) of Some s \<Rightarrow> s | None \<Rightarrow> ''(message encoding error)'') in
      case into_raw cstring w of (p, w') \<Rightarrow> (\<lparr>r_status = status, r_message = p, r_error_id = n\<rparr>, w'))"

definition from_error :: "synqro_error \<Rightarrow> 'z world_scheme \<Rightarrow> synqro_result \<times> 'z world_scheme" where
  "from_error err w =
     (let status = status_of_error err in
      case next_error_id w of (n, w') \<Rightarrow> result_err status (public_message err n) n w')"

text \<open>A panic of the closure is caught and becomes a result. This is the behaviour of a build whose panics
  unwind, as the comment at the function says; the release profile of \<open>Cargo.toml\<close> sets \<open>panic = "abort"\<close>, so there a
  panic ends the host's process instead.\<close>

definition catch_all :: "('z world_scheme, synqro_error exn, unit) io \<Rightarrow> 'z world_scheme \<Rightarrow> synqro_result \<times> 'z world_scheme" where
  "catch_all f w = (case f w of
      (Inr _, w') \<Rightarrow> (result_ok, w')
    | (Inl (Err e), w') \<Rightarrow> from_error e w'
    | (Inl Panic, w') \<Rightarrow> (case next_error_id w' of (n, w'') \<Rightarrow>
        result_err SynqroErrInternal ''an unexpected internal error occurred'' n w''))"

section \<open>Arguments and release\<close>

text \<open>An argument is \<open>None\<close> for a null pointer, else the bytes before the terminating NUL.\<close>

definition decode_cstr :: "bytes option \<Rightarrow> string \<Rightarrow> synqro_error + string" where
  "decode_cstr ptr field = (case ptr of
      None \<Rightarrow> Inl (InvalidInput (''argument `'' @ field @ ''` must not be null''))
    | Some s \<Rightarrow>
        if \<not> valid_utf8 s then Inl (InvalidInput (''`'' @ field @ ''` is not valid UTF-8''))
        else case validate_input s of Inl e \<Rightarrow> Inl e | Inr _ \<Rightarrow> Inr s)"

definition synqro_free_string :: "nat \<Rightarrow> 'z world_scheme \<Rightarrow> 'z world_scheme" where
  "synqro_free_string p w = (if p = 0 then w else drop_raw p w)"

definition synqro_free_result :: "synqro_result option \<Rightarrow> 'z world_scheme \<Rightarrow> synqro_result option \<times> 'z world_scheme" where
  "synqro_free_result res w = (case res of
      None \<Rightarrow> (None, w)
    | Some r \<Rightarrow> if r_message r = 0 then (Some r, w) else (Some (r\<lparr>r_message := 0\<rparr>), drop_raw (r_message r) w))"

section \<open>Lemmas\<close>

lemma sanitised_cstring: "cstring_new (sanitise msg) = Some (sanitise msg)"
  by (simp add: cstring_new_def sanitise_no_nul)

lemma c_text_sanitise: "c_text (sanitise msg) = sanitise msg"
  unfolding c_text_def by (rule takeWhile_eq_all_conv [THEN iffD2]) (auto simp: sanitise_def)

lemma result_err_eq:
  "result_err status msg n w =
     (\<lparr>r_status = status, r_message = w_brk w, r_error_id = n\<rparr>,
      w\<lparr>w_heap := (w_heap w)(w_brk w \<mapsto> sanitise msg), w_brk := Suc (w_brk w)\<rparr>)"
  by (simp add: result_err_def sanitised_cstring into_raw_def)

lemma from_error_eq:
  "from_error e w =
     (\<lparr>r_status = status_of_error e, r_message = w_brk w, r_error_id = w_next_id w\<rparr>,
      w\<lparr>w_next_id := w_next_id w + 1,
        w_heap := (w_heap w)(w_brk w \<mapsto> sanitise (public_message e (w_next_id w))), w_brk := Suc (w_brk w)\<rparr>)"
  by (simp add: from_error_def next_error_id_def result_err_eq Let_def)

lemma show_nat_no_nul: "CHR 0x00 \<notin> set (show_nat n)"
  using show_nat_digits [of n] by (auto simp: list_all_iff is_digit_def byte_val_def)

lemma sanitise_append: "sanitise (s @ t) = sanitise s @ sanitise t"
  by (simp add: sanitise_def)

lemma opaque_text:
  "opaque_error e \<Longrightarrow> sanitise (public_message e n) = ''an internal error occurred (id='' @ show_nat (unat n) @ '')''"
  by (simp only: public_message_def if_True sanitise_append sanitise_id [OF show_nat_no_nul]) (simp add: sanitise_def)

lemma opaque_status: "opaque_error e \<Longrightarrow> status_of_error e = SynqroErrInternal"
  by (cases e) auto

text \<open>Repeating \<open>from_error\<close>.\<close>

fun from_errors :: "synqro_error list \<Rightarrow> 'z world_scheme \<Rightarrow> synqro_result list \<times> 'z world_scheme" where
  "from_errors [] w = ([], w)"
| "from_errors (e # es) w = (case from_error e w of (r, w') \<Rightarrow>
     (case from_errors es w' of (rs, w'') \<Rightarrow> (r # rs, w'')))"

lemma from_errors_ids:
  "map r_error_id (fst (from_errors es w)) = map (\<lambda>i. w_next_id w + of_nat i) [0..<length es]"
proof (induction es arbitrary: w)
  case (Cons e es)
  have upt: "[0..<length (e # es)] = 0 # map Suc [0..<length es]"
    by (simp add: upt_conv_Cons map_Suc_upt del: upt_Suc)
  obtain rs w2 where "from_errors es (snd (from_error e w)) = (rs, w2)" by fastforce
  with Cons [of "snd (from_error e w)"] show ?case unfolding upt
    by (simp add: from_error_eq add_ac comp_def)
qed simp

lemma from_error_heap_ok: "heap_ok w \<Longrightarrow> heap_ok (snd (from_error e w))"
  by (simp add: heap_ok_def from_error_eq)

lemma heap_ok_drop: "heap_ok w \<Longrightarrow> heap_ok (drop_raw p w)"
  by (simp add: heap_ok_def drop_raw_def)

lemma word_ids_distinct:
  "n \<le> 2 ^ 64 \<Longrightarrow> distinct (map (\<lambda>i. a + of_nat i) [0..<n])" for a :: u64
proof -
  assume n: "n \<le> 2 ^ 64"
  have "i = j" if "i < n" "j < n" "(of_nat i :: u64) = of_nat j" for i j
  proof -
    have "unat (of_nat k :: u64) = k" if "k < n" for k
      using that n by (simp add: unat_of_nat take_bit_nat_eq_self)
    with that show ?thesis by metis
  qed
  then show ?thesis by (auto simp: distinct_map inj_on_def)
qed

section \<open>Properties\<close>

text \<open>C27. Internal details never cross the C boundary: the result of an internal, configuration, I/O,
  JSON or YAML error has the internal status and a non-null message, and the text a C caller reads
  from it is one sentence determined by the error number, whatever the error says.\<close>

theorem opaque_errors_redacted:
  assumes "opaque_error e" "heap_ok w" "from_error e w = (r, w')"
  shows "r_status r = SynqroErrInternal \<and> r_message r \<noteq> 0 \<and>
         map_option c_text (w_heap w' (r_message r)) =
           Some (''an internal error occurred (id='' @ show_nat (unat (r_error_id r)) @ '')'')"
proof -
  from assms(3) have r: "r = fst (from_error e w)" "w' = snd (from_error e w)" by simp_all
  have "c_text (sanitise (public_message e (w_next_id w))) = sanitise (public_message e (w_next_id w))"
    by (rule c_text_sanitise)
  then show ?thesis using assms(2)
    by (simp add: r from_error_eq opaque_text [OF assms(1)] opaque_status [OF assms(1)] heap_ok_def)
qed

text \<open>Nothing leaks and nothing is freed twice: releasing the result of an error gives the C heap
  back as it was before the error, releasing it again changes nothing, and the heap stays well
  formed throughout.\<close>

theorem free_result_releases:
  assumes "heap_ok w" "from_error e w = (r, w1)" "synqro_free_result (Some r) w1 = (Some r2, w2)"
  shows "w_heap w2 = w_heap w \<and> r_message r2 = 0 \<and> heap_ok w1 \<and> heap_ok w2 \<and>
         synqro_free_result (Some r2) w2 = (Some r2, w2)"
proof -
  have r: "r_message r = w_brk w" "w_heap w1 = (w_heap w)(w_brk w \<mapsto> sanitise (public_message e (w_next_id w)))"
    using assms(2) by (auto simp: from_error_eq)
  have "heap_ok w1" using from_error_heap_ok [OF assms(1), of e] assms(2) by simp
  have "w_brk w \<noteq> 0" "w_heap w (w_brk w) = None" using assms(1) by (auto simp: heap_ok_def)
  with assms(3) r have "w2 = drop_raw (w_brk w) w1" "r_message r2 = 0"
    by (auto simp: synqro_free_result_def)
  moreover from this have "heap_ok w2" using heap_ok_drop [OF \<open>heap_ok w1\<close>] by simp
  ultimately show ?thesis using r \<open>heap_ok w1\<close> \<open>w_heap w (w_brk w) = None\<close>
    by (auto simp: drop_raw_def synqro_free_result_def fun_upd_idem)
qed

text \<open>Error numbers are distinct: among any 2^64 consecutive errors, no two results carry the same
  number, although the counter wraps around.\<close>

theorem error_ids_distinct:
  assumes "length es \<le> 2 ^ 64"
  shows "distinct (map r_error_id (fst (from_errors es w)))"
  unfolding from_errors_ids by (rule word_ids_distinct [OF assms])

text \<open>Arguments from C: a pointer is accepted exactly when it is not null and the text before the
  terminating NUL is valid UTF-8 of at most 4096 bytes; then it is passed on unchanged; every refusal
  is an invalid-input error.\<close>

theorem decode_cstr_iff:
  "(decode_cstr ptr field = Inr s \<longleftrightarrow> ptr = Some s \<and> valid_utf8 s \<and> length s \<le> 4096) \<and>
   (\<forall>e. decode_cstr ptr field = Inl e \<longrightarrow> status_of_error e = SynqroErrInvalidInput)"
proof (cases ptr)
  case (Some t)
  have v: "validate_input t = Inr () \<or> (\<exists>m. validate_input t = Inl (InvalidInput m))"
    by (cases "length t > SYNQRO_MAX_INPUT_LEN") (auto simp: validate_input_def)
  show ?thesis
  proof (cases "valid_utf8 t \<and> validate_input t = Inr ()")
    case True
    then have "decode_cstr ptr field = Inr t" by (simp add: decode_cstr_def Some)
    moreover from True have "valid_utf8 t" "length t \<le> 4096" by (simp_all only: validate_input_iff)
    ultimately show ?thesis using Some by auto
  next
    case False
    with v have "\<exists>m. decode_cstr ptr field = Inl (InvalidInput m)"
      by (cases "valid_utf8 t") (auto simp: decode_cstr_def Some)
    then obtain m where "decode_cstr ptr field = Inl (InvalidInput m)" by blast
    moreover have "\<not> (valid_utf8 t \<and> length t \<le> 4096)" using False validate_input_iff by blast
    ultimately show ?thesis using Some by auto
  qed
qed (simp add: decode_cstr_def)

section \<open>Witnesses\<close>

lemma heap_ok_world0: "heap_ok (world_of xs)"
  by (simp add: heap_ok_def world_of_def)

lemma opaque_errors_redacted_witness:
  "map_option c_text (w_heap (snd (from_error (Internal ''secret'') (world_of []))) 1) = Some ''an internal error occurred (id=1)''"
proof -
  have "show_nat 1 = ''1''" by code_simp
  with opaque_errors_redacted [of "Internal ''secret''" "world_of []", OF _ heap_ok_world0 prod.collapse [symmetric]]
  show ?thesis by (simp add: from_error_eq world_of_def)
qed

lemma free_result_releases_witness:
  "w_heap (snd (synqro_free_result (Some (fst (from_error Degraded (world_of [])))) (snd (from_error Degraded (world_of []))))) 1 = None"
proof -
  obtain r w1 where 1: "from_error Degraded (world_of []) = (r, w1)" by fastforce
  obtain r2 w2 where 2: "synqro_free_result (Some r) w1 = (Some r2, w2)"
    by (cases "r_message r = 0") (auto simp: synqro_free_result_def)
  from free_result_releases [OF heap_ok_world0 1 2] 1 2 show ?thesis by (simp add: world_of_def)
qed

lemma error_ids_distinct_witness:
  "distinct (map r_error_id (fst (from_errors [Degraded, Crypto ''x'', Degraded] (world_of []))))"
  by (rule error_ids_distinct) simp

lemma decode_cstr_iff_witness:
  "decode_cstr (Some ''abc'') ''f'' = Inr ''abc'' \<and> \<not> (\<exists>s. decode_cstr None ''f'' = Inr s)"
proof -
  have "valid_utf8 ''abc''" by code_simp
  then show ?thesis using decode_cstr_iff [of "Some ''abc''" "''f''" "''abc''"] decode_cstr_iff [of None "''f''"] by simp
qed

end
