(* ===== verification/Keychain.thy ===== *)
theory Keychain
  imports World
begin

text \<open>
  The interface of \<open>src/keychain/mod.rs\<close>. The trait \<open>KeychainProvider\<close> is the locale
  \<open>keychain_provider\<close>: three operations on the state \<open>'k\<close> of an operating system's secret store. Its
  laws hold while the store works as documented (\<open>up\<close>); each platform backend interprets it. Secrets
  are identified by what the backend makes of service and account (\<open>key\<close>).
\<close>

definition SYNQRO_KEYCHAIN_SERVICE :: string where "SYNQRO_KEYCHAIN_SERVICE = ''synqro''"
definition SYNQRO_TOKEN_ACCOUNT :: string where "SYNQRO_TOKEN_ACCOUNT = ''github_token''"
definition SYNQRO_TELEGRAM_ACCOUNT :: string where "SYNQRO_TELEGRAM_ACCOUNT = ''telegram_token''"

text \<open>A backend as a value: the trait object of the code.\<close>

record 'k keychain =
  kc_load :: "string \<Rightarrow> string \<Rightarrow> ('k, synqro_error, bytes) io"
  kc_store :: "string \<Rightarrow> string \<Rightarrow> bytes \<Rightarrow> ('k, synqro_error, unit) io"
  kc_delete :: "string \<Rightarrow> string \<Rightarrow> ('k, synqro_error, unit) io"

section \<open>Child processes\<close>

text \<open>A runner starts a command on a state, feeds it its standard input and waits for it.\<close>

type_synonym 'k runner = "command \<Rightarrow> 'k \<Rightarrow> proc_result \<times> 'k"

definition world_runner :: "env \<Rightarrow> 'z world_scheme runner" where
  "world_runner E c w = (e_proc E (w_tick w) (w_trace w) c,
     w\<lparr>w_tick := Suc (w_tick w), w_trace := w_trace w @ [EvCmd c]\<rparr>)"

text \<open>\<open>status.success()\<close>.\<close>

definition succeeded :: "int option \<times> bytes \<Rightarrow> bool" where
  "succeeded output \<longleftrightarrow> fst output = Some 0"

text \<open>One trailing newline is removed.\<close>

definition pop_newline :: "bytes \<Rightarrow> bytes" where
  "pop_newline b = (if b \<noteq> [] \<and> last b = CHR 0x0A then butlast b else b)"

lemma pop_newline_snoc [simp]: "pop_newline (b @ [CHR 0x0A]) = b"
  by (simp add: pop_newline_def)

lemma pop_newline_id: "b = [] \<or> last b \<noteq> CHR 0x0A \<Longrightarrow> pop_newline b = b"
  by (auto simp: pop_newline_def)

section \<open>Which errors a computation can return\<close>

lemma wp_if [wp_simps]: "wp (if b then m else m') Q R w = (if b then wp m Q R w else wp m' Q R w)"
  by simp

definition only_err :: "(synqro_error \<Rightarrow> bool) \<Rightarrow> ('k, synqro_error, 'a) io \<Rightarrow> bool" where
  "only_err P m \<longleftrightarrow> (\<forall>k. wp m (\<lambda>_ _. True) (\<lambda>e _. P e) k)"

lemma only_errD: "only_err P m \<Longrightarrow> m k = (Inl e, k') \<Longrightarrow> P e"
  unfolding only_err_def by (metis wp_InlD)

lemma only_err_bind:
  "only_err P m \<Longrightarrow> (\<And>x. only_err P (f x)) \<Longrightarrow> only_err P (bindE m f)"
  by (simp add: only_err_def wp_bindE) (metis (mono_tags, lifting) wp_mono)

lemma only_err_ret: "only_err P (ret x)"
  by (simp add: only_err_def wp_simps)

lemma only_err_fail: "P e \<Longrightarrow> only_err P (fail e)"
  by (simp add: only_err_def wp_simps)

lemma only_err_if: "(b \<Longrightarrow> only_err P m) \<Longrightarrow> (\<not> b \<Longrightarrow> only_err P m') \<Longrightarrow> only_err P (if b then m else m')"
  by simp

lemma only_err_sum:
  "(\<And>e. r = Inl e \<Longrightarrow> only_err P (f e)) \<Longrightarrow> (\<And>x. r = Inr x \<Longrightarrow> only_err P (g x)) \<Longrightarrow>
   only_err P (case r of Inl e \<Rightarrow> f e | Inr x \<Rightarrow> g x)"
  by (cases r) auto

lemma only_err_attempt: "only_err P (attempt m)"
  by (simp add: only_err_def wp_attempt) (simp add: wp_def split: prod.splits sum.splits)

section \<open>The contract\<close>

locale keychain_provider =
  fixes load :: "string \<Rightarrow> string \<Rightarrow> ('k, synqro_error, bytes) io"
    and store :: "string \<Rightarrow> string \<Rightarrow> bytes \<Rightarrow> ('k, synqro_error, unit) io"
    and delete :: "string \<Rightarrow> string \<Rightarrow> ('k, synqro_error, unit) io"
    and up :: bool
    and view :: "'k \<Rightarrow> 'i \<Rightarrow> bytes option"
    and key :: "string \<Rightarrow> string \<Rightarrow> 'i"
    and storable :: "string \<Rightarrow> string \<Rightarrow> bytes \<Rightarrow> bool"
    and documented :: "synqro_error \<Rightarrow> bool"
  assumes load_hit: "up \<Longrightarrow> view k (key s a) = Some x \<Longrightarrow> storable s a x \<Longrightarrow>
                       \<exists>k'. load s a k = (Inr x, k') \<and> view k' = view k"
    and load_miss: "up \<Longrightarrow> view k (key s a) = None \<Longrightarrow> \<exists>m k'. load s a k = (Inl (Keychain m), k') \<and> view k' = view k"
    and store_ok: "up \<Longrightarrow> storable s a x \<Longrightarrow> \<exists>k'. store s a x k = (Inr (), k') \<and> view k' = (view k)(key s a \<mapsto> x)"
    and delete_ok: "up \<Longrightarrow> \<exists>k'. delete s a k = (Inr (), k') \<and> view k' = (view k)(key s a := None)"
    and load_err: "load s a k = (Inl e, k') \<Longrightarrow> documented e"
    and store_err: "store s a x k = (Inl e, k') \<Longrightarrow> documented e"
    and delete_err: "delete s a k = (Inl e, k') \<Longrightarrow> documented e"
begin

text \<open>What was stored is loaded back, and stays until it is replaced or deleted.\<close>

lemma store_then_load:
  assumes "up" "storable s a x"
  shows "\<exists>k1 k2. store s a x k = (Inr (), k1) \<and> load s a k1 = (Inr x, k2) \<and> view k2 = (view k)(key s a \<mapsto> x)"
proof -
  from store_ok [OF assms] obtain k1 where 1: "store s a x k = (Inr (), k1)" "view k1 = (view k)(key s a \<mapsto> x)"
    by blast
  with load_hit [OF assms(1), of k1 s a x] assms(2) show ?thesis by auto
qed

text \<open>Storing under one account does not change another.\<close>

lemma store_then_load_other:
  assumes "up" "storable s a x" "storable s' a' y" "key s' a' \<noteq> key s a" "view k (key s' a') = Some y"
  shows "\<exists>k1 k2. store s a x k = (Inr (), k1) \<and> load s' a' k1 = (Inr y, k2)"
proof -
  from store_ok [OF assms(1,2)] obtain k1 where 1: "store s a x k = (Inr (), k1)" "view k1 = (view k)(key s a \<mapsto> x)"
    by blast
  with load_hit [OF assms(1), of k1 s' a' y] assms show ?thesis by auto
qed

text \<open>The last secret stored is the one loaded.\<close>

lemma store_replaces:
  assumes "up" "storable s a x" "storable s a y"
  shows "\<exists>k1 k2 k3. store s a x k = (Inr (), k1) \<and> store s a y k1 = (Inr (), k2) \<and> load s a k2 = (Inr y, k3)"
proof -
  from store_ok [OF assms(1,2)] obtain k1 where "store s a x k = (Inr (), k1)" by blast
  with store_then_load [OF assms(1,3)] show ?thesis by blast
qed

text \<open>After deletion there is nothing to load, and deleting again succeeds.\<close>

lemma delete_then_load:
  assumes "up"
  shows "\<exists>k1 k2 k3 m. delete s a k = (Inr (), k1) \<and> delete s a k1 = (Inr (), k2) \<and> load s a k2 = (Inl (Keychain m), k3)"
proof -
  from delete_ok [OF assms] obtain k1 where 1: "delete s a k = (Inr (), k1)" "view k1 = (view k)(key s a := None)" by blast
  from delete_ok [OF assms] obtain k2 where 2: "delete s a k1 = (Inr (), k2)" "view k2 = (view k1)(key s a := None)" by blast
  from 1 2 load_miss [OF assms, of k2 s a] show ?thesis by auto
qed

end

end
