(* ===== verification/Downloader.thy ===== *)
theory Downloader
  imports Keychain Audit_Log
begin

text \<open>
  The downloader of \<open>src/downloader.rs\<close> up to the two verification chains: constants and schema, the TLS
  certificate verifier and the redirect policy that the HTTP client calls back, the downloader with its
  two atomics, the token, degraded mode and the backoff. The HTTP client is a parameter of the
  environment: one call takes a request and gives a response.
\<close>

section \<open>Constants and schema\<close>

definition SYNQRO_VERSION :: string where "SYNQRO_VERSION = ''0.1.0''"
definition DEGRADED_THRESHOLD :: u32 where "DEGRADED_THRESHOLD = 5"
definition MAX_BACKOFF_SECS :: u64 where "MAX_BACKOFF_SECS = 300"

record artifact_entry =
  ae_platform :: string
  ae_url :: string
  ae_sha256 :: string
  ae_sha512 :: string
  ae_size_bytes :: u64
  ae_sig_ed25519 :: string

record synqro_manifest =
  mf_schema_version :: string
  mf_issued_at :: string
  mf_installation_id :: "string option"
  mf_version :: string
  mf_channel :: string
  mf_artifacts :: "artifact_entry list"
  mf_manifest_sig_ed25519 :: string

definition decode_artifact :: "json \<Rightarrow> artifact_entry option" where
  "decode_artifact v = Option.bind (as_struct [''platform'', ''url'', ''sha256'', ''sha512'', ''size_bytes'', ''sig_ed25519''] v) (\<lambda>m.
     case (fld_string m ''platform'', fld_string m ''url'', fld_string m ''sha256'', fld_string m ''sha512'',
           fld_u64 m ''size_bytes'', fld_string m ''sig_ed25519'') of
       (Some p, Some u, Some h, Some h', Some n, Some s) \<Rightarrow>
         Some \<lparr>ae_platform = p, ae_url = u, ae_sha256 = h, ae_sha512 = h', ae_size_bytes = n, ae_sig_ed25519 = s\<rparr>
     | _ \<Rightarrow> None)"

definition decode_synqro_manifest :: "json \<Rightarrow> synqro_manifest option" where
  "decode_synqro_manifest v = Option.bind (as_struct [''schema_version'', ''issued_at'', ''installation_id'', ''version'',
       ''channel'', ''artifacts'', ''manifest_sig_ed25519''] v) (\<lambda>m.
     case (fld_string m ''schema_version'', fld_string m ''issued_at'', fld_opt_string m ''installation_id'', fld_string m ''version'',
           fld_string m ''channel'', fld_list m ''artifacts'' decode_artifact, fld_string m ''manifest_sig_ed25519'') of
       (Some sv, Some ia, Some iid, Some v, Some ch, Some arts, Some s) \<Rightarrow>
         Some \<lparr>mf_schema_version = sv, mf_issued_at = ia, mf_installation_id = iid, mf_version = v, mf_channel = ch,
               mf_artifacts = arts, mf_manifest_sig_ed25519 = s\<rparr>
     | _ \<Rightarrow> None)"

section \<open>The certificate verifier\<close>

text \<open>The TLS library calls it during a handshake; its errors are the library's texts.\<close>

record synqro_cert_verifier =
  cv_pinned_spki_sha256 :: string
  cv_audit :: audit_logger

definition spki_sha256 :: "env \<Rightarrow> bytes \<Rightarrow> synqro_error + string" where
  "spki_sha256 E cert_der =
     bind_res (map_inl (\<lambda>e. Crypto (''Certificate parse failed: '' @ e)) (e_spki E cert_der)) (\<lambda>spki_der.
     Inr (e_hex E (e_sha256 E spki_der)))"

text \<open>The fallback: the library's own verifier over the trusted roots.\<close>

definition ca_chain :: "env \<Rightarrow> bytes \<Rightarrow> bytes list \<Rightarrow> string \<Rightarrow> bytes \<Rightarrow> int \<Rightarrow> string + unit" where
  "ca_chain E end_entity intermediates server_name ocsp_response now =
     bind_res (map_inl (\<lambda>e. ''WebPki builder error: '' @ e) (e_webpki_build E)) (\<lambda>_.
     e_webpki_cert E end_entity intermediates server_name ocsp_response now)"

definition verify_server_cert :: "env \<Rightarrow> synqro_cert_verifier \<Rightarrow> bytes \<Rightarrow> bytes list \<Rightarrow> string \<Rightarrow> bytes \<Rightarrow> int \<Rightarrow> ('z, unit) sio" where
  "verify_server_cert E cv end_entity intermediates server_name ocsp_response now =
     (case spki_sha256 E end_entity of
        Inr actual_pin \<Rightarrow>
          if actual_pin = cv_pinned_spki_sha256 cv then ret ()
          else bindE (ignore (audit_log E (cv_audit cv) CertPinMismatch (json_obj
                 [(''expected_pin'', JString (cv_pinned_spki_sha256 cv)), (''actual_pin'', JString actual_pin)]))) (\<lambda>_.
               lift_res (ca_chain E end_entity intermediates server_name ocsp_response now))
      | Inl e \<Rightarrow> fail (''SPKI extraction failed: '' @ display_error e))"

definition verify_tls12_signature :: "bytes \<Rightarrow> bytes \<Rightarrow> bytes \<Rightarrow> string + unit" where
  "verify_tls12_signature message cert dss = Inl (''TLS 1.2 is not permitted '' @ em_dash @ '' TLS 1.3 required'')"

definition verify_tls13_signature :: "env \<Rightarrow> bytes \<Rightarrow> bytes \<Rightarrow> bytes \<Rightarrow> string + unit" where
  "verify_tls13_signature E message cert dss =
     bind_res (map_inl (\<lambda>e. ''WebPki builder error: '' @ e) (e_webpki_build E)) (\<lambda>_. e_webpki_tls13 E message cert dss)"

datatype signature_scheme =
    ECDSA_NISTP256_SHA256 | ECDSA_NISTP384_SHA384 | ECDSA_NISTP521_SHA512 | ED25519
  | RSA_PSS_SHA256 | RSA_PSS_SHA384 | RSA_PSS_SHA512

definition supported_verify_schemes :: "signature_scheme list" where
  "supported_verify_schemes =
     [ECDSA_NISTP256_SHA256, ECDSA_NISTP384_SHA384, ECDSA_NISTP521_SHA512, ED25519,
      RSA_PSS_SHA256, RSA_PSS_SHA384, RSA_PSS_SHA512]"

text \<open>During a full handshake the TLS library asks for the certificate, then for the signature of its version.\<close>

definition tls_accept :: "env \<Rightarrow> synqro_cert_verifier \<Rightarrow> tls_handshake \<Rightarrow> ('z, unit) sio" where
  "tls_accept E cv hs =
     bindE (verify_server_cert E cv (hs_end_entity hs) (hs_intermediates hs) (hs_server_name hs) (hs_ocsp_response hs) (hs_now hs)) (\<lambda>_.
     lift_res (if hs_tls13 hs then verify_tls13_signature E (hs_message hs) (hs_end_entity hs) (hs_dss hs)
       else verify_tls12_signature (hs_message hs) (hs_end_entity hs) (hs_dss hs)))"

section \<open>The redirect policy\<close>

text \<open>Asked before each redirect, with the hosts of the requests made so far: \<open>True\<close> is \<open>follow\<close>.\<close>

definition redirect_policy :: "string option list \<Rightarrow> string option \<Rightarrow> bool" where
  "redirect_policy previous next_host = (previous = [] \<or> next_host = last previous)"

text \<open>A hop of a request: the handshakes of its connection, then the request goes out over it. Over plain HTTP
  there are none.\<close>

definition send_hop :: "env \<Rightarrow> synqro_cert_verifier \<Rightarrow> hop \<Rightarrow> ('z, unit) sio" where
  "send_hop E cv h =
     bindE (for_each (if hop_https h then hop_handshakes h else []) (tls_accept E cv)) (\<lambda>_. http_hop h)"

text \<open>The client follows the redirections a server answers with as long as the policy says so.\<close>

fun follow_redirects :: "env \<Rightarrow> synqro_cert_verifier \<Rightarrow> string option list \<Rightarrow> hop list \<Rightarrow> ('z, unit) sio" where
  "follow_redirects E cv previous [] = ret ()"
| "follow_redirects E cv previous (h # hops) =
     (if redirect_policy previous (hop_host h)
      then bindE (send_hop E cv h) (\<lambda>_. follow_redirects E cv (previous @ [hop_host h]) hops)
      else ret ())"

section \<open>The downloader\<close>

record downloader =
  dl_update_config :: update_config
  dl_source_config :: source_config
  dl_installation_id :: string
  dl_crypto_config :: crypto_config
  dl_audit :: audit_logger
  dl_atomics :: nat

text \<open>A new downloader has two fresh atomics. Its client carries the verifier made of the configured pin and
  the audit log, and the redirect policy. \<open>rustls::ClientConfig::builder()\<close> panics unless a process-wide default
  provider of cryptography is installed or the features of the build leave only one: \<open>e_tls_provider\<close>. The
  sources install none, and \<open>Cargo.lock\<close> has \<open>rustls\<close> built with both \<open>ring\<close> and \<open>aws-lc-rs\<close>.\<close>

definition client_verifier :: "downloader \<Rightarrow> synqro_cert_verifier" where
  "client_verifier dl = \<lparr>cv_pinned_spki_sha256 = cc_github_api_cert_pin (dl_crypto_config dl), cv_audit = dl_audit dl\<rparr>"

type_synonym ('z, 'a) pio = "('z world_scheme, synqro_error exn, 'a) io"

definition downloader_new :: "env \<Rightarrow> update_config \<Rightarrow> source_config \<Rightarrow> string \<Rightarrow> crypto_config \<Rightarrow> audit_logger \<Rightarrow> ('z, downloader) pio" where
  "downloader_new E update_config source_config installation_id crypto_config audit =
     bindE (if e_tls_provider E then ret () else panic) (\<lambda>_.
     let timeout_secs = uc_download_timeout_seconds update_config in
     bindE (no_panic (lift_res (map_inl (\<lambda>e. Network (''HTTP client build failed: '' @ e)) (e_http_client E timeout_secs)))) (\<lambda>_ w.
     (Inr \<lparr>dl_update_config = update_config, dl_source_config = source_config, dl_installation_id = installation_id,
           dl_crypto_config = crypto_config, dl_audit = audit, dl_atomics = w_dl_next w\<rparr>,
      w\<lparr>w_dl := (w_dl w)(w_dl_next w := \<lparr>dl_failures = 0, dl_degraded = False\<rparr>), w_dl_next := Suc (w_dl_next w)\<rparr>)))"

text \<open>One request with this client: the address decides the first hop, the answers the others; an error in any
  of the callbacks is the client's error.\<close>

definition first_hop :: "env \<Rightarrow> nat \<Rightarrow> http_request \<Rightarrow> bool \<times> string option \<Rightarrow> hop" where
  "first_hop E t r url = \<lparr>hop_https = fst url, hop_host = snd url, hop_handshakes = e_handshakes E t r\<rparr>"

definition client_send :: "env \<Rightarrow> downloader \<Rightarrow> http_request \<Rightarrow> ('z, http_response) sio" where
  "client_send E dl r =
     bindE (http_begin r) (\<lambda>_.
     bindE (lift_res (e_url E (rq_url r))) (\<lambda>url w. let t = w_tick w; cv = client_verifier dl in
     bindE (map_err (e_tls_failure E r) (bindE (send_hop E cv (first_hop E t r url)) (\<lambda>_.
              follow_redirects E cv [snd url] (e_redirects E t r)))) (\<lambda>_.
     http_answer E r) w))"

section \<open>The token\<close>

text \<open>The result of the operation with an error logged on the way out, the error itself unchanged.\<close>

definition log_err :: "env \<Rightarrow> audit_logger \<Rightarrow> audit_event \<Rightarrow> (synqro_error \<Rightarrow> json) \<Rightarrow> ('z, 'a) eio \<Rightarrow> ('z, 'a) eio" where
  "log_err E lg ev data m = on_err (\<lambda>e w. (e, snd (audit_log E lg ev (data e) w))) m"

definition load_token_for_request :: "env \<Rightarrow> downloader \<Rightarrow> 'z world_scheme keychain \<Rightarrow> ('z, string) eio" where
  "load_token_for_request E dl keychain =
     bindE (log_err E (dl_audit dl) TokenLoadFail (\<lambda>e. json_obj [(''reason'', JString (display_error e))])
              (kc_load keychain SYNQRO_KEYCHAIN_SERVICE SYNQRO_TOKEN_ACCOUNT)) (\<lambda>token_bytes.
     if valid_utf8 token_bytes then ret token_bytes
     else fail (InvalidInput ''GitHub token is not valid UTF-8''))"

section \<open>Degraded mode\<close>

definition dl_cells_of :: "downloader \<Rightarrow> 'z world_scheme \<Rightarrow> dl_cells" where
  "dl_cells_of dl w = w_dl w (dl_atomics dl)"

definition set_cells :: "downloader \<Rightarrow> dl_cells \<Rightarrow> 'z world_scheme \<Rightarrow> 'z world_scheme" where
  "set_cells dl c w = w\<lparr>w_dl := (w_dl w)(dl_atomics dl := c)\<rparr>"

definition check_degraded :: "downloader \<Rightarrow> ('z, unit) eio" where
  "check_degraded dl = (\<lambda>w. if dl_degraded (dl_cells_of dl w) then fail Degraded w else ret () w)"

text \<open>\<open>fetch_add\<close> wraps around and returns the old value.\<close>

definition record_failure :: "env \<Rightarrow> downloader \<Rightarrow> ('z, unit) eio" where
  "record_failure E dl = (\<lambda>w.
     let cells = dl_cells_of dl w;
         count = sat_add (dl_failures cells) 1;
         w = set_cells dl (cells\<lparr>dl_failures := dl_failures cells + 1\<rparr>) w in
     if count \<ge> DEGRADED_THRESHOLD then
       ignore (audit_log E (dl_audit dl) DegradedModeEntered (json_obj [(''consecutive_failures'', jnat (ucast count))]))
         (set_cells dl ((dl_cells_of dl w)\<lparr>dl_degraded := True\<rparr>) w)
     else ret () w)"

definition record_success :: "downloader \<Rightarrow> ('z, unit) eio" where
  "record_success dl = (\<lambda>w. ret () (set_cells dl ((dl_cells_of dl w)\<lparr>dl_failures := 0\<rparr>) w))"

section \<open>Backoff\<close>

definition backoff_secs :: "u64 \<Rightarrow> u32 \<Rightarrow> u64 \<Rightarrow> u64" where
  "backoff_secs base retry jitter =
     (let exp = sat_mul base (push_bit (unat (min retry 30)) 1) in min (sat_add exp jitter) MAX_BACKOFF_SECS)"

definition backoff_duration :: "env \<Rightarrow> downloader \<Rightarrow> u32 \<Rightarrow> ('z world_scheme, 'e, u64) io" where
  "backoff_duration E dl retry =
     (let base = uc_retry_backoff_base_seconds (dl_update_config dl) in
      bindE (gen_upto E base) (\<lambda>jitter. ret (backoff_secs base retry jitter)))"

section \<open>Platform and addresses\<close>

definition current_platform_triple :: "env \<Rightarrow> string" where
  "current_platform_triple E =
     (let arch = e_arch E; os = (if e_os E = ''macos'' then ''darwin'' else e_os E) in os @ ''-'' @ arch)"

definition manifest_api_url :: "downloader \<Rightarrow> string" where
  "manifest_api_url dl = ''https://api.github.com/repos/'' @ sc_owner (dl_source_config dl) @ ''/'' @ sc_repo (dl_source_config dl) @
     ''/contents/'' @ sc_manifest_path (dl_source_config dl)"

definition connectivity_check :: "env \<Rightarrow> downloader \<Rightarrow> ('z, unit) eio" where
  "connectivity_check E dl =
     (let url = ''https://api.github.com/repos/'' @ sc_owner (dl_source_config dl) @ ''/'' @ sc_repo (dl_source_config dl) @
            ''/contents/'' @ sc_manifest_path (dl_source_config dl) in
      bindE (map_err (\<lambda>e. Internal (''Tokio runtime build: '' @ e)) (runtime_build E)) (\<lambda>_.
      bindE (map_err (\<lambda>e. Network (''Connectivity check failed: '' @ e))
               (client_send E dl \<lparr>rq_method = ''HEAD'', rq_url = url, rq_headers = []\<rparr>)) (\<lambda>_. ret ())))"

section \<open>The machine of the two atomics\<close>

inductive dl_step :: "dl_cells \<Rightarrow> dl_cells \<Rightarrow> bool" where
  failure: "dl_step c \<lparr>dl_failures = dl_failures c + 1,
      dl_degraded = (dl_degraded c \<or> DEGRADED_THRESHOLD \<le> sat_add (dl_failures c) 1)\<rparr>"
| success: "dl_step c (c\<lparr>dl_failures := 0\<rparr>)"

inductive_cases dl_stepE [elim!]: "dl_step c d"

definition fail_cells :: "dl_cells \<Rightarrow> dl_cells" where
  "fail_cells c = \<lparr>dl_failures = dl_failures c + 1,
      dl_degraded = (dl_degraded c \<or> DEGRADED_THRESHOLD \<le> sat_add (dl_failures c) 1)\<rparr>"

lemma dl_step_fail: "dl_step c (fail_cells c)"
  unfolding fail_cells_def by (rule dl_step.failure)

lemma degraded_stable: "dl_step\<^sup>*\<^sup>* c d \<Longrightarrow> dl_degraded c \<Longrightarrow> dl_degraded d"
  by (induction rule: rtranclp_induct) auto

definition cells_ok :: "dl_cells \<Rightarrow> bool" where
  "cells_ok c \<longleftrightarrow> (DEGRADED_THRESHOLD \<le> dl_failures c \<longrightarrow> dl_degraded c)"

lemma succ_threshold:
  fixes n :: u32
  assumes "5 \<le> n + 1"
  shows "5 \<le> sat_add n 1"
proof -
  have "unat (n + 1) \<le> unat n + 1" by (simp add: unat_word_ariths)
  with assms show ?thesis by (simp add: word_le_nat_alt unat_sat_add)
qed

lemma cells_ok_step: "dl_step c d \<Longrightarrow> cells_ok c \<Longrightarrow> cells_ok d"
  by (auto simp: cells_ok_def DEGRADED_THRESHOLD_def dest: succ_threshold)

text \<open>What an operation does to the atomics of one downloader, and that it leaves the others alone.\<close>

definition moves_cells :: "nat \<Rightarrow> 'z world_scheme \<Rightarrow> 'z world_scheme \<Rightarrow> bool" where
  "moves_cells d w w' \<longleftrightarrow> dl_step\<^sup>*\<^sup>* (w_dl w d) (w_dl w' d) \<and> (\<forall>d'. d' \<noteq> d \<longrightarrow> w_dl w' d' = w_dl w d')"

lemma preorder_moves_cells [intro, simp]: "preorder_rel (moves_cells d)"
  by (auto simp: preorder_rel_def moves_cells_def reflp_def transp_def intro: rtranclp_trans)

lemma fs_only_dl: "fs_only S w w' \<Longrightarrow> w_dl w' = w_dl w"
  by (auto simp: fs_only_def)

lemma fs_only_trace: "fs_only S w w' \<Longrightarrow> w_trace w' = w_trace w"
  by (auto simp: fs_only_def)

lemma steps_moves_fs: "steps (fs_only S) m \<Longrightarrow> steps (moves_cells d) m"
  unfolding steps_def moves_cells_def using fs_only_dl by (metis rtranclp.rtrancl_refl)

lemma record_failure_cells:
  "record_failure E dl w = (r, w') \<Longrightarrow>
   w_dl w' = (w_dl w)(dl_atomics dl := fail_cells (dl_cells_of dl w)) \<and> w_trace w' = w_trace w \<and>
   (\<forall>q. q \<noteq> al_file (dl_audit dl) \<longrightarrow> w_fs w' q = w_fs w q) \<and> r = Inr ()"
proof -
  let ?c = "dl_cells_of dl w"
  assume run: "record_failure E dl w = (r, w')"
  show ?thesis
  proof (cases "DEGRADED_THRESHOLD \<le> sat_add (dl_failures ?c) 1")
    case False
    with run show ?thesis
      by (auto simp: record_failure_def Let_def ret_def set_cells_def dl_cells_of_def fail_cells_def)
  next
    case True
    define w1 where "w1 = set_cells dl (fail_cells ?c) w"
    define d where "d = json_obj [(''consecutive_failures'', jnat (ucast (sat_add (dl_failures ?c) 1)))]"
    have "record_failure E dl w = ignore (audit_log E (dl_audit dl) DegradedModeEntered d) w1"
      using True by (cases "w_dl w (dl_atomics dl)")
        (simp add: record_failure_def Let_def set_cells_def dl_cells_of_def fail_cells_def w1_def d_def)
    with run have "r = Inr ()" "w' = snd (audit_log E (dl_audit dl) DegradedModeEntered d w1)" by (auto simp: ignore_def)
    moreover have "fs_only {al_file (dl_audit dl)} w1 (snd (audit_log E (dl_audit dl) DegradedModeEntered d w1))"
      by (rule steps_snd [OF steps_audit_log])
    ultimately show ?thesis
      using fs_only_dl fs_only_trace fs_only_same by (fastforce simp: w1_def set_cells_def)
  qed
qed

lemma record_success_cells:
  "record_success dl w = (r, w') \<Longrightarrow>
   w_dl w' = (w_dl w)(dl_atomics dl := (dl_cells_of dl w)\<lparr>dl_failures := 0\<rparr>) \<and> w_trace w' = w_trace w \<and> w_fs w' = w_fs w \<and> r = Inr ()"
  by (auto simp: record_success_def ret_def set_cells_def)

lemma steps_record_failure [steps_intro]: "steps (moves_cells (dl_atomics dl)) (record_failure E dl)"
  unfolding steps_def
proof
  fix w
  have "w_dl (snd (record_failure E dl w)) = (w_dl w)(dl_atomics dl := fail_cells (w_dl w (dl_atomics dl)))"
    using record_failure_cells [OF prod.collapse [symmetric], of  E dl w] by (simp add: dl_cells_of_def)
  then show "moves_cells (dl_atomics dl) w (snd (record_failure E dl w))"
    using dl_step_fail by (auto simp: moves_cells_def)
qed

lemma steps_record_success [steps_intro]: "steps (moves_cells (dl_atomics dl)) (record_success dl)"
  unfolding steps_def
proof
  fix w
  have "w_dl (snd (record_success dl w)) = (w_dl w)(dl_atomics dl := (w_dl w (dl_atomics dl))\<lparr>dl_failures := 0\<rparr>)"
    using record_success_cells [OF prod.collapse [symmetric], of  dl w] by (simp add: dl_cells_of_def)
  then show "moves_cells (dl_atomics dl) w (snd (record_success dl w))"
    using dl_step.success by (auto simp: moves_cells_def)
qed

section \<open>Events\<close>

text \<open>The requests and pauses an operation adds to the trace satisfy \<open>Q\<close>, and it sends at most \<open>n\<close>
  requests; child processes do not count.\<close>

fun is_http :: "event \<Rightarrow> bool" where
  "is_http (EvHttp r) = True"
| "is_http _ = False"

fun is_cmd :: "event \<Rightarrow> bool" where
  "is_cmd (EvCmd c) = True"
| "is_cmd _ = False"

definition emits :: "(event \<Rightarrow> bool) \<Rightarrow> nat \<Rightarrow> ('z world_scheme, 'e, 'a) io \<Rightarrow> bool" where
  "emits Q n m \<longleftrightarrow> (\<forall>w. \<exists>xs. w_trace (snd (m w)) = w_trace w @ xs \<and> length (filter is_http xs) \<le> n \<and>
                          (\<forall>x \<in> set xs. is_cmd x \<or> Q x))"

lemma emitsI: "(\<And>w r w'. m w = (r, w') \<Longrightarrow> \<exists>xs. w_trace w' = w_trace w @ xs \<and> length (filter is_http xs) \<le> n \<and>
    (\<forall>x \<in> set xs. is_cmd x \<or> Q x)) \<Longrightarrow> emits Q n m"
  unfolding emits_def by (metis surj_pair snd_conv)

lemma emitsD: "emits Q n m \<Longrightarrow> m w = (r, w') \<Longrightarrow> \<exists>xs. w_trace w' = w_trace w @ xs \<and> length (filter is_http xs) \<le> n \<and>
    (\<forall>x \<in> set xs. is_cmd x \<or> Q x)"
  unfolding emits_def by (metis snd_conv)

lemma emits_same_trace: "(\<And>w r w'. m w = (r, w') \<Longrightarrow> w_trace w' = w_trace w) \<Longrightarrow> emits Q n m"
  by (rule emitsI) (auto intro!: exI [of _ "[]"])

lemma emits_fs: "steps (fs_only S) m \<Longrightarrow> emits Q n m"
  by (rule emits_same_trace) (metis stepsD fs_only_trace)

lemma emits_mono: "emits Q a m \<Longrightarrow> a \<le> n \<Longrightarrow> emits Q n m"
  unfolding emits_def by (meson le_trans)

lemma emits_bindE:
  assumes "emits Q a m" "\<And>x. emits Q b (k x)" "a + b \<le> n"
  shows "emits Q n (bindE m k)"
proof (rule emitsI)
  fix w r w' assume run: "bindE m k w = (r, w')"
  obtain p w1 where m: "m w = (p, w1)" by fastforce
  from emitsD [OF assms(1) m] obtain xs where
    xs: "w_trace w1 = w_trace w @ xs" "length (filter is_http xs) \<le> a" "\<forall>x \<in> set xs. is_cmd x \<or> Q x" by blast
  show "\<exists>xs. w_trace w' = w_trace w @ xs \<and> length (filter is_http xs) \<le> n \<and> (\<forall>x \<in> set xs. is_cmd x \<or> Q x)"
  proof (cases p)
    case (Inl e)
    with run m have "w' = w1" by (simp add: bindE_def)
    with xs assms(3) show ?thesis by auto
  next
    case (Inr x)
    with run m have "k x w1 = (r, w')" by (simp add: bindE_def)
    from emitsD [OF assms(2) this] obtain ys where
      ys: "w_trace w' = w_trace w1 @ ys" "length (filter is_http ys) \<le> b" "\<forall>x \<in> set ys. is_cmd x \<or> Q x" by blast
    with xs assms(3) show ?thesis by (intro exI [of _ "xs @ ys"]) auto
  qed
qed

lemma emits_map_err: "emits Q n m \<Longrightarrow> emits Q n (map_err f m)"
  unfolding emits_def map_err_def by (simp add: split_beta split: sum.splits)

lemma emits_attempt: "emits Q n m \<Longrightarrow> emits Q n (attempt m)"
  unfolding emits_def attempt_def by (simp add: split_beta)

lemma emits_ret: "emits Q n (ret x)"
  by (rule emits_same_trace) (simp add: ret_def)

lemma emits_fail: "emits Q n (fail e)"
  by (rule emits_same_trace) (simp add: fail_def)

lemma emits_lift_res: "emits Q n (lift_res r)"
  by (rule emits_same_trace) (simp add: lift_res_def)

lemma emits_record_failure: "emits Q n (record_failure E dl)"
  by (rule emits_same_trace) (metis record_failure_cells)

lemma emits_record_success: "emits Q n (record_success dl)"
  by (rule emits_same_trace) (metis record_success_cells)

lemma emits_sleep: "Q (EvSleep s) \<Longrightarrow> emits Q n (sleep_for s)"
  by (rule emitsI) (auto simp: sleep_for_def)

section \<open>Files\<close>

text \<open>No file outside \<open>S\<close> changes.\<close>

definition fs_within :: "names set \<Rightarrow> 'z world_scheme \<Rightarrow> 'z world_scheme \<Rightarrow> bool" where
  "fs_within S w w' \<longleftrightarrow> (\<forall>q. q \<notin> S \<longrightarrow> w_fs w' q = w_fs w q)"

lemma preorder_fs_within [intro, simp]: "preorder_rel (fs_within S)"
  by (auto simp: preorder_rel_def fs_within_def reflp_def transp_def)

lemma fs_only_within: "fs_only S w w' \<Longrightarrow> S \<subseteq> T \<Longrightarrow> fs_within T w w'"
  unfolding fs_within_def using fs_only_same by blast

lemma steps_within: "steps (fs_only S) m \<Longrightarrow> S \<subseteq> T \<Longrightarrow> steps (fs_within T) m"
  unfolding steps_def using fs_only_within by blast

lemma steps_within_cells: "(\<And>w r w'. m w = (r, w') \<Longrightarrow> w_fs w' = w_fs w) \<Longrightarrow> steps (fs_within S) m"
  unfolding steps_def fs_within_def by (metis surjective_pairing)

lemma steps_within_record_failure: "al_file (dl_audit dl) \<in> S \<Longrightarrow> steps (fs_within S) (record_failure E dl)"
  unfolding steps_def fs_within_def using record_failure_cells by (metis surjective_pairing)

lemma steps_within_record_success: "steps (fs_within S) (record_success dl)"
  by (rule steps_within_cells) (metis record_success_cells)

section \<open>Quiet keychains\<close>

text \<open>Loading a secret may run child processes, but sends no request and touches neither files nor the
  downloader.\<close>

definition quiet_keychain :: "'z world_scheme keychain \<Rightarrow> bool" where
  "quiet_keychain kc \<longleftrightarrow> (\<forall>s a w. w_fs (snd (kc_load kc s a w)) = w_fs w \<and> w_dl (snd (kc_load kc s a w)) = w_dl w \<and>
     (\<exists>xs. w_trace (snd (kc_load kc s a w)) = w_trace w @ xs \<and> (\<forall>x \<in> set xs. is_cmd x)))"

lemma quiet_load:
  assumes "quiet_keychain kc"
  shows "emits Q n (kc_load kc s a)" "steps (moves_cells d) (kc_load kc s a)" "steps (fs_within S) (kc_load kc s a)"
proof -
  show "emits Q n (kc_load kc s a)"
  proof (rule emitsI)
    fix w r w' assume "kc_load kc s a w = (r, w')"
    with assms obtain xs where "w_trace w' = w_trace w @ xs" "\<forall>x \<in> set xs. is_cmd x"
      unfolding quiet_keychain_def by (metis snd_conv)
    moreover from this have "filter is_http xs = []" by (auto simp: filter_empty_conv elim!: is_cmd.elims)
    ultimately show "\<exists>xs. w_trace w' = w_trace w @ xs \<and> length (filter is_http xs) \<le> n \<and> (\<forall>x \<in> set xs. is_cmd x \<or> Q x)" by auto
  qed
qed (use assms in \<open>simp_all add: quiet_keychain_def steps_def moves_cells_def fs_within_def\<close>)

lemma steps_log_err:
  assumes "steps R m" "preorder_rel R" "\<And>ev d. steps R (audit_log E lg ev d)"
  shows "steps R (log_err E lg ev d m)"
  unfolding log_err_def by (rule steps_on_err [OF assms(2,1)]) (use assms(3) in \<open>auto simp: steps_def\<close>)

lemma emits_on_err:
  assumes "emits Q n m" "\<And>e w. w_trace (snd (h e w)) = w_trace w"
  shows "emits Q n (on_err h m)"
proof (rule emitsI)
  fix w r w' assume run: "on_err h m w = (r, w')"
  obtain p w1 where m: "m w = (p, w1)" by fastforce
  have "w_trace w' = w_trace w1"
  proof (cases p)
    case (Inl e)
    with run m have "w' = snd (h e w1)" by (auto simp: on_err_def split: prod.splits)
    with assms(2) show ?thesis by simp
  qed (use run m in \<open>simp add: on_err_def\<close>)
  with emitsD [OF assms(1) m] show "\<exists>xs. w_trace w' = w_trace w @ xs \<and> length (filter is_http xs) \<le> n \<and> (\<forall>x \<in> set xs. is_cmd x \<or> Q x)"
    by simp
qed

lemma audit_log_trace: "w_trace (snd (audit_log E lg ev d w)) = w_trace w"
  by (rule fs_only_trace [OF steps_snd [OF steps_audit_log]])

lemma load_token_effects:
  assumes "quiet_keychain kc"
  shows "emits Q n (load_token_for_request E dl kc)" "steps (moves_cells d) (load_token_for_request E dl kc)"
    "al_file (dl_audit dl) \<in> S \<Longrightarrow> steps (fs_within S) (load_token_for_request E dl kc)"
proof -
  note q = quiet_load [OF assms]
  show "emits Q n (load_token_for_request E dl kc)"
    unfolding load_token_for_request_def log_err_def
    by (rule emits_bindE [where a = n and b = 0])
       (auto intro!: emits_on_err q emits_ret emits_fail simp: audit_log_trace)
  show "steps (moves_cells d) (load_token_for_request E dl kc)"
    unfolding load_token_for_request_def
    by (intro steps_bindE steps_log_err q steps_if steps_ret steps_fail preorder_moves_cells steps_moves_fs [OF steps_audit_log])
  assume "al_file (dl_audit dl) \<in> S"
  then show "steps (fs_within S) (load_token_for_request E dl kc)"
    unfolding load_token_for_request_def
    by (intro steps_bindE steps_log_err q steps_if steps_ret steps_fail preorder_fs_within steps_within [OF steps_audit_log]) auto
qed

text \<open>Most operations leave all atomics alone.\<close>

definition same_cells :: "'z world_scheme \<Rightarrow> 'z world_scheme \<Rightarrow> bool" where
  "same_cells w w' \<longleftrightarrow> w_dl w' = w_dl w"

lemma preorder_same_cells [intro, simp]: "preorder_rel same_cells"
  by (auto simp: preorder_rel_def same_cells_def reflp_def transp_def)

lemma steps_same_cells: "steps (fs_only S) m \<Longrightarrow> steps same_cells m"
  unfolding steps_def same_cells_def using fs_only_dl by blast

lemma steps_same_cells_backoff: "steps same_cells (bindE (backoff_duration E dl n) sleep_for)"
  by (simp add: steps_def same_cells_def backoff_duration_def Let_def bindE_def gen_upto_def ret_def sleep_for_def)

lemma load_token_same_cells: "quiet_keychain kc \<Longrightarrow> steps same_cells (load_token_for_request E dl kc)"
  unfolding load_token_for_request_def
  by (intro steps_bindE steps_log_err steps_if steps_ret steps_fail preorder_same_cells steps_same_cells [OF steps_audit_log])
     (simp add: steps_def same_cells_def quiet_keychain_def)

section \<open>Five failures\<close>

lemma fail_cells_degraded: "dl_degraded c \<Longrightarrow> dl_degraded (fail_cells c)"
  by (simp add: fail_cells_def)

lemma fail_cells_count: "dl_failures ((fail_cells ^^ n) c) = dl_failures c + of_nat n"
  by (induction n) (simp_all add: fail_cells_def add_ac)

lemma fail_cells_at_four: "4 \<le> unat (dl_failures c) \<Longrightarrow> dl_degraded (fail_cells c)"
  by (simp add: fail_cells_def DEGRADED_THRESHOLD_def word_le_nat_alt unat_sat_add)

lemma five_failures_degrade:
  assumes "5 \<le> n"
  shows "dl_degraded ((fail_cells ^^ n) c)"
proof -
  have keep: "dl_degraded d \<Longrightarrow> dl_degraded ((fail_cells ^^ k) d)" for k d
    by (induction k) (auto simp: fail_cells_degraded)
  define k where "k = 4 - unat (dl_failures c)"
  have "4 \<le> unat (dl_failures c + of_nat k)"
  proof (cases "unat (dl_failures c) \<le> 4")
    case True
    have "dl_failures c + of_nat k = of_nat (unat (dl_failures c) + k)" by simp
    also have "\<dots> = of_nat 4" using True by (simp only: k_def le_add_diff_inverse)
    finally show ?thesis by simp
  qed (simp add: k_def)
  then have "dl_degraded (fail_cells ((fail_cells ^^ k) c))"
    by (intro fail_cells_at_four) (simp add: fail_cells_count)
  then have "dl_degraded ((fail_cells ^^ (n - Suc k)) ((fail_cells ^^ Suc k) c))" by (simp add: keep)
  moreover have "n - Suc k + Suc k = n" using assms by (simp add: k_def)
  ultimately show ?thesis by (metis comp_apply funpow_add)
qed

end
