(* ===== verification/Requests.thy ===== *)
theory Requests
  imports Downloader "HOL-Library.Sublist"
begin

text \<open>
  One request of the downloader's HTTP client (\<open>src/downloader.rs\<close>): what its callbacks, the certificate
  verifier and the redirect policy, let through. Every operation of the downloader that sends something does
  it by \<open>client_send\<close>, and rests on the lemmas here.
\<close>

section \<open>Verified connections\<close>

text \<open>A handshake passes: the public key of the certificate can be read, its digest is the pin or the chain
  validates; the version is TLS 1.3 and its signature is valid.\<close>

definition cert_accepted :: "env \<Rightarrow> synqro_cert_verifier \<Rightarrow> tls_handshake \<Rightarrow> bool" where
  "cert_accepted E cv hs \<longleftrightarrow> (\<exists>spki. e_spki E (hs_end_entity hs) = Inr spki \<and>
     (e_hex E (e_sha256 E spki) = cv_pinned_spki_sha256 cv \<or>
      ca_chain E (hs_end_entity hs) (hs_intermediates hs) (hs_server_name hs) (hs_ocsp_response hs) (hs_now hs) = Inr ()))"

definition handshake_verified :: "env \<Rightarrow> synqro_cert_verifier \<Rightarrow> tls_handshake \<Rightarrow> bool" where
  "handshake_verified E cv hs \<longleftrightarrow> cert_accepted E cv hs \<and> hs_tls13 hs \<and>
     verify_tls13_signature E (hs_message hs) (hs_end_entity hs) (hs_dss hs) = Inr ()"

definition hop_verified :: "env \<Rightarrow> synqro_cert_verifier \<Rightarrow> hop \<Rightarrow> bool" where
  "hop_verified E cv h \<longleftrightarrow> (hop_https h \<longrightarrow> list_all (handshake_verified E cv) (hop_handshakes h))"

lemma verify_server_cert_iff:
  "(\<exists>w'. verify_server_cert E cv (hs_end_entity hs) (hs_intermediates hs) (hs_server_name hs) (hs_ocsp_response hs) (hs_now hs) w = (Inr (), w'))
   \<longleftrightarrow> cert_accepted E cv hs"
  by (cases "e_spki E (hs_end_entity hs)")
     (auto simp: verify_server_cert_def spki_sha256_def bind_res_def run_iff cert_accepted_def)

lemma tls_accept_Inr: "tls_accept E cv hs w = (Inr u, w') \<Longrightarrow> handshake_verified E cv hs"
  using verify_server_cert_iff [of E cv hs w]
  by (auto simp: tls_accept_def run_iff handshake_verified_def verify_tls12_signature_def split: if_splits)

lemma connect_verified:
  "for_each (if hop_https h then hop_handshakes h else []) (tls_accept E cv) w = (Inr u, w') \<Longrightarrow> hop_verified E cv h"
  by (auto simp: hop_verified_def list_all_iff dest!: for_each_Inr tls_accept_Inr split: if_splits)

section \<open>What relations a request respects\<close>

lemma steps_tls_accept:
  assumes "preorder_rel R" "\<And>ev d. steps R (audit_log E (cv_audit cv) ev d)"
  shows "steps R (tls_accept E cv hs)"
  unfolding tls_accept_def verify_server_cert_def
  by (intro steps_bindE steps_case_sum steps_if steps_ret steps_fail steps_ignore steps_lift_res assms)

lemma steps_send_hop:
  assumes "preorder_rel R" "\<And>ev d. steps R (audit_log E (cv_audit cv) ev d)"
    and hop: "\<And>w. hop_verified E cv h \<Longrightarrow> R w (w\<lparr>w_trace := w_trace w @ [EvHop h]\<rparr>)"
  shows "steps R (send_hop E cv h)"
  unfolding send_hop_def
proof (rule steps_bindE_run [OF assms(1)])
  show "steps R (for_each (if hop_https h then hop_handshakes h else []) (tls_accept E cv))"
    by (intro steps_for_each steps_tls_accept assms)
  show "steps R (http_hop h)" if "for_each (if hop_https h then hop_handshakes h else []) (tls_accept E cv) w = (Inr x, w')" for w x w'
    using hop [OF connect_verified [OF that]] by (simp add: steps_def http_hop_def)
qed

lemma steps_follow_redirects:
  assumes "preorder_rel R" "\<And>h. steps R (send_hop E cv h)"
  shows "steps R (follow_redirects E cv previous hops)"
  by (induction hops arbitrary: previous) (auto intro!: steps_if steps_bindE steps_ret assms)

text \<open>A request writes to the audit log, and to the trace, which records only verified hops.\<close>

lemma steps_client_send:
  assumes pre: "preorder_rel R" and log: "\<And>ev d. steps R (audit_log E (dl_audit dl) ev d)"
    and out: "\<And>w t xs. (\<And>h. EvHop h \<in> set xs \<Longrightarrow> hop_verified E (client_verifier dl) h) \<Longrightarrow>
      R w (w\<lparr>w_tick := t, w_trace := w_trace w @ xs\<rparr>)"
  shows "steps R (client_send E dl r)"
proof -
  have tick: "R w (w\<lparr>w_tick := t\<rparr>)" for w t
    using out [where xs = "[]" and t = t and w = w] by simp
  have event: "R w (w\<lparr>w_trace := w_trace w @ [ev]\<rparr>)"
    if "\<And>h. ev = EvHop h \<Longrightarrow> hop_verified E (client_verifier dl) h" for w ev
    using out [where xs = "[ev]" and t = "w_tick w" and w = w] that by simp
  have hop: "steps R (send_hop E (client_verifier dl) h)" for h
  proof (rule steps_send_hop [OF pre])
    show "R w (w\<lparr>w_trace := w_trace w @ [EvHop h]\<rparr>)" if "hop_verified E (client_verifier dl) h" for w
      by (rule event) (use that in auto)
  qed (simp add: client_verifier_def log)
  have begin_event: "R w (w\<lparr>w_trace := w_trace w @ [EvHttp r]\<rparr>)" for w by (rule event) simp
  have path: "steps R (map_err f (bindE (send_hop E (client_verifier dl) h) (\<lambda>_. follow_redirects E (client_verifier dl) ps hops)))" for f h ps hops
    by (intro steps_map_err steps_bindE steps_follow_redirects hop pre)
  have rest: "steps R (bindE (map_err f (bindE (send_hop E (client_verifier dl) h) (\<lambda>_. follow_redirects E (client_verifier dl) ps hops)))
      (\<lambda>_. http_answer E r))" for f h ps hops
    by (intro steps_bindE path pre) (simp add: steps_def http_answer_def tick)
  show ?thesis
    unfolding client_send_def Let_def
    by (intro steps_bindE steps_lift_res pre) (use rest in \<open>auto simp: steps_def http_begin_def begin_event\<close>)
qed

section \<open>The way of a request\<close>

text \<open>Where a request means to go: the hop of its address, then the redirects up to the first that leaves the host.\<close>

definition hops_of :: "env \<Rightarrow> nat \<Rightarrow> http_request \<Rightarrow> bool \<times> string option \<Rightarrow> hop list" where
  "hops_of E t r url = first_hop E t r url # takeWhile (\<lambda>h. hop_host h = snd url) (e_redirects E t r)"

lemma tls_accept_trace: "w_trace (snd (tls_accept E cv hs w)) = w_trace w"
  by (rule fs_only_trace [OF steps_snd [OF steps_tls_accept [OF preorder_fs_only steps_audit_log]]])

lemma connect_trace: "for_each hss (tls_accept E cv) w = (res, w') \<Longrightarrow> w_trace w' = w_trace w"
proof (induction hss arbitrary: w)
  case (Cons hs hss)
  then show ?case
    using tls_accept_trace [of E cv hs w] by (auto simp: bindE_def split: prod.splits sum.splits)
qed (simp add: ret_def)

lemma send_hop_cases:
  assumes "send_hop E cv h w = (res, w')"
  shows "(res = Inr () \<and> hop_verified E cv h \<and> w_trace w' = w_trace w @ [EvHop h]) \<or> (\<exists>e. res = Inl e \<and> w_trace w' = w_trace w)"
proof -
  obtain x w1 where c: "for_each (if hop_https h then hop_handshakes h else []) (tls_accept E cv) w = (x, w1)" by fastforce
  with assms connect_trace [OF c] connect_verified [of h E cv w _ w1] show ?thesis
    by (cases x) (auto simp: send_hop_def bindE_def http_hop_def)
qed

text \<open>The hops taken are a prefix of the intended ones, all verified; all of them when nothing failed.\<close>

definition went :: "env \<Rightarrow> synqro_cert_verifier \<Rightarrow> hop list \<Rightarrow> bool \<Rightarrow> 'z world_scheme \<Rightarrow> 'z world_scheme \<Rightarrow> bool" where
  "went E cv hops complete w w' \<longleftrightarrow> (\<exists>taken. w_trace w' = w_trace w @ map EvHop taken \<and> prefix taken hops \<and>
     list_all (hop_verified E cv) taken \<and> (complete \<longrightarrow> taken = hops))"

lemma went_none: "w_trace w' = w_trace w \<Longrightarrow> (complete \<Longrightarrow> hops = []) \<Longrightarrow> went E cv hops complete w w'"
  unfolding went_def by (intro exI [of _ "[]"]) auto

lemma went_step:
  "w_trace w1 = w_trace w @ [EvHop h] \<Longrightarrow> hop_verified E cv h \<Longrightarrow> went E cv hops complete w1 w' \<Longrightarrow> went E cv (h # hops) complete w w'"
  unfolding went_def by (elim exE conjE, rule_tac x = "h # taken" in exI) auto

lemma follow_redirects_went:
  assumes "previous \<noteq> []" "last previous = host" "follow_redirects E cv previous hops w = (res, w')"
  shows "went E cv (takeWhile (\<lambda>h. hop_host h = host) hops) (res = Inr ()) w w'"
  using assms
proof (induction hops arbitrary: previous w)
  case Nil
  then show ?case by (auto simp: ret_def intro: went_none)
next
  case (Cons h hops)
  show ?case
  proof (cases "hop_host h = host")
    case False
    with Cons.prems show ?thesis by (auto simp: redirect_policy_def ret_def intro: went_none)
  next
    case True
    obtain x w1 where s: "send_hop E cv h w = (x, w1)" by fastforce
    from send_hop_cases [OF s] show ?thesis
    proof (elim disjE conjE exE)
      assume "x = Inr ()" and h: "hop_verified E cv h" "w_trace w1 = w_trace w @ [EvHop h]"
      with Cons.prems s True have "follow_redirects E cv (previous @ [host]) hops w1 = (res, w')"
        by (simp add: redirect_policy_def bindE_def)
      from Cons.IH [OF _ _ this] h True show ?thesis by (simp add: went_step)
    next
      fix e assume "x = Inl e" "w_trace w1 = w_trace w"
      with Cons.prems s True show ?thesis by (auto simp: redirect_policy_def bindE_def intro: went_none)
    qed
  qed
qed

lemma client_send_bad_url: "e_url E (rq_url r) = Inl e \<Longrightarrow> client_send E dl r w = (Inl e, w\<lparr>w_trace := w_trace w @ [EvHttp r]\<rparr>)"
  by (simp add: client_send_def http_begin_def bindE_def lift_res_def)

lemma client_send_went:
  assumes "e_url E (rq_url r) = Inr url" "client_send E dl r w = (res, w')"
  shows "\<exists>complete. went E (client_verifier dl) (hops_of E (w_tick w) r url) complete (w\<lparr>w_trace := w_trace w @ [EvHttp r]\<rparr>) w' \<and>
    (if complete then \<exists>t. res = e_http E t r else \<exists>e. res = Inl (e_tls_failure E r e))"
proof -
  let ?cv = "client_verifier dl" and ?w = "w\<lparr>w_trace := w_trace w @ [EvHttp r]\<rparr>"
  let ?hops = "takeWhile (\<lambda>h. hop_host h = snd url) (e_redirects E (w_tick w) r)"
  obtain x w1 where s: "send_hop E ?cv (first_hop E (w_tick w) r url) ?w = (x, w1)" by fastforce
  obtain y w2 where f: "follow_redirects E ?cv [snd url] (e_redirects E (w_tick w) r) w1 = (y, w2)" by fastforce
  have run: "(res, w') = (case x of Inl e \<Rightarrow> (Inl (e_tls_failure E r e), w1)
     | Inr _ \<Rightarrow> (case y of Inl e \<Rightarrow> (Inl (e_tls_failure E r e), w2) | Inr _ \<Rightarrow> http_answer E r w2))"
    using assms s f by (auto simp: client_send_def http_begin_def bindE_def lift_res_def Let_def map_err_def split: sum.splits)
  from send_hop_cases [OF s] show ?thesis
  proof (elim disjE conjE exE)
    fix e assume e: "x = Inl e" "w_trace w1 = w_trace ?w"
    with run show ?thesis by (intro exI [of _ False]) (auto intro: went_none)
  next
    assume x: "x = Inr ()" and h: "hop_verified E ?cv (first_hop E (w_tick w) r url)" "w_trace w1 = w_trace ?w @ [EvHop (first_hop E (w_tick w) r url)]"
    have w2: "went E ?cv (hops_of E (w_tick w) r url) (y = Inr ()) ?w w2"
      unfolding hops_of_def by (rule went_step [OF h(2,1)], rule follow_redirects_went [OF _ _ f]) simp_all
    show ?thesis
    proof (cases y)
      case (Inl e)
      with run x w2 show ?thesis by (intro exI [of _ False]) auto
    next
      case (Inr u)
      with run x have "w_trace w' = w_trace w2" "res = e_http E (w_tick w2) r" by (auto simp: http_answer_def)
      with Inr w2 show ?thesis by (intro exI [of _ True]) (auto simp: went_def)
    qed
  qed
qed

text \<open>The events of a request.\<close>

lemma client_send_events:
  assumes "client_send E dl r w = (res, w')"
  shows "\<exists>hops. w_trace w' = w_trace w @ EvHttp r # map EvHop hops \<and>
    (\<forall>h \<in> set hops. (\<exists>https. e_url E (rq_url r) = Inr (https, hop_host h)) \<and> hop_verified E (client_verifier dl) h) \<and>
    (\<forall>resp. res = Inr resp \<longrightarrow> (\<exists>url. e_url E (rq_url r) = Inr url \<and> hops = hops_of E (w_tick w) r url))"
proof (cases "e_url E (rq_url r)")
  case (Inl e)
  with assms client_send_bad_url [OF Inl, of dl w] show ?thesis by (intro exI [of _ "[]"]) auto
next
  case (Inr url)
  from client_send_went [OF Inr assms] obtain complete taken where
    taken: "w_trace w' = (w_trace w @ [EvHttp r]) @ map EvHop taken" "prefix taken (hops_of E (w_tick w) r url)"
      "list_all (hop_verified E (client_verifier dl)) taken" "complete \<longrightarrow> taken = hops_of E (w_tick w) r url"
    and res: "if complete then \<exists>t. res = e_http E t r else \<exists>e. res = Inl (e_tls_failure E r e)"
    by (auto simp: went_def)
  have "hop_host h = snd url" if "h \<in> set (hops_of E (w_tick w) r url)" for h
    using that by (auto simp: hops_of_def first_hop_def dest: set_takeWhileD)
  with set_mono_prefix [OF taken(2)] have "e_url E (rq_url r) = Inr (fst url, hop_host h)" if "h \<in> set taken" for h
    using that Inr by force
  with taken res show ?thesis
    by (intro exI [of _ taken]) (auto simp: list_all_iff Inr split: if_splits)
qed

lemma filter_hops: "filter is_http (map EvHop hops) = []"
  by (simp add: filter_empty_conv)

lemma steps_same_cells_request: "steps same_cells (client_send E dl r)"
  by (rule steps_client_send) (auto simp: same_cells_def intro: steps_same_cells [OF steps_audit_log])

lemma client_send_Inr:
  assumes "client_send E dl r w = (Inr resp, w')"
  shows "\<exists>t. e_http E t r = Inr resp \<and> w_tick w' = Suc t"
  using assms by (auto simp: client_send_def Let_def run_iff http_answer_def)

text \<open>With no handshakes and no redirects the request is answered at once.\<close>

lemma client_send_quiet:
  assumes "e_url E (rq_url r) = Inr url" "e_handshakes E = (\<lambda>t r. [])" "e_redirects E = (\<lambda>t r. [])"
  shows "client_send E dl r w = (e_http E (w_tick w) r,
    w\<lparr>w_tick := Suc (w_tick w), w_trace := w_trace w @ [EvHttp r, EvHop (first_hop E (w_tick w) r url)]\<rparr>)"
  using assms by (simp add: client_send_def http_begin_def bindE_def lift_res_def Let_def map_err_def send_hop_def first_hop_def
      ret_def http_hop_def http_answer_def)

end
