(* ===== verification/Manifest_Fetch.thy ===== *)
theory Manifest_Fetch
  imports Requests
begin

text \<open>
  Fetching and verifying the update manifest (\<open>src/downloader.rs\<close>): the authenticated request, the five
  verification steps on the bytes of the answer, and the loop of attempts with backoff.
\<close>

section \<open>Request and answer\<close>

definition auth_value :: "env \<Rightarrow> string \<Rightarrow> string \<Rightarrow> synqro_error + string" where
  "auth_value E refusal token =
     (let v = ''Bearer '' @ token in if e_header_ok E v then Inr v else Inl (InvalidInput refusal))"

definition manifest_request :: "downloader \<Rightarrow> string \<Rightarrow> http_request" where
  "manifest_request dl auth = \<lparr>rq_method = ''GET'', rq_url = manifest_api_url dl,
     rq_headers = [(''authorization'', auth), (''user-agent'', ''Synqro/'' @ SYNQRO_VERSION),
                   (''accept'', ''application/vnd.github.v3.raw'')]\<rparr>"

definition is_success :: "nat \<Rightarrow> bool" where
  "is_success status \<longleftrightarrow> 200 \<le> status \<and> status < 300"

text \<open>The body of a response arrives in pieces; the first that cannot be read ends it.\<close>

fun read_body :: "(string + bytes) list \<Rightarrow> string + bytes" where
  "read_body [] = Inr []"
| "read_body (Inl e # cs) = Inl e"
| "read_body (Inr b # cs) = (case read_body cs of Inl e \<Rightarrow> Inl e | Inr bs \<Rightarrow> Inr (b @ bs))"

definition manifest_bytes :: "env \<Rightarrow> http_response \<Rightarrow> synqro_error + bytes" where
  "manifest_bytes E resp =
     (if rs_status resp = 429 \<or> rs_status resp = 503 then
        let retry_after = (case Option.bind (rs_retry_after resp) parse_u64 of Some n \<Rightarrow> n | None \<Rightarrow> 60) in
        Inl (Network (''Rate limited; retry after '' @ show_nat (unat retry_after) @ ''s''))
      else if \<not> is_success (rs_status resp) then
        Inl (Network (''HTTP '' @ e_status_text E (rs_status resp) @ '' fetching manifest''))
      else map_inl (\<lambda>e. Network (''Reading manifest body: '' @ e)) (read_body (rs_chunks resp)))"

section \<open>Step 2: replay\<close>

text \<open>Durations are nanoseconds; seconds and hours are truncated towards zero.\<close>

definition trunc_div :: "int \<Rightarrow> int \<Rightarrow> int" where
  "trunc_div a b = (if a < 0 then - ((- a) div b) else a div b)"

definition num_seconds :: "int \<Rightarrow> int" where
  "num_seconds age = trunc_div age (10 ^ 9)"

definition num_hours :: "int \<Rightarrow> int" where
  "num_hours age = trunc_div (num_seconds age) 3600"

definition check_age :: "int \<Rightarrow> int \<Rightarrow> synqro_error + unit" where
  "check_age now issued_at =
     (let age = now - issued_at in
      if num_seconds age < 0 \<or> num_hours age > 24 then
        Inl (Signature (''Manifest replay: issued_at is '' @ show_int (num_hours age) @ '' hours old (max 24)''))
      else Inr ())"

definition issued_at_of :: "env \<Rightarrow> json \<Rightarrow> synqro_error + int" where
  "issued_at_of E raw_value =
     bind_res (ok_or (InvalidInput ''Manifest missing `issued_at` field'') (Option.bind (obj_get raw_value ''issued_at'') as_str)) (\<lambda>s.
     ok_or (InvalidInput ''Manifest `issued_at` is not RFC 3339'') (e_parse_dt E s))"

section \<open>Step 3: the signature\<close>

definition decode_signature :: "env \<Rightarrow> string \<Rightarrow> string \<Rightarrow> synqro_error + bytes" where
  "decode_signature E what b64 =
     bind_res (ok_or (Signature (what @ '' sig is not valid Base64'')) (e_b64 E b64)) (\<lambda>sig_bytes.
     ok_or (Signature (what @ '' sig has invalid length'')) (e_sig_from_slice E sig_bytes))"

definition release_key :: "env \<Rightarrow> crypto_config \<Rightarrow> synqro_error + bytes" where
  "release_key E crypto =
     bind_res (ok_or (Crypto ''release_signing_pubkey is not valid Base64'') (e_b64 E (cc_release_signing_pubkey crypto))) (\<lambda>pubkey_bytes.
     bind_res (if length pubkey_bytes = 32 then Inr pubkey_bytes else Inl (Crypto ''release_signing_pubkey must be 32 bytes'')) (\<lambda>pubkey_array.
     map_inl (\<lambda>e. Crypto (''Invalid Ed25519 public key: '' @ e)) (e_key_from_bytes E pubkey_array)))"

definition SIG_FIELD :: string where "SIG_FIELD = ''manifest_sig_ed25519''"

definition dl_canonical_json_sorted :: "env \<Rightarrow> json \<Rightarrow> synqro_error + string" where
  "dl_canonical_json_sorted E value =
     map_inl (\<lambda>e. Internal (''Canonical JSON failed: '' @ e)) (e_json_str E (sort_json_keys value))"

text \<open>What is signed, the signature and the key.\<close>

definition manifest_sig_parts :: "env \<Rightarrow> crypto_config \<Rightarrow> json \<Rightarrow> synqro_error + (string \<times> bytes \<times> bytes)" where
  "manifest_sig_parts E crypto raw_value =
     bind_res (ok_or (Signature ''Manifest missing `manifest_sig_ed25519` field'') (Option.bind (obj_get raw_value SIG_FIELD) as_str)) (\<lambda>sig_b64.
     bind_res (case raw_value of JObject m \<Rightarrow> Inr m | _ \<Rightarrow> Inl (InvalidInput ''Manifest top-level must be a JSON object'')) (\<lambda>payload_map.
     bind_res (dl_canonical_json_sorted E (JObject (bt_remove SIG_FIELD payload_map))) (\<lambda>canonical_payload.
     bind_res (decode_signature E ''Manifest'' sig_b64) (\<lambda>signature.
     bind_res (release_key E crypto) (\<lambda>verifying_key.
     Inr (canonical_payload, signature, verifying_key))))))"

definition verify_manifest_sig :: "env \<Rightarrow> downloader \<Rightarrow> json \<Rightarrow> ('z, unit) eio" where
  "verify_manifest_sig E dl raw_value =
     bindE (lift_res (manifest_sig_parts E (dl_crypto_config dl) raw_value)) (\<lambda>(canonical_payload, signature, verifying_key).
     bindE (on_err (\<lambda>e w. (Signature (''Manifest Ed25519 verification failed: '' @ e),
                     snd (audit_log E (dl_audit dl) ManifestSignatureFail (json_obj [(''reason'', JString e)]) w)))
              (lift_res (e_verify_strict E verifying_key canonical_payload signature))) (\<lambda>_.
     ignore (audit_log E (dl_audit dl) ManifestSignatureOk (json_obj []))))"

section \<open>Steps 2 to 5\<close>

definition check_installation :: "downloader \<Rightarrow> synqro_manifest \<Rightarrow> synqro_error + unit" where
  "check_installation dl manifest =
     (case mf_installation_id manifest of
        Some manifest_iid \<Rightarrow>
          if manifest_iid \<noteq> dl_installation_id dl then
            Inl (Signature (''Manifest installation_id does not match local ID '' @ em_dash @ '' cross-tenant injection?''))
          else Inr ()
      | None \<Rightarrow> Inr ())"

definition accept_manifest :: "env \<Rightarrow> downloader \<Rightarrow> bytes \<Rightarrow> ('z, synqro_manifest) eio" where
  "accept_manifest E dl raw_bytes =
     bindE (lift_res (map_inl (\<lambda>e. InvalidInput (''Manifest is not valid JSON: '' @ e)) (e_json_parse E raw_bytes))) (\<lambda>raw_value.
     bindE (lift_res (issued_at_of E raw_value)) (\<lambda>issued_at.
     bindE (utc_now E) (\<lambda>now.
     bindE (lift_res (check_age now issued_at)) (\<lambda>_.
     bindE (verify_manifest_sig E dl raw_value) (\<lambda>_.
     bindE (lift_res (map_inl (\<lambda>e. InvalidInput (''Manifest parse failed: '' @ e))
              (json_typed E ''SynqroManifest'' decode_synqro_manifest raw_bytes))) (\<lambda>manifest.
     bindE (lift_res (check_installation dl manifest)) (\<lambda>_.
     ret manifest)))))))"

section \<open>One attempt, and the loop\<close>

definition fetch_manifest_once :: "env \<Rightarrow> downloader \<Rightarrow> 'z world_scheme keychain \<Rightarrow> ('z, synqro_manifest) eio" where
  "fetch_manifest_once E dl keychain =
     bindE (load_token_for_request E dl keychain) (\<lambda>token.
     bindE (lift_res (auth_value E ''Invalid characters in auth token'' token)) (\<lambda>auth.
     bindE (map_err (\<lambda>e. Network (''Manifest request failed: '' @ e)) (client_send E dl (manifest_request dl auth))) (\<lambda>resp.
     bindE (lift_res (manifest_bytes E resp)) (accept_manifest E dl))))"

fun fetch_attempts :: "env \<Rightarrow> downloader \<Rightarrow> 'z world_scheme keychain \<Rightarrow> nat list \<Rightarrow> synqro_error \<Rightarrow> ('z, synqro_manifest) eio" where
  "fetch_attempts E dl keychain [] last_err = fail last_err"
| "fetch_attempts E dl keychain (retry # retries) last_err =
     bindE (if retry > 0 then bindE (backoff_duration E dl (of_nat (retry - 1))) sleep_for else ret ()) (\<lambda>_.
     bindE (attempt (fetch_manifest_once E dl keychain)) (\<lambda>r. case r of
       Inr manifest \<Rightarrow> bindE (record_success dl) (\<lambda>_. ret manifest)
     | Inl e \<Rightarrow> bindE (record_failure E dl) (\<lambda>_. fetch_attempts E dl keychain retries e)))"

definition fetch_manifest_internal :: "env \<Rightarrow> downloader \<Rightarrow> 'z world_scheme keychain \<Rightarrow> ('z, synqro_manifest) eio" where
  "fetch_manifest_internal E dl keychain =
     bindE (check_degraded dl) (\<lambda>_.
     fetch_attempts E dl keychain [0..<Suc (unat (uc_max_retries (dl_update_config dl)))] (Network ''No attempts made''))"

definition fetch_and_verify_manifest :: "env \<Rightarrow> downloader \<Rightarrow> 'z world_scheme keychain \<Rightarrow> ('z, synqro_manifest) eio" where
  "fetch_and_verify_manifest E dl keychain =
     bindE (map_err (\<lambda>e. Internal (''Tokio runtime build: '' @ e)) (runtime_build E)) (\<lambda>_.
     fetch_manifest_internal E dl keychain)"

section \<open>The accepted manifests\<close>

text \<open>What a manifest must be, independently of the order of the checks.\<close>

definition fresh_at :: "int \<Rightarrow> int \<Rightarrow> bool" where
  "fresh_at now issued_at \<longleftrightarrow> issued_at < now + 10 ^ 9 \<and> now < issued_at + 25 * 3600 * 10 ^ 9"

definition signed_by_release_key :: "env \<Rightarrow> crypto_config \<Rightarrow> (string \<times> json) list \<Rightarrow> bool" where
  "signed_by_release_key E crypto obj \<longleftrightarrow>
     (\<exists>sig_b64 signature key text. map_of obj SIG_FIELD = Some (JString sig_b64) \<and>
        decode_signature E ''Manifest'' sig_b64 = Inr signature \<and> release_key E crypto = Inr key \<and>
        e_json_str E (sort_json_keys (JObject (bt_remove SIG_FIELD obj))) = Inr text \<and>
        e_verify_strict E key text signature = Inr ())"

definition authentic_manifest :: "env \<Rightarrow> downloader \<Rightarrow> int \<Rightarrow> bytes \<Rightarrow> synqro_manifest \<Rightarrow> bool" where
  "authentic_manifest E dl now b manifest \<longleftrightarrow>
     (\<exists>obj s issued_at. e_json_parse E b = Inr (JObject obj) \<and>
        map_of obj ''issued_at'' = Some (JString s) \<and> e_parse_dt E s = Some issued_at \<and> fresh_at now issued_at \<and>
        signed_by_release_key E (dl_crypto_config dl) obj) \<and>
     json_typed E ''SynqroManifest'' decode_synqro_manifest b = Inr manifest \<and>
     mf_installation_id manifest \<in> {None, Some (dl_installation_id dl)}"

lemma num_seconds_neg: "num_seconds age < 0 \<longleftrightarrow> age \<le> - (10 ^ 9)"
proof (cases "age < 0")
  case True
  have "0 < (- age) div 10 ^ 9 \<longleftrightarrow> 10 ^ 9 \<le> - age" by (rule pos_imp_zdiv_pos_iff) simp
  with True show ?thesis by (simp add: num_seconds_def trunc_div_def) arith
qed (simp add: num_seconds_def trunc_div_def pos_imp_zdiv_nonneg_iff not_less)

lemma num_hours_over: "num_hours age > 24 \<longleftrightarrow> 25 * 3600 * 10 ^ 9 \<le> age"
proof (cases "age < 0")
  case True
  then have "num_seconds age \<le> 0" by (simp add: num_seconds_def trunc_div_def pos_imp_zdiv_nonneg_iff)
  then have "num_hours age \<le> 0"
    by (cases "num_seconds age = 0") (simp_all add: num_hours_def trunc_div_def pos_imp_zdiv_nonneg_iff)
  with True show ?thesis by simp
next
  case False
  then have "num_hours age = age div (10 ^ 9 * 3600)"
    by (simp add: num_hours_def num_seconds_def trunc_div_def pos_imp_zdiv_neg_iff zdiv_zmult2_eq)
  then show ?thesis by auto
qed

lemma check_age_iff: "check_age now issued_at = Inr () \<longleftrightarrow> fresh_at now issued_at"
  by (auto simp: check_age_def fresh_at_def Let_def num_seconds_neg num_hours_over)

lemma issued_at_iff:
  "issued_at_of E raw = Inr t \<longleftrightarrow>
   (\<exists>obj s. raw = JObject obj \<and> map_of obj ''issued_at'' = Some (JString s) \<and> e_parse_dt E s = Some t)"
proof -
  have "as_str v = Some s \<longleftrightarrow> v = JString s" for v s by (cases v) auto
  then show ?thesis by (cases raw) (auto simp: issued_at_of_def run_iff bind_eq_Some_conv)
qed

lemma sig_parts_iff:
  "manifest_sig_parts E crypto raw = Inr (text, signature, key) \<longleftrightarrow>
   (\<exists>obj sig_b64. raw = JObject obj \<and> map_of obj SIG_FIELD = Some (JString sig_b64) \<and>
      decode_signature E ''Manifest'' sig_b64 = Inr signature \<and> release_key E crypto = Inr key \<and>
      e_json_str E (sort_json_keys (JObject (bt_remove SIG_FIELD obj))) = Inr text)"
proof -
  have "as_str v = Some s \<longleftrightarrow> v = JString s" for v s by (cases v) auto
  then show ?thesis
    by (cases raw) (auto simp: manifest_sig_parts_def dl_canonical_json_sorted_def run_iff bind_eq_Some_conv simp del: sort_json_keys.simps)
qed

lemma verify_manifest_sig_Inr:
  "(\<exists>w'. verify_manifest_sig E dl raw w = (Inr u, w')) \<longleftrightarrow>
   (\<exists>text signature key. manifest_sig_parts E (dl_crypto_config dl) raw = Inr (text, signature, key) \<and>
      e_verify_strict E key text signature = Inr ())"
  unfolding verify_manifest_sig_def by (auto simp: run_iff split: prod.splits) 

lemma check_installation_iff:
  "check_installation dl m = Inr () \<longleftrightarrow> mf_installation_id m \<in> {None, Some (dl_installation_id dl)}"
  by (auto simp: check_installation_def split: option.splits)

text \<open>The checks succeed together exactly on the authentic manifests.\<close>

lemma accept_manifest_iff:
  "(\<exists>w'. accept_manifest E dl b w = (Inr manifest, w')) \<longleftrightarrow> authentic_manifest E dl (e_clock E (w_tick w)) b manifest"
proof -
  let ?w = "w\<lparr>w_tick := Suc (w_tick w)\<rparr>" and ?now = "e_clock E (w_tick w)"
  have "(\<exists>w'. accept_manifest E dl b w = (Inr manifest, w')) \<longleftrightarrow>
    (\<exists>raw t. e_json_parse E b = Inr raw \<and> issued_at_of E raw = Inr t \<and> check_age ?now t = Inr () \<and>
       (\<exists>w'. verify_manifest_sig E dl raw ?w = (Inr (), w')) \<and>
       json_typed E ''SynqroManifest'' decode_synqro_manifest b = Inr manifest \<and> check_installation dl manifest = Inr ())"
    by (auto simp: accept_manifest_def run_iff utc_now_def)
  also have "\<dots> \<longleftrightarrow> authentic_manifest E dl ?now b manifest"
    by (auto simp: authentic_manifest_def issued_at_iff check_age_iff verify_manifest_sig_Inr sig_parts_iff check_installation_iff
        signed_by_release_key_def simp del: sort_json_keys.simps)
  finally show ?thesis .
qed

section \<open>Effects\<close>

lemma verify_manifest_sig_effects:
  "steps (fs_only {al_file (dl_audit dl)}) (verify_manifest_sig E dl raw)"
  unfolding verify_manifest_sig_def
  by (intro steps_bindE steps_lift_res steps_case_prod steps_on_err steps_ignore steps_audit_log preorder_fs_only)
     (auto intro: steps_snd [OF steps_audit_log])

lemma accept_manifest_effects: "steps (fs_only {al_file (dl_audit dl)}) (accept_manifest E dl b)"
  unfolding accept_manifest_def
  by (intro steps_bindE steps_lift_res steps_utc_now verify_manifest_sig_effects steps_ret preorder_fs_only)

text \<open>The events a downloader may cause while fetching: its own request, the hops that request goes over,
  pauses of at most five minutes.\<close>

definition fetch_event :: "env \<Rightarrow> downloader \<Rightarrow> event \<Rightarrow> bool" where
  "fetch_event E dl ev \<longleftrightarrow> (\<exists>auth. ev = EvHttp (manifest_request dl auth)) \<or>
     (\<exists>h https. ev = EvHop h \<and> e_url E (manifest_api_url dl) = Inr (https, hop_host h) \<and> hop_verified E (client_verifier dl) h) \<or>
     (\<exists>s. ev = EvSleep s \<and> s \<le> MAX_BACKOFF_SECS)"

lemma request_emits: "emits (fetch_event E dl) (Suc 0) (client_send E dl (manifest_request dl auth))"
proof (rule emitsI)
  let ?r = "manifest_request dl auth"
  fix w res w' assume run: "client_send E dl ?r w = (res, w')"
  show "\<exists>xs. w_trace w' = w_trace w @ xs \<and> length (filter is_http xs) \<le> Suc 0 \<and> (\<forall>x \<in> set xs. is_cmd x \<or> fetch_event E dl x)"
  proof -
    from client_send_events [OF run] obtain hops where tr: "w_trace w' = w_trace w @ EvHttp ?r # map EvHop hops"
      and hops: "\<forall>h \<in> set hops. (\<exists>https. e_url E (rq_url ?r) = Inr (https, hop_host h)) \<and> hop_verified E (client_verifier dl) h"
      by blast
    have "fetch_event E dl x" if "x \<in> set (EvHttp ?r # map EvHop hops)" for x
      using that hops by (auto simp: fetch_event_def) (auto simp: manifest_request_def)
    with tr show ?thesis by (intro exI [of _ "EvHttp ?r # map EvHop hops"]) (simp add: filter_hops)
  qed
qed

lemma fetch_once_emits:
  assumes "quiet_keychain kc"
  shows "emits (fetch_event E dl) (Suc 0) (fetch_manifest_once E dl kc)"
  unfolding fetch_manifest_once_def
  by (rule emits_bindE [where a = 0 and b = "Suc 0"], rule load_token_effects(1) [OF assms],
      rule emits_bindE [where a = 0 and b = "Suc 0"], rule emits_lift_res,
      rule emits_bindE [where a = "Suc 0" and b = 0], rule emits_map_err, rule request_emits,
      rule emits_bindE [where a = 0 and b = 0], rule emits_lift_res,
      rule emits_fs [OF accept_manifest_effects], simp_all)

lemma backoff_emits: "emits (fetch_event E dl) 0 (bindE (backoff_duration E dl' n) sleep_for)"
proof (rule emitsI)
  fix w r w'
  assume run: "bindE (backoff_duration E dl' n) sleep_for w = (r, w')"
  let ?s = "backoff_secs (uc_retry_backoff_base_seconds (dl_update_config dl')) n
              (e_rand E (w_tick w) (uc_retry_backoff_base_seconds (dl_update_config dl')))"
  have "w_trace w' = w_trace w @ [EvSleep ?s]"
    using run by (auto simp: backoff_duration_def Let_def bindE_def gen_upto_def ret_def sleep_for_def)
  moreover have "?s \<le> MAX_BACKOFF_SECS" by (simp add: backoff_secs_def Let_def)
  ultimately show "\<exists>xs. w_trace w' = w_trace w @ xs \<and> length (filter is_http xs) \<le> 0 \<and> (\<forall>x \<in> set xs. is_cmd x \<or> fetch_event E dl x)"
    by (auto simp: fetch_event_def)
qed

lemma fetch_attempts_emits:
  assumes "quiet_keychain kc"
  shows "emits (fetch_event E dl) (length rs) (fetch_attempts E dl kc rs e)"
proof (induction rs arbitrary: e)
  case Nil
  then show ?case by (simp add: emits_fail)
next
  case (Cons r rs)
  have rest: "emits (fetch_event E dl) (length rs) (case x of Inr m \<Rightarrow> bindE (record_success dl) (\<lambda>_. ret m)
       | Inl e \<Rightarrow> bindE (record_failure E dl) (\<lambda>_. fetch_attempts E dl kc rs e))" for x
    by (cases x) (auto intro!: emits_bindE [where a = 0 and b = "length rs"] emits_record_failure emits_record_success emits_ret Cons.IH)
  show ?case
    unfolding fetch_attempts.simps
    by (rule emits_bindE [where a = 0 and b = "length (r # rs)"], auto intro!: backoff_emits emits_ret)
       (rule emits_bindE [where a = "Suc 0" and b = "length rs"], auto intro!: emits_attempt fetch_once_emits [OF assms] rest)
qed

lemma fetch_once_cells: "quiet_keychain kc \<Longrightarrow> steps same_cells (fetch_manifest_once E dl kc)"
  unfolding fetch_manifest_once_def
  by (intro steps_bindE steps_lift_res steps_map_err steps_same_cells_request load_token_same_cells
      steps_same_cells [OF accept_manifest_effects] preorder_same_cells)

text \<open>An attempt that succeeds was answered with an authentic manifest.\<close>

definition answered_with :: "env \<Rightarrow> downloader \<Rightarrow> synqro_manifest \<Rightarrow> bool" where
  "answered_with E dl manifest \<longleftrightarrow>
     (\<exists>t auth resp b. e_http E t (manifest_request dl auth) = Inr resp \<and> is_success (rs_status resp) \<and>
        read_body (rs_chunks resp) = Inr b \<and> authentic_manifest E dl (e_clock E (Suc t)) b manifest)"

lemma fetch_once_Inr:
  assumes "fetch_manifest_once E dl kc w = (Inr manifest, w')"
  shows "answered_with E dl manifest"
proof -
  from assms obtain token w1 auth resp w2 b where
    http: "client_send E dl (manifest_request dl auth) w1 = (Inr resp, w2)" and b: "manifest_bytes E resp = Inr b"
    and acc: "accept_manifest E dl b w2 = (Inr manifest, w')"
    by (auto simp: fetch_manifest_once_def run_iff)
  from client_send_Inr [OF http] obtain t where "e_http E t (manifest_request dl auth) = Inr resp" "w_tick w2 = Suc t" by blast
  moreover have "is_success (rs_status resp)" "read_body (rs_chunks resp) = Inr b"
    using b by (auto simp: manifest_bytes_def Let_def run_iff split: if_splits)
  moreover have "authentic_manifest E dl (e_clock E (w_tick w2)) b manifest"
    using accept_manifest_iff [of E dl b w2 manifest] acc by blast
  ultimately show ?thesis unfolding answered_with_def by (metis (no_types))
qed

text \<open>The loop: success is the success of an attempt; failure is a failure of every attempt.\<close>

lemma fetch_attempts_Inr:
  "fetch_attempts E dl kc rs e w = (Inr manifest, w') \<Longrightarrow> answered_with E dl manifest \<and> dl_failures (dl_cells_of dl w') = 0"
proof (induction rs arbitrary: e w)
  case (Cons r rs)
  from Cons.prems obtain p w1 w2 where once: "fetch_manifest_once E dl kc w1 = (p, w2)"
    and rest: "(case p of Inr m \<Rightarrow> bindE (record_success dl) (\<lambda>_. ret m)
       | Inl e \<Rightarrow> bindE (record_failure E dl) (\<lambda>_. fetch_attempts E dl kc rs e)) w2 = (Inr manifest, w')"
    by (auto simp: run_iff)
  show ?case
  proof (cases p)
    case (Inl m)
    with rest Cons.IH show ?thesis by (auto simp: run_iff)
  next
    case (Inr m)
    with rest have "m = manifest" "record_success dl w2 = (Inr (), w')" by (auto simp: run_iff)
    with once Inr record_success_cells [of dl w2 "Inr ()" w'] show ?thesis
      using fetch_once_Inr by (auto simp: dl_cells_of_def)
  qed
qed (simp add: fail_def)

lemma fetch_attempts_Inl:
  assumes "quiet_keychain kc" "fetch_attempts E dl kc rs e w = (Inl e', w')"
  shows "dl_cells_of dl w' = (fail_cells ^^ length rs) (dl_cells_of dl w)"
  using assms(2)
proof (induction rs arbitrary: e w)
  case Nil
  then show ?case by (simp add: fail_def)
next
  case (Cons r rs)
  define pause where "pause = (if r > 0 then bindE (backoff_duration E dl (of_nat (r - 1))) sleep_for else ret () :: ('a, unit) eio)"
  obtain q w1 where ps: "pause w = (q, w1)" by fastforce
  have "steps same_cells pause"
    unfolding pause_def by (intro steps_if steps_same_cells_backoff steps_ret preorder_same_cells)
  from stepsD [OF this ps] have c1: "dl_cells_of dl w1 = dl_cells_of dl w" by (simp add: same_cells_def dl_cells_of_def)
  have "q = Inr ()"
    using ps by (auto simp: pause_def backoff_duration_def Let_def bindE_def gen_upto_def ret_def sleep_for_def split: if_splits)
  obtain p w2 where once: "fetch_manifest_once E dl kc w1 = (p, w2)" by fastforce
  from stepsD [OF fetch_once_cells [OF assms(1)] once] have c2: "dl_cells_of dl w2 = dl_cells_of dl w"
    using c1 by (simp add: same_cells_def dl_cells_of_def)
  have rest: "(case p of Inr m \<Rightarrow> bindE (record_success dl) (\<lambda>_. ret m)
       | Inl e \<Rightarrow> bindE (record_failure E dl) (\<lambda>_. fetch_attempts E dl kc rs e)) w2 = (Inl e', w')"
    using Cons.prems ps \<open>q = Inr ()\<close> once by (cases p) (simp_all add: bindE_def attempt_def flip: pause_def)
  show ?case
  proof (cases p)
    case (Inr m)
    with rest record_success_cells [of dl w2] show ?thesis by (auto simp: bindE_def ret_def split: prod.splits sum.splits)
  next
    case (Inl m)
    obtain x w3 where f: "record_failure E dl w2 = (x, w3)" by fastforce
    from record_failure_cells [OF f] have "x = Inr ()" "dl_cells_of dl w3 = fail_cells (dl_cells_of dl w)"
      using c2 by (simp_all add: dl_cells_of_def)
    moreover from rest Inl f this(1) have "fetch_attempts E dl kc rs m w3 = (Inl e', w')" by (simp add: bindE_def)
    ultimately show ?thesis using Cons.IH by (simp add: funpow_swap1)
  qed
qed

end
