(* ===== verification/Manifest_Facts.thy ===== *)
theory Manifest_Facts
  imports Manifest_Fetch
begin

text \<open>
  What the manifest chain of \<open>src/downloader.rs\<close> guarantees: which answers it accepts, what a successful
  fetch proves about its result, how much traffic and waiting one call can cause, and that a fetch whose
  attempts all fail leaves a downloader that refuses to work.
\<close>

section \<open>Acceptance\<close>

text \<open>C7. The checks on the bytes of an answer accept exactly the authentic manifests: a JSON object whose
  \<open>issued_at\<close> lies less than 25 hours in the past and less than one second in the future, whose signature
  is that of the release key over the sorted remaining fields, and that is either universal or made for
  this installation.\<close>

theorem manifest_accepted_iff:
  "(\<exists>w'. accept_manifest E dl b w = (Inr manifest, w')) \<longleftrightarrow> authentic_manifest E dl (e_clock E (w_tick w)) b manifest"
  by (rule accept_manifest_iff)

lemma fetch_success:
  assumes "fetch_and_verify_manifest E dl kc w = (Inr manifest, w')"
  shows "answered_with E dl manifest \<and> \<not> dl_degraded (dl_cells_of dl w) \<and> dl_failures (dl_cells_of dl w') = 0"
proof -
  from assms obtain w1 where w1: "w1 = w\<lparr>w_tick := Suc (w_tick w)\<rparr>" and ok: "\<not> dl_degraded (dl_cells_of dl w1)"
    and run: "fetch_attempts E dl kc [0..<Suc (unat (uc_max_retries (dl_update_config dl)))] (Network ''No attempts made'') w1 = (Inr manifest, w')"
    by (auto simp: fetch_and_verify_manifest_def fetch_manifest_internal_def check_degraded_def runtime_build_def run_iff
        simp del: upt_Suc fetch_attempts.simps split: if_splits)
  with fetch_attempts_Inr [OF run] show ?thesis by (simp add: dl_cells_of_def)
qed

text \<open>C8. A manifest returned by the fetch came in a successful answer to the authenticated request to the
  configured repository, was authentic at the time of the check, and the downloader was not in degraded
  mode; its failure count is reset.\<close>

theorem fetched_manifest_authentic:
  assumes "fetch_and_verify_manifest E dl kc w = (Inr manifest, w')"
  shows "answered_with E dl manifest \<and> \<not> dl_degraded (dl_cells_of dl w) \<and> dl_failures (dl_cells_of dl w') = 0"
  by (rule fetch_success [OF assms])

section \<open>Traffic and waiting\<close>

lemma fetch_and_verify_emits:
  assumes "quiet_keychain kc"
  shows "emits (fetch_event E dl) (unat (uc_max_retries (dl_update_config dl)) + 1) (fetch_and_verify_manifest E dl kc)"
proof -
  let ?n = "unat (uc_max_retries (dl_update_config dl))"
  have a: "emits (fetch_event E dl) 0 (map_err (\<lambda>e. Internal (''Tokio runtime build: '' @ e)) (runtime_build E))"
    by (rule emits_map_err, rule emits_fs [OF steps_runtime_build])
  have b: "emits (fetch_event E dl) 0 (check_degraded dl)"
    by (rule emits_same_trace) (auto simp: check_degraded_def ret_def fail_def split: if_splits)
  have c: "emits (fetch_event E dl) (?n + 1) (fetch_attempts E dl kc [0..<Suc ?n] e)" for e
    using fetch_attempts_emits [OF assms, where rs = "[0..<Suc ?n]" and dl = dl and E = E and e = e] by (simp del: upt_Suc)
  show ?thesis
    unfolding fetch_and_verify_manifest_def fetch_manifest_internal_def
    by (rule emits_bindE [OF a, where b = "?n + 1"], rule emits_bindE [OF b c]) simp_all
qed

text \<open>C36. Whatever the server answers, one call to fetch the manifest makes at most \<open>max_retries + 1\<close>
  requests, every one of them the authenticated request for the configured manifest, sent only over
  verified connections to the host of its address, and never waits more than five minutes between two of
  them; apart from that it can only have run the child processes of the keychain.\<close>

theorem fetch_traffic_bounded:
  assumes "quiet_keychain kc"
  shows "\<exists>xs. w_trace (snd (fetch_and_verify_manifest E dl kc w)) = w_trace w @ xs \<and>
    length (filter is_http xs) \<le> unat (uc_max_retries (dl_update_config dl)) + 1 \<and>
    (\<forall>x \<in> set xs. is_cmd x \<or> (\<exists>auth. x = EvHttp (manifest_request dl auth)) \<or>
      (\<exists>h https. x = EvHop h \<and> e_url E (manifest_api_url dl) = Inr (https, hop_host h) \<and> hop_verified E (client_verifier dl) h) \<or>
      (\<exists>s. x = EvSleep s \<and> unat s \<le> 300))"
proof -
  have "s \<le> MAX_BACKOFF_SECS \<Longrightarrow> unat s \<le> 300" for s by (simp add: MAX_BACKOFF_SECS_def word_le_nat_alt)
  with emitsD [OF fetch_and_verify_emits [OF assms] prod.collapse [symmetric]] show ?thesis
    unfolding fetch_event_def by meson
qed

text \<open>The pause before a retry is \<open>base * 2 ^ min retry 30 + jitter\<close> seconds computed without overflow,
  at most 300: the saturating and shifting arithmetic on 64 bits never shows.\<close>

theorem backoff_secs_exact:
  "unat (backoff_secs base retry jitter) = min (unat base * 2 ^ min (unat retry) 30 + unat jitter) 300"
proof -
  let ?e = "min (unat retry) 30"
  have "unat (min retry 30) = ?e" by (simp add: min_def word_le_nat_alt)
  moreover have shifted: "(2 :: nat) ^ ?e < 2 ^ LENGTH(64)" by (rule power_strict_increasing) auto
  moreover have "unat (push_bit ?e (1 :: u64)) = 2 ^ ?e"
    by (rule of_nat_inverse [OF _ shifted]) (simp add: push_bit_eq_mult)
  ultimately have "unat (sat_mul base (push_bit (unat (min retry 30)) 1)) = min (unat base * 2 ^ ?e) (2 ^ 64 - 1)"
    by (simp add: unat_sat_mul)
  then show ?thesis
    by (simp add: backoff_secs_def Let_def MAX_BACKOFF_SECS_def unat_sat_add min_def word_le_nat_alt)
qed

section \<open>Degraded mode\<close>

text \<open>C35. A fetch with at least five attempts that fails leaves the downloader in degraded mode: the next
  fetch returns \<open>Degraded\<close> without sending a request or reading the token.\<close>

theorem failed_fetch_degrades:
  assumes "quiet_keychain kc" and "4 \<le> uc_max_retries (dl_update_config dl)" and "\<And>t. e_runtime E t = Inr ()"
    and "fetch_and_verify_manifest E dl kc w = (Inl e, w')"
  shows "fetch_and_verify_manifest E dl kc w' = (Inl Degraded, w'\<lparr>w_tick := Suc (w_tick w')\<rparr>)"
proof -
  let ?w = "w\<lparr>w_tick := Suc (w_tick w)\<rparr>" and ?n = "unat (uc_max_retries (dl_update_config dl))"
  have unfold: "fetch_and_verify_manifest E dl kc v = fetch_manifest_internal E dl kc (v\<lparr>w_tick := Suc (w_tick v)\<rparr>)" for v
    by (simp add: fetch_and_verify_manifest_def bindE_def map_err_def runtime_build_def assms(3))
  have deg: "dl_degraded (dl_cells_of dl v) \<Longrightarrow> fetch_manifest_internal E dl kc v = (Inl Degraded, v)" for v
    by (simp add: fetch_manifest_internal_def bindE_def check_degraded_def fail_def)
  have "dl_degraded (dl_cells_of dl w')"
  proof (cases "dl_degraded (dl_cells_of dl ?w)")
    case True
    with assms(4) deg [OF True] show ?thesis by (auto simp: unfold)
  next
    case False
    then have "fetch_attempts E dl kc [0..<Suc ?n] (Network ''No attempts made'') ?w = (Inl e, w')"
      using assms(4) by (simp add: unfold fetch_manifest_internal_def bindE_def check_degraded_def ret_def del: upt_Suc fetch_attempts.simps)
    from fetch_attempts_Inl [OF assms(1) this] have "dl_cells_of dl w' = (fail_cells ^^ Suc ?n) (dl_cells_of dl ?w)"
      by (simp del: upt_Suc funpow.simps)
    moreover have "5 \<le> Suc ?n" using assms(2) by (simp add: word_le_nat_alt)
    ultimately show ?thesis by (metis five_failures_degrade)
  qed
  then have "dl_degraded (dl_cells_of dl (w'\<lparr>w_tick := Suc (w_tick w')\<rparr>))" by (simp add: dl_cells_of_def)
  from deg [OF this] show ?thesis by (simp add: unfold)
qed

section \<open>Witnesses\<close>

definition uc1 :: update_config where
  "uc1 = \<lparr>uc_check_interval_seconds = 3600, uc_max_retries = 4, uc_retry_backoff_base_seconds = 2,
     uc_download_timeout_seconds = 30, uc_max_payload_size_bytes = 1000, uc_staging_dir = ''/stage'', uc_backup_dir = ''/bk''\<rparr>"

definition sc1 :: source_config where
  "sc1 = \<lparr>sc_provider = ''github'', sc_owner = ''acme'', sc_repo = ''fleet'', sc_branch = ''main'', sc_manifest_path = ''m.json''\<rparr>"

definition cc1 :: crypto_config where
  "cc1 = \<lparr>cc_release_signing_pubkey = replicate 32 (CHR ''A''), cc_github_api_cert_pin = enc_str ''spki''\<rparr>"

definition lg2 :: audit_logger where
  "lg2 = \<lparr>al_log_path = [RootDir, Normal ''audit''], al_hmac_key = ''key'', al_installation_id = ''id'', al_file = [''audit'']\<rparr>"

definition dl1 :: downloader where
  "dl1 = \<lparr>dl_update_config = uc1, dl_source_config = sc1, dl_installation_id = ''id'', dl_crypto_config = cc1, dl_audit = lg2, dl_atomics = 0\<rparr>"

text \<open>A keychain that holds the token.\<close>

definition kc1 :: "world keychain" where
  "kc1 = \<lparr>kc_load = \<lambda>s a. ret ''ghp'', kc_store = \<lambda>s a b. ret (), kc_delete = \<lambda>s a. ret ()\<rparr>"

lemma quiet_kc1: "quiet_keychain kc1"
  by (simp add: quiet_keychain_def kc1_def ret_def)

definition fields1 :: "(string \<times> json) list" where
  "fields1 = [(''artifacts'', JArray []), (''channel'', JString ''stable''), (''issued_at'', JString ''1700000000''),
     (SIG_FIELD, JString (replicate 64 (CHR ''A''))), (''schema_version'', JString ''1''), (''version'', JString ''2.0'')]"

definition answer1 :: json where
  "answer1 = JObject fields1"

definition manifest1 :: synqro_manifest where
  "manifest1 = \<lparr>mf_schema_version = ''1'', mf_issued_at = ''1700000000'', mf_installation_id = None, mf_version = ''2.0'',
     mf_channel = ''stable'', mf_artifacts = [], mf_manifest_sig_ed25519 = replicate 64 (CHR ''A'')\<rparr>"

definition server1 :: env where
  "server1 = env0\<lparr>e_http := \<lambda>t r. Inr \<lparr>rs_status = 200, rs_retry_after = None, rs_chunks = [Inr (enc answer1)]\<rparr>\<rparr>"

lemma parse_answer1: "e_json_parse server1 (enc answer1) = Inr (JObject fields1)"
proof -
  have "json_wf answer1" by (simp add: answer1_def fields1_def SIG_FIELD_def)
  then show ?thesis by (simp add: server1_def parse_enc map_inr_def sort_json_keys_id) (simp add: answer1_def)
qed

lemma answer1_authentic: "authentic_manifest server1 dl1 1700000000 (enc answer1) manifest1"
proof -
  have "signed_by_release_key server1 cc1 fields1"
    unfolding signed_by_release_key_def
    by (intro exI [of _ "replicate 64 (CHR ''A'')"] exI [of _ "replicate 32 (CHR ''A'')"] exI)
      (auto simp: fields1_def SIG_FIELD_def decode_signature_def release_key_def server1_def cc1_def bind_res_def simp del: enc.simps sort_json_keys.simps)
  moreover have "fresh_at 1700000000 1700000000" by (simp add: fresh_at_def)
  moreover have "e_parse_dt server1 ''1700000000'' = Some 1700000000"
    by (simp add: server1_def parse_u64_def is_digit_def byte_val_def digits_val_def)
  moreover have "map_of fields1 ''issued_at'' = Some (JString ''1700000000'')" by (simp add: fields1_def SIG_FIELD_def)
  moreover have "json_typed server1 ''SynqroManifest'' decode_synqro_manifest (enc answer1) = Inr manifest1"
    unfolding json_typed_def parse_answer1
    by (simp add: server1_def fields1_def SIG_FIELD_def manifest1_def decode_synqro_manifest_def fld_string_def fld_opt_string_def fld_list_def)
  ultimately show ?thesis
    unfolding authentic_manifest_def by (simp add: parse_answer1 manifest1_def dl1_def)
qed

lemma fetch1: "\<exists>w'. fetch_and_verify_manifest server1 dl1 kc1 (world_of []) = (Inr manifest1, w')"
proof -
  let ?w = "\<lambda>t xs. (world_of [])\<lparr>w_tick := t, w_trace := xs\<rparr>"
  let ?r = "manifest_request dl1 ''Bearer ghp''"
  let ?h = "first_hop server1 (Suc 0) ?r (True, Some ''api.github.com'')"
  have send: "client_send server1 dl1 ?r w = (e_http server1 (w_tick w) ?r, w\<lparr>w_tick := Suc (w_tick w),
      w_trace := w_trace w @ [EvHttp ?r, EvHop (first_hop server1 (w_tick w) ?r (True, Some ''api.github.com''))]\<rparr>)" for w :: world
    by (rule client_send_quiet) (simp_all add: server1_def)
  have fields: "e_http server1 = (\<lambda>t r. Inr \<lparr>rs_status = 200, rs_retry_after = None, rs_chunks = [Inr (enc answer1)]\<rparr>)"
    "e_header_ok server1 = (\<lambda>s. CHR 0x0A \<notin> set s)" by (simp_all add: server1_def)
  have once: "fetch_manifest_once server1 dl1 kc1 (?w (Suc 0) []) = accept_manifest server1 dl1 (enc answer1) (?w (Suc (Suc 0)) [EvHttp ?r, EvHop ?h])"
    by (simp add: fetch_manifest_once_def load_token_for_request_def log_err_def on_err_def map_err_def bindE_def kc1_def ret_def
        valid_utf8.simps seq_len_def byte_val_def auth_value_def Let_def lift_res_def send fields manifest_bytes_def is_success_def
        world_of_def del: enc.simps)
  have "\<exists>w'. accept_manifest server1 dl1 (enc answer1) (?w (Suc (Suc 0)) [EvHttp ?r, EvHop ?h]) = (Inr manifest1, w')"
    unfolding accept_manifest_iff using answer1_authentic by (simp add: server1_def)
  then obtain w2 where acc: "fetch_manifest_once server1 dl1 kc1 (?w (Suc 0) []) = (Inr manifest1, w2)" by (auto simp: once)
  obtain w3 where "record_success dl1 w2 = (Inr (), w3)" by (simp add: record_success_def ret_def)
  moreover have "\<exists>rs. [0..<Suc (unat (uc_max_retries (dl_update_config dl1)))] = 0 # rs"
    by (simp add: upt_rec del: upt_Suc)
  moreover have "\<not> dl_degraded (dl_cells_of dl1 (?w (Suc 0) []))" by (simp add: dl_cells_of_def world_of_def)
  moreover have "runtime_build server1 (world_of []) = (Inr (), ?w (Suc 0) [])"
    by (simp add: runtime_build_def server1_def world_of_def)
  ultimately show ?thesis
    using acc by (auto simp: fetch_and_verify_manifest_def fetch_manifest_internal_def check_degraded_def run_iff)
qed

lemma fetched_manifest_authentic_witness: "answered_with server1 dl1 manifest1"
  using fetch1 fetched_manifest_authentic by blast

lemma fetch_traffic_bounded_witness:
  "length (filter is_http (w_trace (snd (fetch_and_verify_manifest server1 dl1 kc1 (world_of []))))) \<le> 5"
  using fetch_traffic_bounded [OF quiet_kc1, of server1 dl1 "world_of []"] by (auto simp: world_of_def dl1_def uc1_def)

lemma failed_fetch_degrades_witness:
  "fst (fetch_and_verify_manifest env0 dl1 kc1 (snd (fetch_and_verify_manifest env0 dl1 kc1 (world_of [])))) = Inl Degraded"
proof -
  obtain r w' where run: "fetch_and_verify_manifest env0 dl1 kc1 (world_of []) = (r, w')" by fastforce
  have "\<exists>e. r = Inl e"
  proof (cases r)
    case (Inr m)
    with fetch_success run have "answered_with env0 dl1 m" by blast
    then show ?thesis by (simp add: answered_with_def)
  qed simp
  then obtain e where e: "r = Inl e" ..
  have "4 \<le> uc_max_retries (dl_update_config dl1)" by (simp add: dl1_def uc1_def)
  from failed_fetch_degrades [OF quiet_kc1 this _ run [unfolded e]] run show ?thesis by simp
qed

end
