(* ===== verification/Transport.thy ===== *)
theory Transport
  imports Manifest_Facts
begin

text \<open>
  What the callbacks of the HTTP client guarantee (\<open>src/downloader.rs\<close>): which server certificates pass,
  and which hosts a request can reach through redirects.
\<close>

text \<open>C39. A server certificate passes exactly when its public key info can be read and its digest is the pin
  or the library's chain validation accepts it; the callback writes to nothing but the audit log, and a
  TLS 1.2 signature never passes.\<close>

theorem server_cert_accepted_iff:
  "((\<exists>w'. verify_server_cert E cv cert chain name ocsp now w = (Inr (), w')) \<longleftrightarrow>
    (\<exists>spki. e_spki E cert = Inr spki \<and>
      (e_hex E (e_sha256 E spki) = cv_pinned_spki_sha256 cv \<or> ca_chain E cert chain name ocsp now = Inr ()))) \<and>
   fs_only {al_file (cv_audit cv)} w (snd (verify_server_cert E cv cert chain name ocsp now w)) \<and>
   verify_tls12_signature m cert dss \<noteq> Inr ()"
proof -
  have "steps (fs_only {al_file (cv_audit cv)}) (verify_server_cert E cv cert chain name ocsp now)"
    unfolding verify_server_cert_def
    by (intro steps_case_sum steps_if steps_ret steps_fail steps_bindE steps_ignore steps_audit_log steps_lift_res preorder_fs_only)
  then show ?thesis
    by (cases "e_spki E cert")
      (auto simp: verify_server_cert_def spki_sha256_def bind_res_def run_iff verify_tls12_signature_def steps_def)
qed

text \<open>A pinned key is accepted whatever the chain, the name and the time are.\<close>

lemma pin_overrides_chain:
  "e_spki E cert = Inr spki \<Longrightarrow> e_hex E (e_sha256 E spki) = cv_pinned_spki_sha256 cv \<Longrightarrow>
   verify_server_cert E cv cert chain name ocsp now w = (Inr (), w)"
  by (simp add: verify_server_cert_def spki_sha256_def bind_res_def ret_def)

text \<open>C40. A request goes over verified connections to one host: whatever the servers answer, each hop it takes
  has the host of its address, and on a hop over TLS every handshake passed the pin or the chain
  validation and was TLS 1.3. If the request is answered, the hops are exactly that of the address
  and the redirects up to the first that leaves the host; a redirect to plain HTTP on the same host is followed.\<close>

theorem request_hops_verified:
  assumes "client_send E dl r w = (res, w')"
  shows "\<exists>hops. w_trace w' = w_trace w @ EvHttp r # map EvHop hops \<and>
    (\<forall>h \<in> set hops. (\<exists>https. e_url E (rq_url r) = Inr (https, hop_host h)) \<and> hop_verified E (client_verifier dl) h) \<and>
    (\<forall>resp. res = Inr resp \<longrightarrow> (\<exists>url. e_url E (rq_url r) = Inr url \<and> hops = hops_of E (w_tick w) r url))"
  by (rule client_send_events [OF assms])

text \<open>A pinned server that redirects to plain HTTP on its host, then to another host.\<close>

definition pinned_handshake :: tls_handshake where
  "pinned_handshake = \<lparr>hs_end_entity = ''spki'', hs_intermediates = [], hs_server_name = ''other'', hs_ocsp_response = [],
     hs_now = 0, hs_tls13 = True, hs_message = [], hs_dss = []\<rparr>"

definition redirecting_env :: env where
  "redirecting_env = env0\<lparr>e_handshakes := \<lambda>t r. [pinned_handshake],
     e_redirects := \<lambda>t r. [\<lparr>hop_https = False, hop_host = Some ''api.github.com'', hop_handshakes = []\<rparr>,
       \<lparr>hop_https = True, hop_host = Some ''evil.example'', hop_handshakes = []\<rparr>],
     e_http := \<lambda>t r. Inr \<lparr>rs_status = 302, rs_retry_after = None, rs_chunks = []\<rparr>\<rparr>"

lemma request_hops_verified_witness:
  "\<exists>r. EvHop \<lparr>hop_https = False, hop_host = Some ''api.github.com'', hop_handshakes = []\<rparr> \<in>
     set (w_trace (snd (client_send redirecting_env dl1 r (world_of []))))"
proof -
  let ?r = "\<lparr>rq_method = ''GET'', rq_url = ''https://api.github.com/'', rq_headers = []\<rparr> :: http_request"
  obtain res w' where run: "client_send redirecting_env dl1 ?r (world_of []) = (res, w')" by fastforce
  have "\<exists>resp. res = Inr resp"
    using run by (auto simp: client_send_def http_begin_def bindE_def lift_res_def Let_def map_err_def send_hop_def first_hop_def ret_def
      http_hop_def http_answer_def redirecting_env_def tls_accept_def verify_server_cert_def spki_sha256_def bind_res_def
      verify_tls13_signature_def pinned_handshake_def client_verifier_def dl1_def cc1_def redirect_policy_def world_of_def)
  with request_hops_verified [OF run] run show ?thesis
    by (intro exI [of _ ?r]) (auto simp: redirecting_env_def hops_of_def first_hop_def)
qed

end
