(* ===== verification/Config_File.thy ===== *)
theory Config_File
  imports Configuration Witness_Env
begin

text \<open>
  Loading the configuration (\<open>load_config\<close> of \<open>src/config.rs\<close>): the file is read as text, the YAML library
  makes a tree of it and says how a scalar reads as a string, a number or a boolean, and the derived
  deserialisation takes the tree apart: every section is a mapping with exactly the declared keys.
\<close>

section \<open>Derived deserialisation\<close>

text \<open>\<open>deny_unknown_fields\<close>: no unknown key and none twice. That none is missing is decided by the reads.\<close>

definition yaml_struct :: "string list \<Rightarrow> yaml \<Rightarrow> (string \<times> yaml) list option" where
  "yaml_struct names v = (case v of
     YMap m \<Rightarrow> if distinct (map fst m) \<and> set (map fst m) \<subseteq> set names then Some m else None
   | _ \<Rightarrow> None)"

fun yaml_scalar :: "(string \<Rightarrow> bool \<Rightarrow> 'a option) \<Rightarrow> yaml \<Rightarrow> 'a option" where
  "yaml_scalar rd (YScalar t plain) = rd t plain"
| "yaml_scalar rd _ = None"

definition y_string :: "env \<Rightarrow> (string \<times> yaml) list \<Rightarrow> string \<Rightarrow> string option" where
  "y_string E m k = Option.bind (map_of m k) (yaml_scalar (e_yaml_string E))"

definition y_u64 :: "env \<Rightarrow> (string \<times> yaml) list \<Rightarrow> string \<Rightarrow> u64 option" where
  "y_u64 E m k = Option.bind (map_of m k) (yaml_scalar (e_yaml_u64 E))"

definition y_u32 :: "env \<Rightarrow> (string \<times> yaml) list \<Rightarrow> string \<Rightarrow> u32 option" where
  "y_u32 E m k = Option.bind (y_u64 E m k) (\<lambda>n. if unat n < 2 ^ 32 then Some (ucast n) else None)"

definition y_bool :: "env \<Rightarrow> (string \<times> yaml) list \<Rightarrow> string \<Rightarrow> bool option" where
  "y_bool E m k = Option.bind (map_of m k) (yaml_scalar (e_yaml_bool E))"

definition y_strings :: "env \<Rightarrow> (string \<times> yaml) list \<Rightarrow> string \<Rightarrow> string list option" where
  "y_strings E m k = Option.bind (map_of m k) (\<lambda>v. case v of
     YSeq vs \<Rightarrow> all_some (map (yaml_scalar (e_yaml_string E)) vs) | _ \<Rightarrow> None)"

definition y_section :: "(string \<times> yaml) list \<Rightarrow> string \<Rightarrow> (yaml \<Rightarrow> 'a option) \<Rightarrow> 'a option" where
  "y_section m k decode = Option.bind (map_of m k) decode"

definition decode_source :: "env \<Rightarrow> yaml \<Rightarrow> source_config option" where
  "decode_source E v = Option.bind (yaml_struct [''provider'', ''owner'', ''repo'', ''branch'', ''manifest_path''] v) (\<lambda>m.
     case (y_string E m ''provider'', y_string E m ''owner'', y_string E m ''repo'', y_string E m ''branch'', y_string E m ''manifest_path'') of
       (Some p, Some w, Some r, Some b, Some mp) \<Rightarrow>
         Some \<lparr>sc_provider = p, sc_owner = w, sc_repo = r, sc_branch = b, sc_manifest_path = mp\<rparr>
     | _ \<Rightarrow> None)"

definition decode_auth :: "env \<Rightarrow> yaml \<Rightarrow> auth_config option" where
  "decode_auth E v = Option.bind (yaml_struct [''token_source'', ''env_var''] v) (\<lambda>m.
     case (y_string E m ''token_source'', y_string E m ''env_var'') of
       (Some t, Some e) \<Rightarrow> Some \<lparr>ac_token_source = t, ac_env_var = e\<rparr>
     | _ \<Rightarrow> None)"

definition decode_crypto :: "env \<Rightarrow> yaml \<Rightarrow> crypto_config option" where
  "decode_crypto E v = Option.bind (yaml_struct [''release_signing_pubkey'', ''github_api_cert_pin''] v) (\<lambda>m.
     case (y_string E m ''release_signing_pubkey'', y_string E m ''github_api_cert_pin'') of
       (Some k, Some p) \<Rightarrow> Some \<lparr>cc_release_signing_pubkey = k, cc_github_api_cert_pin = p\<rparr>
     | _ \<Rightarrow> None)"

definition decode_update :: "env \<Rightarrow> yaml \<Rightarrow> update_config option" where
  "decode_update E v = Option.bind (yaml_struct [''check_interval_seconds'', ''max_retries'', ''retry_backoff_base_seconds'',
       ''download_timeout_seconds'', ''max_payload_size_bytes'', ''staging_dir'', ''backup_dir''] v) (\<lambda>m.
     case (y_u64 E m ''check_interval_seconds'', y_u32 E m ''max_retries'', y_u64 E m ''retry_backoff_base_seconds'',
           y_u64 E m ''download_timeout_seconds'', y_u64 E m ''max_payload_size_bytes'', y_string E m ''staging_dir'', y_string E m ''backup_dir'') of
       (Some ci, Some mr, Some rb, Some dt, Some mp, Some sd, Some bd) \<Rightarrow>
         Some \<lparr>uc_check_interval_seconds = ci, uc_max_retries = mr, uc_retry_backoff_base_seconds = rb,
               uc_download_timeout_seconds = dt, uc_max_payload_size_bytes = mp, uc_staging_dir = sd, uc_backup_dir = bd\<rparr>
     | _ \<Rightarrow> None)"

definition decode_rollback :: "env \<Rightarrow> yaml \<Rightarrow> rollback_config option" where
  "decode_rollback E v = Option.bind (yaml_struct [''enabled'', ''health_check_timeout_seconds'', ''max_backup_versions''] v) (\<lambda>m.
     case (y_bool E m ''enabled'', y_u64 E m ''health_check_timeout_seconds'', y_u32 E m ''max_backup_versions'') of
       (Some e, Some t, Some n) \<Rightarrow> Some \<lparr>rc_enabled = e, rc_health_check_timeout_seconds = t, rc_max_backup_versions = n\<rparr>
     | _ \<Rightarrow> None)"

definition decode_reporting :: "env \<Rightarrow> yaml \<Rightarrow> reporting_config option" where
  "decode_reporting E v = Option.bind (yaml_struct [''enabled'', ''telegram_token_source'', ''telegram_token_env_var'',
       ''telegram_chat_id'', ''scrub_patterns''] v) (\<lambda>m.
     case (y_bool E m ''enabled'', y_string E m ''telegram_token_source'', y_string E m ''telegram_token_env_var'',
           y_string E m ''telegram_chat_id'', y_strings E m ''scrub_patterns'') of
       (Some e, Some s, Some v, Some c, Some ps) \<Rightarrow>
         Some \<lparr>rp_enabled = e, rp_telegram_token_source = s, rp_telegram_token_env_var = v, rp_telegram_chat_id = c, rp_scrub_patterns = ps\<rparr>
     | _ \<Rightarrow> None)"

definition decode_logging :: "env \<Rightarrow> yaml \<Rightarrow> logging_config option" where
  "decode_logging E v = Option.bind (yaml_struct [''level'', ''structured'', ''audit_log_path'', ''audit_hmac_enabled''] v) (\<lambda>m.
     case (y_string E m ''level'', y_bool E m ''structured'', y_string E m ''audit_log_path'', y_bool E m ''audit_hmac_enabled'') of
       (Some l, Some s, Some p, Some h) \<Rightarrow>
         Some \<lparr>lc_level = l, lc_structured = s, lc_audit_log_path = p, lc_audit_hmac_enabled = h\<rparr>
     | _ \<Rightarrow> None)"

definition decode_config :: "env \<Rightarrow> yaml \<Rightarrow> synqro_config option" where
  "decode_config E v = Option.bind (yaml_struct [''version'', ''installation_id'', ''source'', ''auth'', ''crypto'', ''update'',
       ''rollback'', ''reporting'', ''logging''] v) (\<lambda>m.
     case (y_string E m ''version'', y_string E m ''installation_id'', y_section m ''source'' (decode_source E),
           y_section m ''auth'' (decode_auth E), y_section m ''crypto'' (decode_crypto E), y_section m ''update'' (decode_update E),
           y_section m ''rollback'' (decode_rollback E), y_section m ''reporting'' (decode_reporting E), y_section m ''logging'' (decode_logging E)) of
       (Some v, Some i, Some sc, Some ac, Some cc, Some uc, Some rc, Some rp, Some lc) \<Rightarrow>
         Some \<lparr>cfg_version = v, cfg_installation_id = i, cfg_source = sc, cfg_auth = ac, cfg_crypto = cc, cfg_update = uc,
               cfg_rollback = rc, cfg_reporting = rp, cfg_logging = lc\<rparr>
     | _ \<Rightarrow> None)"

text \<open>The wrapper: one top-level key.\<close>

definition decode_config_file :: "env \<Rightarrow> yaml \<Rightarrow> synqro_config option" where
  "decode_config_file E v =
     Option.bind (yaml_struct [''axiomota''] v) (\<lambda>m. y_section m ''axiomota'' (decode_config E))"

section \<open>Loading\<close>

definition read_to_string :: "env \<Rightarrow> path \<Rightarrow> ('z, string) sio" where
  "read_to_string E p = bindE (fs_read E p) (\<lambda>raw.
     if valid_utf8 raw then ret raw else fail ''stream did not contain valid UTF-8'')"

definition load_config :: "env \<Rightarrow> path \<Rightarrow> ('z, synqro_config) eio" where
  "load_config E path =
     bindE (map_err Io (read_to_string E path)) (\<lambda>raw.
     bindE (lift_res (map_inl Yaml (e_yaml_parse E raw))) (\<lambda>doc.
     bindE (lift_res (ok_or (Yaml (e_yaml_shape_err E raw)) (decode_config_file E doc))) (\<lambda>cfg.
     bindE (lift_res (validate_config cfg)) (\<lambda>_.
     ret cfg))))"

section \<open>What is accepted\<close>

lemma fs_read_ok: "fs_read E p w = (Inr b, w') \<Longrightarrow> w_fs w' = w_fs w \<and> file_at w (resolve E p) = Some b"
  by (auto simp: fs_read_def Let_def sys_def file_at_def split: option.splits node.splits)

lemma load_config_Inr:
  "load_config E path w = (Inr cfg, w') \<Longrightarrow>
   \<exists>raw doc. file_at w (resolve E path) = Some raw \<and> valid_utf8 raw \<and> e_yaml_parse E raw = Inr doc \<and>
     decode_config_file E doc = Some cfg \<and> config_valid cfg \<and> w_fs w' = w_fs w"
  by (auto simp: load_config_def read_to_string_def run_iff validate_config_iff dest!: fs_read_ok split: if_splits)

text \<open>The configuration is accepted exactly when every constraint of the table holds; otherwise the error
  is a configuration error that names the first constraint violated, in the order of the table.\<close>

theorem validate_config_spec:
  "validate_config cfg = (if config_valid cfg then Inr () else
     case find (\<lambda>(key, ok, why). \<not> ok) (config_table cfg) of Some (key, ok, why) \<Rightarrow> Inl (Config (key @ why)))"
proof (cases "config_valid cfg")
  case True
  then show ?thesis by (simp add: validate_config_iff)
next
  case False
  then have "find (\<lambda>(key, ok, why). \<not> ok) (config_table cfg) \<noteq> None"
    by (auto simp: find_None_iff config_valid_def list_all_iff)
  with False show ?thesis by (auto simp: validate_config_table first_violation_def split: option.splits)
qed

text \<open>A mapping with exactly the given keys, each once, and the keys of the sections as the documentation of the
  format lists them.\<close>

definition declares :: "string list \<Rightarrow> yaml \<Rightarrow> bool" where
  "declares ks v \<longleftrightarrow> (\<exists>m. v = YMap m \<and> distinct (map fst m) \<and> set (map fst m) = set ks)"

definition section_keys :: "(string \<times> string list) list" where
  "section_keys =
     [(''source'', [''provider'', ''owner'', ''repo'', ''branch'', ''manifest_path'']),
      (''auth'', [''token_source'', ''env_var'']),
      (''crypto'', [''release_signing_pubkey'', ''github_api_cert_pin'']),
      (''update'', [''check_interval_seconds'', ''max_retries'', ''retry_backoff_base_seconds'', ''download_timeout_seconds'',
         ''max_payload_size_bytes'', ''staging_dir'', ''backup_dir'']),
      (''rollback'', [''enabled'', ''health_check_timeout_seconds'', ''max_backup_versions'']),
      (''reporting'', [''enabled'', ''telegram_token_source'', ''telegram_token_env_var'', ''telegram_chat_id'', ''scrub_patterns'']),
      (''logging'', [''level'', ''structured'', ''audit_log_path'', ''audit_hmac_enabled''])]"

text \<open>A derived reader that fails when one of its keys is missing accepts exactly these mappings.\<close>

lemma struct_declares:
  assumes "Option.bind (yaml_struct ks v) f = Some c" "\<And>m. list_ex (\<lambda>k. map_of m k = None) ks \<Longrightarrow> f m = None"
  shows "declares ks v"
proof -
  from assms(1) obtain m where m: "v = YMap m" "distinct (map fst m)" "set (map fst m) \<subseteq> set ks" "f m = Some c"
    by (auto simp: yaml_struct_def bind_eq_Some_conv split: yaml.splits if_splits)
  have "k \<in> set (map fst m)" if "k \<in> set ks" for k
  proof (rule ccontr)
    assume "k \<notin> set (map fst m)"
    then have "map_of m k = None" by (simp add: map_of_eq_None_iff)
    with that have "list_ex (\<lambda>k. map_of m k = None) ks" by (auto simp: list_ex_iff)
    with assms(2) m(4) show False by simp
  qed
  with m show ?thesis by (auto simp: declares_def)
qed

lemmas y_reads = y_string_def y_u64_def y_u32_def y_bool_def y_strings_def y_section_def

lemma decoded_sections:
  "decode_source E v = Some sc \<Longrightarrow> declares [''provider'', ''owner'', ''repo'', ''branch'', ''manifest_path''] v"
  "decode_auth E v = Some ac \<Longrightarrow> declares [''token_source'', ''env_var''] v"
  "decode_crypto E v = Some cc \<Longrightarrow> declares [''release_signing_pubkey'', ''github_api_cert_pin''] v"
  "decode_update E v = Some uc \<Longrightarrow> declares [''check_interval_seconds'', ''max_retries'', ''retry_backoff_base_seconds'',
     ''download_timeout_seconds'', ''max_payload_size_bytes'', ''staging_dir'', ''backup_dir''] v"
  "decode_rollback E v = Some rc \<Longrightarrow> declares [''enabled'', ''health_check_timeout_seconds'', ''max_backup_versions''] v"
  "decode_reporting E v = Some rp \<Longrightarrow> declares [''enabled'', ''telegram_token_source'', ''telegram_token_env_var'',
     ''telegram_chat_id'', ''scrub_patterns''] v"
  "decode_logging E v = Some lc \<Longrightarrow> declares [''level'', ''structured'', ''audit_log_path'', ''audit_hmac_enabled''] v"
  "decode_config E v = Some cfg \<Longrightarrow> declares [''version'', ''installation_id'', ''source'', ''auth'', ''crypto'', ''update'',
     ''rollback'', ''reporting'', ''logging''] v"
  "decode_config_file E v = Some cfg \<Longrightarrow> declares [''axiomota''] v"
  unfolding decode_source_def decode_auth_def decode_crypto_def decode_update_def decode_rollback_def decode_reporting_def
    decode_logging_def decode_config_def decode_config_file_def
  by (erule struct_declares; auto simp: y_reads split: option.splits)+

lemma config_sections:
  assumes "decode_config E (YMap m) = Some cfg"
  shows "\<forall>(k, ks) \<in> set section_keys. \<exists>v. map_of m k = Some v \<and> declares ks v"
proof -
  from assms have
    "y_section m ''source'' (decode_source E) = Some (cfg_source cfg)" "y_section m ''auth'' (decode_auth E) = Some (cfg_auth cfg)"
    "y_section m ''crypto'' (decode_crypto E) = Some (cfg_crypto cfg)" "y_section m ''update'' (decode_update E) = Some (cfg_update cfg)"
    "y_section m ''rollback'' (decode_rollback E) = Some (cfg_rollback cfg)" "y_section m ''reporting'' (decode_reporting E) = Some (cfg_reporting cfg)"
    "y_section m ''logging'' (decode_logging E) = Some (cfg_logging cfg)"
    by (auto simp: decode_config_def yaml_struct_def split: option.split_asm if_split_asm)
  then show ?thesis
    by (auto simp: y_section_def bind_eq_Some_conv section_keys_def dest: decoded_sections)
qed

text \<open>C38. A configuration that is loaded was read from a file of valid UTF-8 whose document is a mapping with the one
  key \<open>axiomota\<close>, under it a mapping with exactly the declared keys, each once, and under each of its seven
  section keys a mapping with exactly the declared keys of that section, each once; the configuration
  satisfies every constraint, and loading changes no file.\<close>

theorem loaded_config_valid:
  assumes "load_config E path w = (Inr cfg, w')"
  shows "config_valid cfg \<and> w_fs w' = w_fs w \<and>
    (\<exists>raw m. file_at w (resolve E path) = Some raw \<and> valid_utf8 raw \<and> e_yaml_parse E raw = Inr (YMap [(''axiomota'', YMap m)]) \<and>
      distinct (map fst m) \<and> set (map fst m) = {''version'', ''installation_id'', ''source'', ''auth'', ''crypto'', ''update'', ''rollback'', ''reporting'', ''logging''} \<and>
      (\<forall>(k, ks) \<in> set section_keys. \<exists>v. map_of m k = Some v \<and> declares ks v) \<and>
      decode_config E (YMap m) = Some cfg)"
proof -
  from load_config_Inr [OF assms] obtain raw doc where raw: "file_at w (resolve E path) = Some raw" "valid_utf8 raw"
    "e_yaml_parse E raw = Inr doc" and dec: "decode_config_file E doc = Some cfg" and ok: "config_valid cfg" "w_fs w' = w_fs w" by blast
  from decoded_sections(9) [OF dec] obtain t where doc: "doc = YMap t" "distinct (map fst t)" "set (map fst t) = {''axiomota''}"
    by (auto simp: declares_def)
  then obtain v where t: "t = [(''axiomota'', v)]"
    by (cases t; cases "tl t") (auto simp: insert_eq_iff)
  with dec doc(1) have cfg: "decode_config E v = Some cfg"
    by (auto simp: decode_config_file_def yaml_struct_def y_section_def)
  from decoded_sections(8) [OF this] obtain m where "v = YMap m" "distinct (map fst m)"
    "set (map fst m) = {''version'', ''installation_id'', ''source'', ''auth'', ''crypto'', ''update'', ''rollback'', ''reporting'', ''logging''}"
    by (auto simp: declares_def)
  with raw doc(1) t cfg ok config_sections [of E m cfg] show ?thesis by blast
qed

section \<open>Witness\<close>

definition plain1 :: "string \<Rightarrow> yaml" where "plain1 t = YScalar t True"
definition quoted1 :: "string \<Rightarrow> yaml" where "quoted1 t = YScalar t False"

definition doc1 :: yaml where
  "doc1 = YMap [(''axiomota'', YMap
     [(''version'', quoted1 ''1.0''), (''installation_id'', quoted1 ''id''),
      (''source'', YMap [(''provider'', quoted1 ''github''), (''owner'', plain1 ''acme''), (''repo'', plain1 ''fleet''),
         (''branch'', plain1 ''main''), (''manifest_path'', plain1 ''m.json'')]),
      (''auth'', YMap [(''token_source'', plain1 ''env''), (''env_var'', plain1 ''TOKEN'')]),
      (''crypto'', YMap [(''release_signing_pubkey'', quoted1 (replicate 32 (CHR ''A''))), (''github_api_cert_pin'', quoted1 ''pin'')]),
      (''update'', YMap [(''check_interval_seconds'', plain1 ''3600''), (''max_retries'', plain1 ''4''), (''retry_backoff_base_seconds'', plain1 ''2''),
         (''download_timeout_seconds'', plain1 ''30''), (''max_payload_size_bytes'', plain1 ''1000''), (''staging_dir'', plain1 ''/stage''), (''backup_dir'', plain1 ''/bk'')]),
      (''rollback'', YMap [(''enabled'', plain1 ''true''), (''health_check_timeout_seconds'', plain1 ''30''), (''max_backup_versions'', plain1 ''3'')]),
      (''reporting'', YMap [(''enabled'', plain1 ''false''), (''telegram_token_source'', plain1 ''env''), (''telegram_token_env_var'', plain1 ''TG''),
         (''telegram_chat_id'', quoted1 []), (''scrub_patterns'', YSeq [])]),
      (''logging'', YMap [(''level'', plain1 ''info''), (''structured'', plain1 ''true''), (''audit_log_path'', plain1 ''/audit''), (''audit_hmac_enabled'', plain1 ''true'')])])]"

definition config1 :: synqro_config where
  "config1 = \<lparr>cfg_version = ''1.0'', cfg_installation_id = ''id'',
     cfg_source = \<lparr>sc_provider = ''github'', sc_owner = ''acme'', sc_repo = ''fleet'', sc_branch = ''main'', sc_manifest_path = ''m.json''\<rparr>,
     cfg_auth = \<lparr>ac_token_source = ''env'', ac_env_var = ''TOKEN''\<rparr>,
     cfg_crypto = \<lparr>cc_release_signing_pubkey = replicate 32 (CHR ''A''), cc_github_api_cert_pin = ''pin''\<rparr>,
     cfg_update = \<lparr>uc_check_interval_seconds = 3600, uc_max_retries = 4, uc_retry_backoff_base_seconds = 2,
       uc_download_timeout_seconds = 30, uc_max_payload_size_bytes = 1000, uc_staging_dir = ''/stage'', uc_backup_dir = ''/bk''\<rparr>,
     cfg_rollback = \<lparr>rc_enabled = True, rc_health_check_timeout_seconds = 30, rc_max_backup_versions = 3\<rparr>,
     cfg_reporting = \<lparr>rp_enabled = False, rp_telegram_token_source = ''env'', rp_telegram_token_env_var = ''TG'', rp_telegram_chat_id = [], rp_scrub_patterns = []\<rparr>,
     cfg_logging = \<lparr>lc_level = ''info'', lc_structured = True, lc_audit_log_path = ''/audit'', lc_audit_hmac_enabled = True\<rparr>\<rparr>"

definition yaml_env1 :: env where
  "yaml_env1 = env0\<lparr>e_yaml_parse := \<lambda>s. Inr doc1\<rparr>"

definition conf_world1 :: world where
  "conf_world1 = world_of [([''conf''], File ''axiomota: ...'' 0x1A4)]"

lemma config1_valid: "validate_config config1 = Inr ()"
  by code_simp

lemma u64_1: "parse_u64 ''3600'' = Some 3600" "parse_u64 ''4'' = Some 4" "parse_u64 ''2'' = Some 2" "parse_u64 ''30'' = Some 30"
    "parse_u64 ''1000'' = Some 1000" "parse_u64 ''3'' = Some 3"
  by (simp_all add: parse_u64_def is_digit_def byte_val_def digits_val_def)

lemma decode_doc:
  assumes "e_yaml_string E = e_yaml_string env0" "e_yaml_u64 E = e_yaml_u64 env0" "e_yaml_bool E = e_yaml_bool env0"
  shows "decode_config_file E doc1 = Some config1"
  by (simp add: assms doc1_def decode_config_file_def yaml_struct_def y_section_def decode_config_def y_string_def decode_source_def decode_auth_def
      decode_crypto_def decode_update_def decode_rollback_def decode_reporting_def decode_logging_def y_u64_def y_u32_def y_bool_def y_strings_def
      plain1_def quoted1_def u64_1 config1_def)

lemma decode_doc1: "decode_config_file yaml_env1 doc1 = Some config1"
  by (rule decode_doc) (simp_all add: yaml_env1_def)

lemma load1: "\<exists>w'. load_config yaml_env1 [RootDir, Normal ''conf''] conf_world1 = (Inr config1, w')"
proof -
  have "valid_utf8 ''axiomota: ...''" by (simp add: valid_utf8.simps seq_len_def byte_val_def)
  then have "\<exists>w'. read_to_string yaml_env1 [RootDir, Normal ''conf''] conf_world1 = (Inr ''axiomota: ...'', w')"
    by (simp add: read_to_string_def run_iff fs_read_def resolve_def sys_def yaml_env1_def conf_world1_def world_of_def)
  then show ?thesis
    using decode_doc1 config1_valid by (auto simp: load_config_def run_iff yaml_env1_def)
qed

lemma loaded_config_valid_witness: "config_valid config1"
  using load1 loaded_config_valid by blast

end
