(* ===== verification/Keychain_Linux.thy ===== *)
theory Keychain_Linux
  imports Keychain Witness_Env
begin

text \<open>
  The Linux backend of \<open>src/keychain/linux.rs\<close>: \<open>secret-tool\<close>, or the kernel keyring through \<open>keyctl\<close>,
  each run as a child process with a timeout. The documented behaviour of the two programs is stated
  as \<open>secret_tool_works\<close> and \<open>keyctl_works\<close>, over the content \<open>view\<close> of the store they keep.
\<close>

datatype linux_backend = SecretTool | Keyctl

section \<open>Child processes\<close>

text \<open>Spawning, feeding the standard input where it is piped, and waiting for at most ten seconds.\<close>

fun proc_output :: "proc_result \<Rightarrow> synqro_error + (int option \<times> bytes)" where
  "proc_output (SpawnFailed e) = Inl (Permission e)"
| "proc_output NoStdin = Inl (Internal ''stdin not available'')"
| "proc_output (StdinFailed e) = Inl (Keychain ''stdin write failed'')"
| "proc_output (WaitFailed e) = Inl (Io e)"
| "proc_output TimedOut = Inl (Keychain ''subprocess timed out after 10 seconds'')"
| "proc_output (Exited c out) = Inr (c, out)"

definition run_with_timeout :: "'k runner \<Rightarrow> command \<Rightarrow> ('k, synqro_error, int option \<times> bytes) io" where
  "run_with_timeout run c = (\<lambda>k. case run c k of (r, k') \<Rightarrow> (proc_output r, k'))"

definition argv :: "string \<Rightarrow> string list \<Rightarrow> command" where
  "argv program args = \<lparr>cmd_program = program, cmd_args = args, cmd_stdin = None\<rparr>"

definition argv_piped :: "string \<Rightarrow> string list \<Rightarrow> bytes \<Rightarrow> command" where
  "argv_piped program args input = \<lparr>cmd_program = program, cmd_args = args, cmd_stdin = Some input\<rparr>"

text \<open>The probe has no timeout: it succeeds when the spawn and the wait do.\<close>

definition binary_available :: "'k runner \<Rightarrow> string \<Rightarrow> 'k \<Rightarrow> bool \<times> 'k" where
  "binary_available run binary k = (case run (argv binary [''--version'']) k of (r, k') \<Rightarrow>
     (case r of SpawnFailed e \<Rightarrow> False | WaitFailed e \<Rightarrow> False | _ \<Rightarrow> True, k'))"

definition linux_new :: "'k runner \<Rightarrow> ('k, synqro_error, linux_backend) io" where
  "linux_new run = (\<lambda>k. case binary_available run ''secret-tool'' k of (st, k1) \<Rightarrow>
     if st then (Inr SecretTool, k1)
     else case binary_available run ''keyctl'' k1 of (kc, k2) \<Rightarrow>
       if kc then (Inr Keyctl, k2)
       else (Inl (Permission ''neither secret-tool nor keyctl found''), k2))"

section \<open>secret-tool\<close>

definition st_lookup :: "string \<Rightarrow> string \<Rightarrow> command" where
  "st_lookup service account = argv ''secret-tool'' [''lookup'', ''service'', service, ''account'', account]"

definition st_store :: "string \<Rightarrow> string \<Rightarrow> bytes \<Rightarrow> command" where
  "st_store service account secret = argv_piped ''secret-tool''
     [''store'', ''--label'', ''Synqro Token'', ''service'', service, ''account'', account] secret"

definition st_clear :: "string \<Rightarrow> string \<Rightarrow> command" where
  "st_clear service account = argv ''secret-tool'' [''clear'', ''service'', service, ''account'', account]"

definition secret_tool_lookup :: "'k runner \<Rightarrow> string \<Rightarrow> string \<Rightarrow> ('k, synqro_error, bytes) io" where
  "secret_tool_lookup run service account =
     bindE (run_with_timeout run (st_lookup service account)) (\<lambda>output.
     if \<not> succeeded output then fail (Keychain ''secret-tool lookup: entry not found or keyring locked'')
     else ret (pop_newline (snd output)))"

definition secret_tool_store :: "'k runner \<Rightarrow> string \<Rightarrow> string \<Rightarrow> bytes \<Rightarrow> ('k, synqro_error, unit) io" where
  "secret_tool_store run service account secret =
     bindE (run_with_timeout run (st_store service account secret)) (\<lambda>output.
     if \<not> succeeded output then fail (Keychain ''secret-tool store: operation failed'') else ret ())"

definition secret_tool_clear :: "'k runner \<Rightarrow> string \<Rightarrow> string \<Rightarrow> ('k, synqro_error, unit) io" where
  "secret_tool_clear run service account =
     bindE (run_with_timeout run (st_clear service account)) (\<lambda>output.
     if \<not> succeeded output then fail (Keychain ''secret-tool clear: operation failed'') else ret ())"

section \<open>keyctl\<close>

definition keyctl_key_desc :: "string \<Rightarrow> string \<Rightarrow> string" where
  "keyctl_key_desc service account = ''synqro/'' @ service @ ''/'' @ account"

definition kc_search :: "string \<Rightarrow> command" where
  "kc_search desc = argv ''keyctl'' [''search'', ''@u'', ''user'', desc]"

definition key_id :: "int option \<times> bytes \<Rightarrow> string" where
  "key_id output = trim (from_utf8_lossy (snd output))"

definition keyctl_read :: "'k runner \<Rightarrow> string \<Rightarrow> string \<Rightarrow> ('k, synqro_error, bytes) io" where
  "keyctl_read run service account =
     (let desc = keyctl_key_desc service account in
     bindE (run_with_timeout run (kc_search desc)) (\<lambda>id_output.
     if \<not> succeeded id_output then fail (Keychain (''keyctl search: key '' @ [CHR 0x27] @ desc @ [CHR 0x27] @ '' not found in @u keyring''))
     else
     bindE (run_with_timeout run (argv ''keyctl'' [''pipe'', key_id id_output])) (\<lambda>pipe_output.
     if \<not> succeeded pipe_output then fail (Keychain ''keyctl pipe: failed to read key payload'')
     else ret (snd pipe_output))))"

definition keyctl_store :: "'k runner \<Rightarrow> string \<Rightarrow> string \<Rightarrow> bytes \<Rightarrow> ('k, synqro_error, unit) io" where
  "keyctl_store run service account secret =
     (let desc = keyctl_key_desc service account in
     bindE (run_with_timeout run (argv_piped ''keyctl'' [''padd'', ''user'', desc, ''@u''] secret)) (\<lambda>output.
     if \<not> succeeded output then fail (Keychain ''keyctl padd: store operation failed'') else ret ()))"

definition keyctl_unlink :: "'k runner \<Rightarrow> string \<Rightarrow> string \<Rightarrow> ('k, synqro_error, unit) io" where
  "keyctl_unlink run service account =
     (let desc = keyctl_key_desc service account in
     bindE (run_with_timeout run (kc_search desc)) (\<lambda>id_output.
     if \<not> succeeded id_output then ret ()
     else
     bindE (run_with_timeout run (argv ''keyctl'' [''unlink'', key_id id_output, ''@u''])) (\<lambda>unlink_output.
     if \<not> succeeded unlink_output then fail (Keychain ''keyctl unlink: delete operation failed'') else ret ())))"

section \<open>The provider\<close>

fun linux_load :: "'k runner \<Rightarrow> linux_backend \<Rightarrow> string \<Rightarrow> string \<Rightarrow> ('k, synqro_error, bytes) io" where
  "linux_load run SecretTool s a = secret_tool_lookup run s a"
| "linux_load run Keyctl s a = keyctl_read run s a"

fun linux_store :: "'k runner \<Rightarrow> linux_backend \<Rightarrow> string \<Rightarrow> string \<Rightarrow> bytes \<Rightarrow> ('k, synqro_error, unit) io" where
  "linux_store run SecretTool s a x = secret_tool_store run s a x"
| "linux_store run Keyctl s a x = keyctl_store run s a x"

fun linux_delete :: "'k runner \<Rightarrow> linux_backend \<Rightarrow> string \<Rightarrow> string \<Rightarrow> ('k, synqro_error, unit) io" where
  "linux_delete run SecretTool s a = secret_tool_clear run s a"
| "linux_delete run Keyctl s a = keyctl_unlink run s a"

definition linux_keychain :: "'k runner \<Rightarrow> linux_backend \<Rightarrow> 'k keychain" where
  "linux_keychain run b = \<lparr>kc_load = linux_load run b, kc_store = linux_store run b, kc_delete = linux_delete run b\<rparr>"

section \<open>The documented behaviour of the programs\<close>

text \<open>\<open>secret-tool\<close> keeps one secret per service and account; it prints a secret with or without a
  newline after it.\<close>

definition secret_tool_works :: "'k runner \<Rightarrow> ('k \<Rightarrow> string \<times> string \<Rightarrow> bytes option) \<Rightarrow> bool" where
  "secret_tool_works run view \<longleftrightarrow>
     (\<forall>k s a x. view k (s, a) = Some x \<longrightarrow>
        (\<exists>out k'. run (st_lookup s a) k = (Exited (Some 0) out, k') \<and> view k' = view k \<and>
           (out = x @ [CHR 0x0A] \<or> out = x \<and> (x = [] \<or> last x \<noteq> CHR 0x0A)))) \<and>
     (\<forall>k s a. view k (s, a) = None \<longrightarrow>
        (\<exists>out k'. run (st_lookup s a) k = (Exited (Some 1) out, k') \<and> view k' = view k)) \<and>
     (\<forall>k s a x. \<exists>out k'. run (st_store s a x) k = (Exited (Some 0) out, k') \<and> view k' = (view k)((s, a) \<mapsto> x)) \<and>
     (\<forall>k s a. \<exists>out k'. run (st_clear s a) k = (Exited (Some 0) out, k') \<and> view k' = (view k)((s, a) := None))"

text \<open>\<open>keyctl\<close> keeps one payload per description; \<open>search\<close> prints the number of a key, by which
  \<open>pipe\<close> and \<open>unlink\<close> name it. The kernel takes payloads of 1 to 32767 bytes under descriptions of at most 4095
  bytes; nothing is said of others. As long as this holds, the quota of the user is not used up.\<close>

definition keyctl_fits :: "string \<Rightarrow> string \<Rightarrow> bytes \<Rightarrow> bool" where
  "keyctl_fits s a x \<longleftrightarrow> 1 \<le> length x \<and> length x \<le> 32767 \<and> length (keyctl_key_desc s a) \<le> 4095"

definition keyctl_works :: "'k runner \<Rightarrow> ('k \<Rightarrow> string \<Rightarrow> bytes option) \<Rightarrow> bool" where
  "keyctl_works run view \<longleftrightarrow>
     (\<forall>k d x. view k d = Some x \<longrightarrow>
        (\<exists>out k1. run (kc_search d) k = (Exited (Some 0) out, k1) \<and> view k1 = view k \<and>
           (\<exists>k2. run (argv ''keyctl'' [''pipe'', trim (from_utf8_lossy out)]) k1 = (Exited (Some 0) x, k2) \<and> view k2 = view k) \<and>
           (\<exists>o2 k2. run (argv ''keyctl'' [''unlink'', trim (from_utf8_lossy out), ''@u'']) k1 = (Exited (Some 0) o2, k2) \<and>
              view k2 = (view k)(d := None)))) \<and>
     (\<forall>k d. view k d = None \<longrightarrow>
        (\<exists>out k'. run (kc_search d) k = (Exited (Some 1) out, k') \<and> view k' = view k)) \<and>
     (\<forall>k d x. 1 \<le> length x \<and> length x \<le> 32767 \<and> length d \<le> 4095 \<longrightarrow>
        (\<exists>out k'. run (argv_piped ''keyctl'' [''padd'', ''user'', d, ''@u''] x) k = (Exited (Some 0) out, k') \<and>
           view k' = (view k)(d \<mapsto> x)))"

text \<open>The errors of this backend: besides the documented \<open>Keychain\<close> and \<open>Permission\<close> also \<open>Io\<close>, when
  waiting for a child fails, and \<open>Internal\<close>.\<close>

fun linux_err :: "synqro_error \<Rightarrow> bool" where
  "linux_err (Keychain m) = True"
| "linux_err (Permission m) = True"
| "linux_err (Io m) = True"
| "linux_err (Internal m) = (m = ''stdin not available'')"
| "linux_err _ = False"

lemma proc_output_err: "proc_output r = Inl e \<Longrightarrow> linux_err e"
  by (cases r) auto

lemma run_wt_wp [wp_simps]:
  "wp (run_with_timeout run c) Q R k = (case run c k of (r, k') \<Rightarrow>
     (case proc_output r of Inl e \<Rightarrow> R e k' | Inr x \<Rightarrow> Q x k'))"
  by (simp add: wp_def run_with_timeout_def split: prod.splits sum.splits)

lemma only_err_run: "only_err linux_err (run_with_timeout run c)"
  by (auto simp: only_err_def run_wt_wp proc_output_err split: prod.splits sum.splits)

lemmas only_err_intros = only_err_bind only_err_ret only_err_fail only_err_if only_err_run

lemma linux_errs:
  "only_err linux_err (linux_load run b s a)" "only_err linux_err (linux_store run b s a x)"
  "only_err linux_err (linux_delete run b s a)"
  by (cases b; auto simp: secret_tool_lookup_def keyctl_read_def secret_tool_store_def keyctl_store_def
        secret_tool_clear_def keyctl_unlink_def Let_def intro!: only_err_intros)+

interpretation secret_tool: keychain_provider
  "linux_load run SecretTool" "linux_store run SecretTool" "linux_delete run SecretTool"
  "secret_tool_works run view" view Pair "\<lambda>_ _ _. True" linux_err
  for run :: "'k runner" and view
proof unfold_locales
  fix k s a x
  assume up: "secret_tool_works run view" and "view k (s, a) = Some x"
  then obtain out k' where r: "run (st_lookup s a) k = (Exited (Some 0) out, k')" "view k' = view k"
      "out = x @ [CHR 0x0A] \<or> out = x \<and> (x = [] \<or> last x \<noteq> CHR 0x0A)"
    unfolding secret_tool_works_def by blast
  then have "pop_newline out = x" by (auto simp: pop_newline_id)
  with r show "\<exists>k'. linux_load run SecretTool s a k = (Inr x, k') \<and> view k' = view k"
    by (simp add: secret_tool_lookup_def run_with_timeout_def bindE_def succeeded_def ret_def)
next
  fix k s a
  assume "secret_tool_works run view" "view k (s, a) = None"
  then obtain out k' where "run (st_lookup s a) k = (Exited (Some 1) out, k')" "view k' = view k"
    unfolding secret_tool_works_def by blast
  then show "\<exists>m k'. linux_load run SecretTool s a k = (Inl (Keychain m), k') \<and> view k' = view k"
    by (simp add: secret_tool_lookup_def run_with_timeout_def bindE_def succeeded_def fail_def)
next
  fix x s a k
  assume "secret_tool_works run view"
  then obtain out k' where "run (st_store s a x) k = (Exited (Some 0) out, k')" "view k' = (view k)((s, a) \<mapsto> x)"
    unfolding secret_tool_works_def by blast
  then show "\<exists>k'. linux_store run SecretTool s a x k = (Inr (), k') \<and> view k' = (view k)((s, a) \<mapsto> x)"
    by (simp add: secret_tool_store_def run_with_timeout_def bindE_def succeeded_def ret_def)
next
  fix s a k
  assume "secret_tool_works run view"
  then obtain out k' where "run (st_clear s a) k = (Exited (Some 0) out, k')" "view k' = (view k)((s, a) := None)"
    unfolding secret_tool_works_def by blast
  then show "\<exists>k'. linux_delete run SecretTool s a k = (Inr (), k') \<and> view k' = (view k)((s, a) := None)"
    by (simp add: secret_tool_clear_def run_with_timeout_def bindE_def succeeded_def ret_def)
qed (blast dest: only_errD [OF linux_errs(1)] only_errD [OF linux_errs(2)] only_errD [OF linux_errs(3)])+

interpretation keyctl: keychain_provider
  "linux_load run Keyctl" "linux_store run Keyctl" "linux_delete run Keyctl"
  "keyctl_works run view" view keyctl_key_desc keyctl_fits linux_err
  for run :: "'k runner" and view
proof unfold_locales
  fix k s a x
  assume "keyctl_works run view" "view k (keyctl_key_desc s a) = Some x"
  then obtain out k1 k2 where "run (kc_search (keyctl_key_desc s a)) k = (Exited (Some 0) out, k1)"
      "run (argv ''keyctl'' [''pipe'', trim (from_utf8_lossy out)]) k1 = (Exited (Some 0) x, k2)" "view k2 = view k"
    unfolding keyctl_works_def by meson
  then show "\<exists>k'. linux_load run Keyctl s a k = (Inr x, k') \<and> view k' = view k"
    by (simp add: keyctl_read_def run_with_timeout_def bindE_def succeeded_def ret_def Let_def key_id_def)
next
  fix k s a
  assume "keyctl_works run view" "view k (keyctl_key_desc s a) = None"
  then obtain out k' where "run (kc_search (keyctl_key_desc s a)) k = (Exited (Some 1) out, k')" "view k' = view k"
    unfolding keyctl_works_def by blast
  then show "\<exists>m k'. linux_load run Keyctl s a k = (Inl (Keychain m), k') \<and> view k' = view k"
    by (simp add: keyctl_read_def run_with_timeout_def bindE_def succeeded_def fail_def Let_def)
next
  fix s a x k
  assume "keyctl_works run view" "keyctl_fits s a x"
  then obtain out k' where "run (argv_piped ''keyctl'' [''padd'', ''user'', keyctl_key_desc s a, ''@u''] x) k = (Exited (Some 0) out, k')"
      "view k' = (view k)(keyctl_key_desc s a \<mapsto> x)"
    unfolding keyctl_works_def keyctl_fits_def by blast
  then show "\<exists>k'. linux_store run Keyctl s a x k = (Inr (), k') \<and> view k' = (view k)(keyctl_key_desc s a \<mapsto> x)"
    by (simp add: keyctl_store_def run_with_timeout_def bindE_def succeeded_def ret_def Let_def)
next
  fix s a k
  assume up: "keyctl_works run view"
  show "\<exists>k'. linux_delete run Keyctl s a k = (Inr (), k') \<and> view k' = (view k)(keyctl_key_desc s a := None)"
  proof (cases "view k (keyctl_key_desc s a)")
    case None
    with up obtain out k' where "run (kc_search (keyctl_key_desc s a)) k = (Exited (Some 1) out, k')" "view k' = view k"
      unfolding keyctl_works_def by blast
    with None show ?thesis
      by (auto simp: keyctl_unlink_def run_with_timeout_def bindE_def succeeded_def ret_def Let_def)
  next
    case (Some x)
    with up obtain out k1 o2 k2 where "run (kc_search (keyctl_key_desc s a)) k = (Exited (Some 0) out, k1)"
      "run (argv ''keyctl'' [''unlink'', trim (from_utf8_lossy out), ''@u'']) k1 = (Exited (Some 0) o2, k2)"
      "view k2 = (view k)(keyctl_key_desc s a := None)"
      unfolding keyctl_works_def by meson
    then show ?thesis
      by (simp add: keyctl_unlink_def run_with_timeout_def bindE_def succeeded_def ret_def Let_def key_id_def)
  qed
qed (blast dest: only_errD [OF linux_errs(1)] only_errD [OF linux_errs(2)] only_errD [OF linux_errs(3)])+

section \<open>Key descriptions\<close>

lemma slash_split:
  "c \<notin> set s \<Longrightarrow> c \<notin> set s' \<Longrightarrow> s @ c # a = s' @ c # a' \<longleftrightarrow> s = s' \<and> a = a'"
proof (induction s arbitrary: s')
  case Nil
  then show ?case by (cases s') auto
next
  case (Cons x s)
  then show ?case by (cases s') auto
qed

lemma keyctl_key_desc_inj:
  "CHR ''/'' \<notin> set s \<Longrightarrow> CHR ''/'' \<notin> set s' \<Longrightarrow> keyctl_key_desc s a = keyctl_key_desc s' a' \<longleftrightarrow> s = s' \<and> a = a'"
  by (simp add: keyctl_key_desc_def slash_split)

section \<open>Properties\<close>

text \<open>With secret-tool working as documented, a stored secret, whatever its bytes, is loaded back
  unchanged, and the secrets stored under every other service and account stay as they were.\<close>

theorem secret_tool_store_load:
  assumes "secret_tool_works run view"
  shows "\<exists>k1 k2. linux_store run SecretTool s a x k = (Inr (), k1) \<and> linux_load run SecretTool s a k1 = (Inr x, k2) \<and>
           (\<forall>s' a'. (s', a') \<noteq> (s, a) \<longrightarrow> view k1 (s', a') = view k (s', a'))"
proof -
  obtain k1 where 1: "linux_store run SecretTool s a x k = (Inr (), k1)" "view k1 = (view k)((s, a) \<mapsto> x)"
    using secret_tool.store_ok [OF assms] by blast
  moreover obtain k2 where "linux_load run SecretTool s a k1 = (Inr x, k2)"
    using secret_tool.load_hit [OF assms, of k1 s a x] 1 by auto
  ultimately show ?thesis by auto
qed

text \<open>C25. With the kernel keyring working as documented, a stored secret of 1 to 32767 bytes (the payloads the
  kernel takes) is loaded back, such a secret under another account of a service whose name has no slash is
  not disturbed, and after a deletion, which may be repeated, loading fails with a keychain error.\<close>

theorem keyctl_store_load_delete:
  assumes "keyctl_works run view" "CHR ''/'' \<notin> set s" "CHR ''/'' \<notin> set s'" "(s', a') \<noteq> (s, a)"
    and "keyctl_fits s a x" "keyctl_fits s' a' y" "view k (keyctl_key_desc s' a') = Some y"
  shows "(\<exists>k1 k2 k3. linux_store run Keyctl s a x k = (Inr (), k1) \<and> linux_load run Keyctl s a k1 = (Inr x, k2) \<and>
           linux_load run Keyctl s' a' k1 = (Inr y, k3)) \<and>
         (\<exists>k1 k2 k3 m. linux_delete run Keyctl s a k = (Inr (), k1) \<and> linux_delete run Keyctl s a k1 = (Inr (), k2) \<and>
           linux_load run Keyctl s a k2 = (Inl (Keychain m), k3))"
proof
  have ne: "keyctl_key_desc s' a' \<noteq> keyctl_key_desc s a" using keyctl_key_desc_inj [OF assms(3,2)] assms(4) by simp
  from keyctl.store_then_load_other [OF assms(1,5,6) ne assms(7)] obtain k1 k3 where
    "linux_store run Keyctl s a x k = (Inr (), k1)" "linux_load run Keyctl s' a' k1 = (Inr y, k3)" by blast
  moreover from keyctl.store_then_load [OF assms(1,5)] obtain k1' k2 where
    "linux_store run Keyctl s a x k = (Inr (), k1')" "linux_load run Keyctl s a k1' = (Inr x, k2)" by blast
  ultimately show "\<exists>k1 k2 k3. linux_store run Keyctl s a x k = (Inr (), k1) \<and> linux_load run Keyctl s a k1 = (Inr x, k2) \<and>
      linux_load run Keyctl s' a' k1 = (Inr y, k3)" by auto
  show "\<exists>k1 k2 k3 m. linux_delete run Keyctl s a k = (Inr (), k1) \<and> linux_delete run Keyctl s a k1 = (Inr (), k2) \<and>
      linux_load run Keyctl s a k2 = (Inl (Keychain m), k3)"
    by (rule keyctl.delete_then_load [OF assms(1)])
qed

text \<open>Storing a secret on Linux runs one child process whose arguments are determined by the
  backend, the service and the account; the secret is in its standard input only. Whatever the
  process does, no file is touched by the engine, and a failure is a keychain, permission or I/O
  error, or the missing standard input.\<close>

theorem linux_store_hides_secret:
  "\<exists>c r. (\<forall>y. cmd_args c = cmd_args (case b of SecretTool \<Rightarrow> st_store s a y
                 | Keyctl \<Rightarrow> argv_piped ''keyctl'' [''padd'', ''user'', keyctl_key_desc s a, ''@u''] y)) \<and>
      cmd_stdin c = Some x \<and>
      linux_store (world_runner E) b s a x w =
        (r, w\<lparr>w_tick := Suc (w_tick w), w_trace := w_trace w @ [EvCmd c]\<rparr>) \<and>
      (case r of Inl e \<Rightarrow> linux_err e | Inr _ \<Rightarrow> True)"
proof -
  obtain r w' where run: "linux_store (world_runner E) b s a x w = (r, w')" by fastforce
  have "case r of Inl e \<Rightarrow> linux_err e | Inr _ \<Rightarrow> True"
    using only_errD [OF linux_errs(2)] run by (auto split: sum.splits)
  moreover have "w' = w\<lparr>w_tick := Suc (w_tick w), w_trace := w_trace w @ [EvCmd (case b of SecretTool \<Rightarrow> st_store s a x
                 | Keyctl \<Rightarrow> argv_piped ''keyctl'' [''padd'', ''user'', keyctl_key_desc s a, ''@u''] x)]\<rparr>"
    using run by (cases b) (auto simp: secret_tool_store_def keyctl_store_def Let_def bindE_def run_with_timeout_def
          world_runner_def ret_def fail_def split: sum.splits if_splits)
  ultimately show ?thesis using run
    by (intro exI [of _ "case b of SecretTool \<Rightarrow> st_store s a x
                 | Keyctl \<Rightarrow> argv_piped ''keyctl'' [''padd'', ''user'', keyctl_key_desc s a, ''@u''] x"] exI [of _ r])
       (cases b; simp add: st_store_def argv_piped_def)
qed

section \<open>Witnesses\<close>

definition st_toy :: "(string \<times> string \<Rightarrow> bytes option) runner" where
  "st_toy c m = (case cmd_args c of
      [op, p, s, q, a] \<Rightarrow>
        if op = ''lookup'' then
          (case m (s, a) of Some x \<Rightarrow> (Exited (Some 0) (x @ [CHR 0x0A]), m) | None \<Rightarrow> (Exited (Some 1) [], m))
        else (Exited (Some 0) [], m((s, a) := None))
    | [op, l, t, p, s, q, a] \<Rightarrow> (Exited (Some 0) [], m((s, a) := cmd_stdin c))
    | _ \<Rightarrow> (Exited (Some 2) [], m))"

lemma st_toy_works: "secret_tool_works st_toy (\<lambda>m. m)"
  by (simp add: secret_tool_works_def st_toy_def st_lookup_def st_store_def st_clear_def argv_def argv_piped_def)

lemma secret_tool_store_load_witness:
  "\<exists>k1 k2. linux_store st_toy SecretTool ''synqro'' ''t'' ''secret'' (\<lambda>_. None) = (Inr (), k1) \<and>
     linux_load st_toy SecretTool ''synqro'' ''t'' k1 = (Inr ''secret'', k2)"
  using secret_tool_store_load [OF st_toy_works, of "''synqro''" "''t''" "''secret''" "\<lambda>_. None"] by blast

definition kc_toy :: "(string \<Rightarrow> bytes option) runner" where
  "kc_toy c m = (case cmd_args c of
      [op, x, y, z] \<Rightarrow>
        if op = ''search'' then (case m z of Some x \<Rightarrow> (Exited (Some 0) (enc_str z), m) | None \<Rightarrow> (Exited (Some 1) [], m))
        else (Exited (Some 0) [], m(y := cmd_stdin c))
    | [op, i] \<Rightarrow> (case dec_str i of Some (d, r) \<Rightarrow> (Exited (Some 0) (the (m d)), m) | None \<Rightarrow> (Exited (Some 1) [], m))
    | [op, i, u] \<Rightarrow> (case dec_str i of Some (d, r) \<Rightarrow> (Exited (Some 0) [], m(d := None)) | None \<Rightarrow> (Exited (Some 1) [], m))
    | _ \<Rightarrow> (Exited (Some 2) [], m))"

lemma kc_toy_works: "keyctl_works kc_toy (\<lambda>m. m)"
proof -
  have "trim (from_utf8_lossy (enc_str d)) = enc_str d" for d
    by (simp add: from_utf8_lossy_valid ascii_valid_utf8 visible_ascii visible_enc_str trim_visible)
  moreover have "dec_str (enc_str d) = Some (d, [])" for d using dec_enc_str [of d "[]"] by simp
  ultimately show ?thesis by (simp add: keyctl_works_def kc_toy_def kc_search_def argv_def argv_piped_def)
qed

lemma keyctl_store_load_delete_witness:
  "\<exists>k1 k2. linux_store kc_toy Keyctl ''synqro'' ''t'' ''secret'' [keyctl_key_desc ''synqro'' ''u'' \<mapsto> ''other''] = (Inr (), k1) \<and>
     linux_load kc_toy Keyctl ''synqro'' ''t'' k1 = (Inr ''secret'', k2)"
  using keyctl_store_load_delete [OF kc_toy_works, where s = "''synqro''" and s' = "''synqro''" and a = "''t''" and a' = "''u''"
      and k = "[keyctl_key_desc ''synqro'' ''u'' \<mapsto> ''other'']" and x = "''secret''" and y = "''other''"]
  by (auto simp: keyctl_fits_def keyctl_key_desc_def)

end
