(* ===== verification/Keychain_Apple.thy ===== *)
theory Keychain_Apple
  imports Keychain_Linux
begin

text \<open>
  The macOS and iOS backends of \<open>src/keychain/macos.rs\<close> and \<open>src/keychain/ios.rs\<close>. The
  \<open>security-framework\<close> crate is a parameter: three operations on the keychain state, failing with an
  OSStatus. On macOS a failing call falls back to the \<open>security\<close> command, which acts on the same
  keychain.
\<close>

record 'k security_api =
  sf_get :: "string \<Rightarrow> string \<Rightarrow> ('k, int, bytes) io"
  sf_set :: "string \<Rightarrow> string \<Rightarrow> bytes \<Rightarrow> ('k, int, unit) io"
  sf_delete :: "string \<Rightarrow> string \<Rightarrow> ('k, int, unit) io"

definition errSecItemNotFound :: int where "errSecItemNotFound = - 25300"
definition errSecInteractionNotAllowed :: int where "errSecInteractionNotAllowed = - 25293"

definition quoted :: "string \<Rightarrow> string" where
  "quoted s = [CHR 0x27] @ s @ [CHR 0x27]"

section \<open>The security command\<close>

fun mac_output :: "proc_result \<Rightarrow> synqro_error + (int option \<times> bytes)" where
  "mac_output (SpawnFailed e) = Inl (Permission (''Failed to spawn security CLI subprocess: '' @ e))"
| "mac_output TimedOut = Inl (Keychain ''security CLI subprocess timed out after 10 seconds'')"
| "mac_output (Exited c out) = Inr (c, out)"
| "mac_output (WaitFailed e) = Inl (Io e)"
| "mac_output NoStdin = Inl (Io ''no standard input'')"
| "mac_output (StdinFailed e) = Inl (Io e)"

definition mac_run :: "'k runner \<Rightarrow> command \<Rightarrow> ('k, synqro_error, int option \<times> bytes) io" where
  "mac_run run c = (\<lambda>k. case run c k of (r, k') \<Rightarrow> (mac_output r, k'))"

definition sec_find :: "string \<Rightarrow> string \<Rightarrow> command" where
  "sec_find service account = argv ''security'' [''find-generic-password'', ''-s'', service, ''-a'', account, ''-w'']"

definition sec_add :: "string \<Rightarrow> string \<Rightarrow> string \<Rightarrow> command" where
  "sec_add service account pw =
     argv ''security'' [''add-generic-password'', ''-s'', service, ''-a'', account, ''-w'', pw, ''-U'']"

definition sec_delete :: "string \<Rightarrow> string \<Rightarrow> command" where
  "sec_delete service account = argv ''security'' [''delete-generic-password'', ''-s'', service, ''-a'', account]"

definition macos_cli_load :: "'k runner \<Rightarrow> string \<Rightarrow> string \<Rightarrow> ('k, synqro_error, bytes) io" where
  "macos_cli_load run service account =
     bindE (mac_run run (sec_find service account)) (\<lambda>output.
     if \<not> succeeded output then fail (Keychain ''security find-generic-password: item not found or keychain locked'')
     else ret (pop_newline (snd output)))"

definition macos_cli_store :: "(bytes \<Rightarrow> string) \<Rightarrow> 'k runner \<Rightarrow> string \<Rightarrow> string \<Rightarrow> bytes \<Rightarrow> ('k, synqro_error, unit) io" where
  "macos_cli_store hexf run service account secret =
     (let secret_hex = hexf secret in
     bindE (mac_run run (sec_add service account secret_hex)) (\<lambda>output.
     if \<not> succeeded output then fail (Keychain ''security add-generic-password: store operation failed'')
     else ret ()))"

definition macos_cli_delete :: "'k runner \<Rightarrow> string \<Rightarrow> string \<Rightarrow> ('k, synqro_error, unit) io" where
  "macos_cli_delete run service account =
     bindE (mac_run run (sec_delete service account)) (\<lambda>output.
     if fst output = Some 0 \<or> fst output = Some 44 then ret ()
     else fail (Keychain ''security delete-generic-password: operation failed''))"

section \<open>macOS\<close>

definition macos_load :: "'k security_api \<Rightarrow> 'k runner \<Rightarrow> string \<Rightarrow> string \<Rightarrow> ('k, synqro_error, bytes) io" where
  "macos_load api run service account =
     bindE (attempt (sf_get api service account)) (\<lambda>r. case r of
       Inr password_bytes \<Rightarrow> ret password_bytes
     | Inl err_code \<Rightarrow>
         if err_code = errSecItemNotFound then
           fail (Keychain (''macOS Keychain: item not found for service='' @ quoted service @ '' account='' @ quoted account))
         else macos_cli_load run service account)"

definition macos_store :: "(bytes \<Rightarrow> string) \<Rightarrow> 'k security_api \<Rightarrow> 'k runner \<Rightarrow> string \<Rightarrow> string \<Rightarrow> bytes \<Rightarrow> ('k, synqro_error, unit) io" where
  "macos_store hexf api run service account secret =
     bindE (attempt (sf_set api service account secret)) (\<lambda>r. case r of
       Inr _ \<Rightarrow> ret ()
     | Inl _ \<Rightarrow> macos_cli_store hexf run service account secret)"

definition macos_delete :: "'k security_api \<Rightarrow> 'k runner \<Rightarrow> string \<Rightarrow> string \<Rightarrow> ('k, synqro_error, unit) io" where
  "macos_delete api run service account =
     bindE (attempt (sf_delete api service account)) (\<lambda>r. case r of
       Inr _ \<Rightarrow> ret ()
     | Inl code \<Rightarrow> if code = errSecItemNotFound then ret () else macos_cli_delete run service account)"

section \<open>iOS\<close>

definition ios_load :: "'k security_api \<Rightarrow> string \<Rightarrow> string \<Rightarrow> ('k, synqro_error, bytes) io" where
  "ios_load api service account =
     bindE (attempt (sf_get api service account)) (\<lambda>r. case r of
       Inr password_bytes \<Rightarrow> ret password_bytes
     | Inl code \<Rightarrow>
         if code = errSecItemNotFound then
           fail (Keychain (''iOS Keychain: item not found for service='' @ quoted service @ '' account='' @ quoted account))
         else if code = errSecInteractionNotAllowed then
           fail (Keychain ''iOS Keychain: device is locked; unlock device and retry'')
         else fail (Keychain (''iOS Keychain: SecItemCopyMatching error code '' @ show_int code)))"

definition ios_store :: "'k security_api \<Rightarrow> string \<Rightarrow> string \<Rightarrow> bytes \<Rightarrow> ('k, synqro_error, unit) io" where
  "ios_store api service account secret =
     bindE (attempt (sf_set api service account secret)) (\<lambda>r. case r of
       Inr _ \<Rightarrow> ret ()
     | Inl code \<Rightarrow>
         if code = errSecInteractionNotAllowed then
           fail (Keychain ''iOS Keychain: device is locked; unlock device and retry'')
         else fail (Keychain (''iOS Keychain: SecItemAdd/SecItemUpdate error code '' @ show_int code)))"

definition ios_delete :: "'k security_api \<Rightarrow> string \<Rightarrow> string \<Rightarrow> ('k, synqro_error, unit) io" where
  "ios_delete api service account =
     bindE (attempt (sf_delete api service account)) (\<lambda>r. case r of
       Inr _ \<Rightarrow> ret ()
     | Inl code \<Rightarrow>
         if code = errSecItemNotFound then ret ()
         else fail (Keychain (''iOS Keychain: SecItemDelete error code '' @ show_int code)))"

section \<open>The documented behaviour of Keychain Services\<close>

definition framework_works :: "'k security_api \<Rightarrow> ('k \<Rightarrow> string \<times> string \<Rightarrow> bytes option) \<Rightarrow> bool" where
  "framework_works api view \<longleftrightarrow>
     (\<forall>k s a x. view k (s, a) = Some x \<longrightarrow> (\<exists>k'. sf_get api s a k = (Inr x, k') \<and> view k' = view k)) \<and>
     (\<forall>k s a. view k (s, a) = None \<longrightarrow> (\<exists>k'. sf_get api s a k = (Inl errSecItemNotFound, k') \<and> view k' = view k)) \<and>
     (\<forall>k s a x. \<exists>k'. sf_set api s a x k = (Inr (), k') \<and> view k' = (view k)((s, a) \<mapsto> x)) \<and>
     (\<forall>k s a. \<exists>r k'. sf_delete api s a k = (r, k') \<and> (r = Inr () \<or> r = Inl errSecItemNotFound) \<and>
        view k' = (view k)((s, a) := None))"

fun mac_err :: "synqro_error \<Rightarrow> bool" where
  "mac_err (Keychain m) = True"
| "mac_err (Permission m) = True"
| "mac_err (Io m) = True"
| "mac_err _ = False"

fun ios_err :: "synqro_error \<Rightarrow> bool" where
  "ios_err (Keychain m) = True"
| "ios_err _ = False"

lemma mac_output_err: "mac_output r = Inl e \<Longrightarrow> mac_err e"
  by (cases r) auto

lemma only_err_mac_run: "only_err mac_err (mac_run run c)"
  by (auto simp: only_err_def wp_def mac_run_def mac_output_err split: prod.splits sum.splits)

lemma macos_errs:
  "only_err mac_err (macos_load api run s a)" "only_err mac_err (macos_store hexf api run s a x)"
  "only_err mac_err (macos_delete api run s a)"
  by (auto simp: macos_load_def macos_store_def macos_delete_def macos_cli_load_def macos_cli_store_def
        macos_cli_delete_def Let_def
      intro!: only_err_bind only_err_ret only_err_fail only_err_if only_err_sum only_err_attempt only_err_mac_run)

lemma ios_errs:
  "only_err ios_err (ios_load api s a)" "only_err ios_err (ios_store api s a x)" "only_err ios_err (ios_delete api s a)"
  by (auto simp: ios_load_def ios_store_def ios_delete_def
      intro!: only_err_bind only_err_ret only_err_fail only_err_if only_err_sum only_err_attempt)

lemma framework_get:
  assumes "framework_works api view"
  obtains k' where "sf_get api s a k = (case view k (s, a) of Some x \<Rightarrow> Inr x | None \<Rightarrow> Inl errSecItemNotFound, k')" "view k' = view k"
proof (cases "view k (s, a)")
  case None
  with assms have "\<exists>k'. sf_get api s a k = (Inl errSecItemNotFound, k') \<and> view k' = view k"
    unfolding framework_works_def by blast
  with None show thesis by (auto intro: that)
next
  case (Some x)
  with assms have "\<exists>k'. sf_get api s a k = (Inr x, k') \<and> view k' = view k"
    unfolding framework_works_def by blast
  with Some show thesis by (auto intro: that)
qed

lemma framework_set:
  assumes "framework_works api view"
  obtains k' where "sf_set api s a x k = (Inr (), k')" "view k' = (view k)((s, a) \<mapsto> x)"
  using assms unfolding framework_works_def by blast

lemma framework_delete:
  assumes "framework_works api view"
  obtains r k' where "sf_delete api s a k = (r, k')" "r = Inr () \<or> r = Inl errSecItemNotFound" "view k' = (view k)((s, a) := None)"
  using assms unfolding framework_works_def by blast

interpretation macos: keychain_provider
  "macos_load api run" "macos_store hexf api run" "macos_delete api run"
  "framework_works api view" view Pair "\<lambda>_ _ _. True" mac_err
  for hexf and api :: "'k security_api" and run and view
proof unfold_locales
  fix k s a x
  assume up: "framework_works api view" and v: "view k (s, a) = Some x"
  obtain k' where "sf_get api s a k = (Inr x, k')" "view k' = view k"
    using framework_get [OF up, of s a k] v by auto
  then show "\<exists>k'. macos_load api run s a k = (Inr x, k') \<and> view k' = view k"
    by (simp add: macos_load_def bindE_def attempt_def ret_def)
next
  fix k s a
  assume up: "framework_works api view" and v: "view k (s, a) = None"
  obtain k' where "sf_get api s a k = (Inl errSecItemNotFound, k')" "view k' = view k"
    using framework_get [OF up, of s a k] v by auto
  then show "\<exists>m k'. macos_load api run s a k = (Inl (Keychain m), k') \<and> view k' = view k"
    by (simp add: macos_load_def bindE_def attempt_def fail_def)
next
  fix x s a k
  assume up: "framework_works api view"
  show "\<exists>k'. macos_store hexf api run s a x k = (Inr (), k') \<and> view k' = (view k)((s, a) \<mapsto> x)"
    by (rule framework_set [OF up, of s a x k]) (simp add: macos_store_def bindE_def attempt_def ret_def)
next
  fix s a k
  assume up: "framework_works api view"
  show "\<exists>k'. macos_delete api run s a k = (Inr (), k') \<and> view k' = (view k)((s, a) := None)"
    by (rule framework_delete [OF up, of s a k]) (auto simp: macos_delete_def bindE_def attempt_def ret_def)
qed (blast dest: only_errD [OF macos_errs(1)] only_errD [OF macos_errs(2)] only_errD [OF macos_errs(3)])+

interpretation ios: keychain_provider
  "ios_load api" "ios_store api" "ios_delete api"
  "framework_works api view" view Pair "\<lambda>_ _ _. True" ios_err
  for api :: "'k security_api" and view
proof unfold_locales
  fix k s a x
  assume up: "framework_works api view" and v: "view k (s, a) = Some x"
  obtain k' where "sf_get api s a k = (Inr x, k')" "view k' = view k"
    using framework_get [OF up, of s a k] v by auto
  then show "\<exists>k'. ios_load api s a k = (Inr x, k') \<and> view k' = view k"
    by (simp add: ios_load_def bindE_def attempt_def ret_def)
next
  fix k s a
  assume up: "framework_works api view" and v: "view k (s, a) = None"
  obtain k' where "sf_get api s a k = (Inl errSecItemNotFound, k')" "view k' = view k"
    using framework_get [OF up, of s a k] v by auto
  then show "\<exists>m k'. ios_load api s a k = (Inl (Keychain m), k') \<and> view k' = view k"
    by (simp add: ios_load_def bindE_def attempt_def fail_def)
next
  fix x s a k
  assume up: "framework_works api view"
  show "\<exists>k'. ios_store api s a x k = (Inr (), k') \<and> view k' = (view k)((s, a) \<mapsto> x)"
    by (rule framework_set [OF up, of s a x k]) (simp add: ios_store_def bindE_def attempt_def ret_def)
next
  fix s a k
  assume up: "framework_works api view"
  show "\<exists>k'. ios_delete api s a k = (Inr (), k') \<and> view k' = (view k)((s, a) := None)"
    by (rule framework_delete [OF up, of s a k]) (auto simp: ios_delete_def bindE_def attempt_def ret_def)
qed (blast dest: only_errD [OF ios_errs(1)] only_errD [OF ios_errs(2)] only_errD [OF ios_errs(3)])+

section \<open>Properties\<close>

text \<open>On macOS and on iOS, with Keychain Services working as documented, a stored secret is loaded
  back byte for byte, and on macOS no child process is involved: the result does not depend on the
  runner.\<close>

theorem apple_store_load:
  assumes "framework_works api view"
  shows "(\<exists>k1 k2. ios_store api s a x k = (Inr (), k1) \<and> ios_load api s a k1 = (Inr x, k2)) \<and>
         (\<exists>k1 k2. \<forall>run. macos_store hexf api run s a x k = (Inr (), k1) \<and> macos_load api run s a k1 = (Inr x, k2))"
proof
  show "\<exists>k1 k2. ios_store api s a x k = (Inr (), k1) \<and> ios_load api s a k1 = (Inr x, k2)"
    using ios.store_then_load [OF assms TrueI] by blast
  obtain k1 where 1: "sf_set api s a x k = (Inr (), k1)" "view k1 = (view k)((s, a) \<mapsto> x)"
    by (rule framework_set [OF assms])
  then obtain k2 where "sf_get api s a k1 = (Inr x, k2)" using framework_get [OF assms, of s a k1] by auto
  with 1 show "\<exists>k1 k2. \<forall>run. macos_store hexf api run s a x k = (Inr (), k1) \<and> macos_load api run s a k1 = (Inr x, k2)"
    by (simp add: macos_store_def macos_load_def bindE_def attempt_def ret_def)
qed

text \<open>C26. The fallback of the macOS backend is not a round trip: when the framework calls fail and the
  security command works as documented, storing puts the hexadecimal text of the secret on the
  command line and loading returns that text, which is twice as long as the secret.\<close>

theorem macos_fallback_returns_hex:
  assumes "sf_set api s a x k = (Inl c, k0)" "run (sec_add s a (hexf x)) k0 = (Exited (Some 0) [], k1)"
    and "sf_get api s a k1 = (Inl c', k2)" "c' \<noteq> errSecItemNotFound"
    and "run (sec_find s a) k2 = (Exited (Some 0) (hexf x @ [CHR 0x0A]), k3)"
    and "length (hexf x) = 2 * length x" "x \<noteq> []"
  shows "macos_store hexf api run s a x k = (Inr (), k1) \<and> macos_load api run s a k1 = (Inr (hexf x), k3) \<and> hexf x \<noteq> x"
proof -
  have "hexf x \<noteq> x" using assms(6,7) by (cases x) auto
  then show ?thesis using assms(1-5)
    by (simp add: macos_store_def macos_load_def macos_cli_store_def macos_cli_load_def bindE_def attempt_def
          mac_run_def succeeded_def ret_def Let_def)
qed

section \<open>Witnesses\<close>

definition sf_toy :: "(string \<times> string \<Rightarrow> bytes option) security_api" where
  "sf_toy = \<lparr>sf_get = (\<lambda>s a m. (case m (s, a) of Some x \<Rightarrow> Inr x | None \<Rightarrow> Inl errSecItemNotFound, m)),
     sf_set = (\<lambda>s a x m. (Inr (), m((s, a) \<mapsto> x))), sf_delete = (\<lambda>s a m. (Inr (), m((s, a) := None)))\<rparr>"

lemma apple_store_load_witness:
  "\<exists>k1 k2. ios_store sf_toy ''synqro'' ''t'' ''secret'' (\<lambda>_. None) = (Inr (), k1) \<and> ios_load sf_toy ''synqro'' ''t'' k1 = (Inr ''secret'', k2)"
proof -
  have "framework_works sf_toy (\<lambda>m. m)" by (simp add: framework_works_def sf_toy_def)
  from apple_store_load [OF this, of "''synqro''" "''t''" "''secret''" "\<lambda>_. None" "\<lambda>x. x"] show ?thesis by blast
qed

definition sf_down :: "bytes security_api" where
  "sf_down = \<lparr>sf_get = (\<lambda>s a m. (Inl (- 34018), m)), sf_set = (\<lambda>s a x m. (Inl (- 34018), m)),
     sf_delete = (\<lambda>s a m. (Inl (- 34018), m))\<rparr>"

definition sec_toy :: "bytes runner" where
  "sec_toy c m = (case cmd_args c of
      [op, s, service, a, account, w] \<Rightarrow> (Exited (Some 0) (m @ [CHR 0x0A]), m)
    | [op, s, service, a, account, w, pw, u] \<Rightarrow> (Exited (Some 0) [], pw)
    | _ \<Rightarrow> (Exited (Some 2) [], m))"

lemma macos_fallback_returns_hex_witness:
  "macos_load sf_down sec_toy ''synqro'' ''t'' (snd (macos_store (\<lambda>x. ''6b'') sf_down sec_toy ''synqro'' ''t'' ''k'' [])) = (Inr ''6b'', ''6b'')"
  using macos_fallback_returns_hex [of sf_down "''synqro''" "''t''" "''k''" "[]" "- 34018" "[]" sec_toy "\<lambda>x. ''6b''" "''6b''" "- 34018" "''6b''" "''6b''"]
  by (simp add: sf_down_def sec_toy_def sec_add_def sec_find_def argv_def errSecItemNotFound_def)

end
