(* ===== verification/Keychain_Android.thy ===== *)
theory Keychain_Android
  imports Keychain
begin

text \<open>
  The Android backend of \<open>src/keychain/android.rs\<close>: a dispatcher to callbacks the Java layer has
  registered. A callback is a function of service, account, the secret (for a store) and the
  capacity of the output buffer; it returns a code, the bytes it wrote to the buffer and the length it
  reported. The two mutexes may be poisoned.
\<close>

definition MAX_SECRET_LEN :: nat where "MAX_SECRET_LEN = 4096"

record jni_result =
  jr_code :: int
  jr_written :: bytes
  jr_out_len :: u64

type_synonym 'k java_fn = "string \<Rightarrow> string \<Rightarrow> bytes option \<Rightarrow> nat \<Rightarrow> 'k \<Rightarrow> jni_result \<times> 'k"

record 'k android_keychain =
  ak_env :: "nat option"
  ak_env_poisoned :: bool
  ak_load :: "'k java_fn option"
  ak_store :: "'k java_fn option"
  ak_delete :: "'k java_fn option"
  ak_callbacks_poisoned :: bool

definition android_new :: "'k android_keychain" where
  "android_new = \<lparr>ak_env = None, ak_env_poisoned = False, ak_load = None, ak_store = None, ak_delete = None,
     ak_callbacks_poisoned = False\<rparr>"

text \<open>The pointer is its address; zero is null.\<close>

definition with_jni_env :: "nat \<Rightarrow> synqro_error + 'k android_keychain" where
  "with_jni_env jni_env =
     (if jni_env = 0 then Inl (InvalidInput ''jni_env pointer must not be null'')
      else Inr (android_new\<lparr>ak_env := Some jni_env\<rparr>))"

definition register_callbacks :: "'k android_keychain \<Rightarrow> 'k java_fn \<Rightarrow> 'k java_fn \<Rightarrow> 'k java_fn \<Rightarrow> synqro_error + 'k android_keychain" where
  "register_callbacks ak load_fn store_fn delete_fn =
     (if ak_callbacks_poisoned ak then Inl (Internal ''Android Keychain callback mutex poisoned'')
      else Inr (ak\<lparr>ak_load := Some load_fn, ak_store := Some store_fn, ak_delete := Some delete_fn\<rparr>))"

definition jni_env_or_err :: "'k android_keychain \<Rightarrow> synqro_error + nat" where
  "jni_env_or_err ak =
     (if ak_env_poisoned ak then Inl (Internal ''Android Keychain JNIEnv mutex poisoned'')
      else ok_or (Keychain (''Android Keystore: JNI environment not configured. '' @
             ''Call AndroidKeychain::with_jni_env from the Java layer before use.'')) (ak_env ak))"

text \<open>The shared start of the three operations: the environment, then the callback.\<close>

definition callback_or_err :: "'k android_keychain \<Rightarrow> string \<Rightarrow> 'k java_fn option \<Rightarrow> synqro_error + 'k java_fn" where
  "callback_or_err ak name f =
     (case jni_env_or_err ak of
        Inl e \<Rightarrow> Inl e
      | Inr env \<Rightarrow>
          if ak_callbacks_poisoned ak then Inl (Internal ''Android Keychain callback mutex poisoned'')
          else ok_or (Keychain (''Android Keystore: '' @ name @ '' JNI callback not registered'')) f)"

text \<open>The buffer starts as zeros; the callback writes within its capacity.\<close>

definition out_buffer :: "nat \<Rightarrow> bytes \<Rightarrow> bytes" where
  "out_buffer cap written = take cap (written @ replicate cap (CHR 0x00))"

definition android_load :: "'k android_keychain \<Rightarrow> string \<Rightarrow> string \<Rightarrow> ('k, synqro_error, bytes) io" where
  "android_load ak service account =
     bindE (lift_res (callback_or_err ak ''load'' (ak_load ak))) (\<lambda>load_fn k.
     case load_fn service account None MAX_SECRET_LEN k of (r, k') \<Rightarrow>
       let out_buf = out_buffer MAX_SECRET_LEN (jr_written r) in
       if jr_code r \<noteq> 0 then
         (Inl (Keychain (''Android Keystore: load callback returned error code '' @ show_int (jr_code r))), k')
       else
         let out_len = min (unat (jr_out_len r)) MAX_SECRET_LEN in
         (Inr (take out_len out_buf), k'))"

definition android_store :: "'k android_keychain \<Rightarrow> string \<Rightarrow> string \<Rightarrow> bytes \<Rightarrow> ('k, synqro_error, unit) io" where
  "android_store ak service account secret =
     bindE (lift_res (callback_or_err ak ''store'' (ak_store ak))) (\<lambda>store_fn k.
     case store_fn service account (Some secret) 0 k of (r, k') \<Rightarrow>
       if jr_code r \<noteq> 0 then
         (Inl (Keychain (''Android Keystore: store callback returned error code '' @ show_int (jr_code r))), k')
       else (Inr (), k'))"

definition android_delete :: "'k android_keychain \<Rightarrow> string \<Rightarrow> string \<Rightarrow> ('k, synqro_error, unit) io" where
  "android_delete ak service account =
     bindE (lift_res (callback_or_err ak ''delete'' (ak_delete ak))) (\<lambda>delete_fn k.
     case delete_fn service account None 0 k of (r, k') \<Rightarrow>
       if jr_code r \<noteq> 0 then
         (Inl (Keychain (''Android Keystore: delete callback returned error code '' @ show_int (jr_code r))), k')
       else (Inr (), k'))"

section \<open>The documented behaviour of the Java layer\<close>

text \<open>The callbacks keep one secret per service and account; a load writes the secret, as far as it
  fits, and reports its length; deleting what is absent succeeds.\<close>

definition callbacks_work :: "'k java_fn \<Rightarrow> 'k java_fn \<Rightarrow> 'k java_fn \<Rightarrow> ('k \<Rightarrow> string \<times> string \<Rightarrow> bytes option) \<Rightarrow> bool" where
  "callbacks_work load_fn store_fn delete_fn view \<longleftrightarrow>
     (\<forall>k s a x cap. view k (s, a) = Some x \<and> length x < 2 ^ 64 \<longrightarrow>
        (\<exists>r k'. load_fn s a None cap k = (r, k') \<and> jr_code r = 0 \<and> jr_written r = take cap x \<and>
           unat (jr_out_len r) = length x \<and> view k' = view k)) \<and>
     (\<forall>k s a cap. view k (s, a) = None \<longrightarrow> (\<exists>r k'. load_fn s a None cap k = (r, k') \<and> jr_code r \<noteq> 0 \<and> view k' = view k)) \<and>
     (\<forall>k s a x. \<exists>r k'. store_fn s a (Some x) 0 k = (r, k') \<and> jr_code r = 0 \<and> view k' = (view k)((s, a) \<mapsto> x)) \<and>
     (\<forall>k s a. \<exists>r k'. delete_fn s a None 0 k = (r, k') \<and> jr_code r = 0 \<and> view k' = (view k)((s, a) := None))"

definition android_up :: "'k android_keychain \<Rightarrow> ('k \<Rightarrow> string \<times> string \<Rightarrow> bytes option) \<Rightarrow> bool" where
  "android_up ak view \<longleftrightarrow> ak_env ak \<noteq> None \<and> \<not> ak_env_poisoned ak \<and> \<not> ak_callbacks_poisoned ak \<and>
     (\<exists>l s d. ak_load ak = Some l \<and> ak_store ak = Some s \<and> ak_delete ak = Some d \<and> callbacks_work l s d view)"

definition fits_buffer :: "bytes \<Rightarrow> bool" where
  "fits_buffer x \<longleftrightarrow> length x \<le> MAX_SECRET_LEN"

fun android_err :: "synqro_error \<Rightarrow> bool" where
  "android_err (Keychain m) = True"
| "android_err (Internal m) = True"
| "android_err _ = False"

lemma callback_or_err_err: "callback_or_err ak n f = Inl e \<Longrightarrow> android_err e"
  by (auto simp: callback_or_err_def jni_env_or_err_def ok_or_def split: sum.splits option.splits if_splits)

lemma callback_up: "android_up ak view \<Longrightarrow> callback_or_err ak n (Some f) = Inr f"
  by (auto simp: android_up_def callback_or_err_def jni_env_or_err_def ok_or_def)

lemma out_buffer_take: "n \<le> length x \<Longrightarrow> n \<le> cap \<Longrightarrow> take n (out_buffer cap (take cap x)) = take n x"
  by (simp add: out_buffer_def min_def)

lemma length_out_buffer: "length (out_buffer cap x) = cap"
  by (simp add: out_buffer_def)

interpretation android: keychain_provider
  "android_load ak" "android_store ak" "android_delete ak"
  "android_up ak view" view Pair "\<lambda>_ _. fits_buffer" android_err
  for ak :: "'k android_keychain" and view
proof unfold_locales
  fix k s a x
  assume up: "android_up ak view" and v: "view k (s, a) = Some x" and fit: "fits_buffer x"
  then obtain l st d where cb: "ak_load ak = Some l" "callbacks_work l st d view" unfolding android_up_def by blast
  have len: "length x \<le> MAX_SECRET_LEN" "length x < 2 ^ 64"
    using fit by (simp_all add: fits_buffer_def MAX_SECRET_LEN_def)
  obtain r k' where r: "l s a None MAX_SECRET_LEN k = (r, k')" "jr_code r = 0" "jr_written r = take MAX_SECRET_LEN x"
      "unat (jr_out_len r) = length x" "view k' = view k"
    using cb(2) v len(2) unfolding callbacks_work_def by meson
  have "take (length x) (out_buffer MAX_SECRET_LEN (take MAX_SECRET_LEN x)) = x"
    using out_buffer_take [of "length x" x MAX_SECRET_LEN] len(1) by simp
  with r len(1) show "\<exists>k'. android_load ak s a k = (Inr x, k') \<and> view k' = view k"
    by (simp add: android_load_def cb(1) callback_up [OF up] bindE_def lift_res_def min_absorb1)
next
  fix k s a
  assume up: "android_up ak view" and v: "view k (s, a) = None"
  then obtain l st d where cb: "ak_load ak = Some l" "callbacks_work l st d view" unfolding android_up_def by blast
  then obtain r k' where "l s a None MAX_SECRET_LEN k = (r, k')" "jr_code r \<noteq> 0" "view k' = view k"
    using v unfolding callbacks_work_def by meson
  then show "\<exists>m k'. android_load ak s a k = (Inl (Keychain m), k') \<and> view k' = view k"
    by (simp add: android_load_def cb(1) callback_up [OF up] bindE_def lift_res_def Let_def)
next
  fix x s a k
  assume up: "android_up ak view"
  then obtain l st d where cb: "ak_store ak = Some st" "callbacks_work l st d view" unfolding android_up_def by blast
  then obtain r k' where "st s a (Some x) 0 k = (r, k')" "jr_code r = 0" "view k' = (view k)((s, a) \<mapsto> x)"
    unfolding callbacks_work_def by meson
  then show "\<exists>k'. android_store ak s a x k = (Inr (), k') \<and> view k' = (view k)((s, a) \<mapsto> x)"
    by (simp add: android_store_def cb(1) callback_up [OF up] bindE_def lift_res_def)
next
  fix s a k
  assume up: "android_up ak view"
  then obtain l st d where cb: "ak_delete ak = Some d" "callbacks_work l st d view" unfolding android_up_def by blast
  then obtain r k' where "d s a None 0 k = (r, k')" "jr_code r = 0" "view k' = (view k)((s, a) := None)"
    unfolding callbacks_work_def by meson
  then show "\<exists>k'. android_delete ak s a k = (Inr (), k') \<and> view k' = (view k)((s, a) := None)"
    by (simp add: android_delete_def cb(1) callback_up [OF up] bindE_def lift_res_def)
qed (auto simp: android_load_def android_store_def android_delete_def bindE_def lift_res_def Let_def
      dest: callback_or_err_err split: sum.splits prod.splits if_splits)

section \<open>Properties\<close>

text \<open>Whatever the Java callback writes and reports, a load that succeeds returns exactly the
  reported number of bytes, but at most 4096, out of the zero-initialised buffer; a load fails with a
  keychain error if and only if it is configured and the callback returns a code other than zero.\<close>

theorem android_load_bounded:
  assumes "ak_env ak \<noteq> None" "\<not> ak_env_poisoned ak" "\<not> ak_callbacks_poisoned ak" "ak_load ak = Some f"
    and "f s a None 4096 k = (r, k')"
  shows "(jr_code r = 0 \<longrightarrow> android_load ak s a k =
            (Inr (take (min (unat (jr_out_len r)) 4096) (out_buffer 4096 (jr_written r))), k') \<and>
            length (take (min (unat (jr_out_len r)) 4096) (out_buffer 4096 (jr_written r))) = min (unat (jr_out_len r)) 4096) \<and>
         (jr_code r \<noteq> 0 \<longrightarrow> (\<exists>m. android_load ak s a k = (Inl (Keychain m), k')))"
  using assms
  by (auto simp: android_load_def callback_or_err_def jni_env_or_err_def bindE_def lift_res_def Let_def
      MAX_SECRET_LEN_def length_out_buffer)

text \<open>With callbacks that work as documented, secrets of up to 4096 bytes make the round trip; a
  longer one is stored in full, but loading it succeeds with its first 4096 bytes only.\<close>

theorem android_store_load:
  assumes "android_up ak view" "length x < 2 ^ 64"
  shows "\<exists>k1 k2. android_store ak s a x k = (Inr (), k1) \<and> view k1 (s, a) = Some x \<and>
           android_load ak s a k1 = (Inr (take 4096 x), k2)"
proof -
  obtain l st d where cb: "ak_load ak = Some l" "ak_store ak = Some st" "callbacks_work l st d view"
    using assms(1) unfolding android_up_def by blast
  then obtain r k1 where st: "st s a (Some x) 0 k = (r, k1)" "jr_code r = 0" "view k1 = (view k)((s, a) \<mapsto> x)"
    unfolding callbacks_work_def by meson
  then have "view k1 (s, a) = Some x" by simp
  with cb(3) assms(2) obtain q k2 where l: "l s a None MAX_SECRET_LEN k1 = (q, k2)" "jr_code q = 0"
      "jr_written q = take MAX_SECRET_LEN x" "unat (jr_out_len q) = length x"
    unfolding callbacks_work_def by meson
  have "take (min (length x) MAX_SECRET_LEN) (out_buffer MAX_SECRET_LEN (take MAX_SECRET_LEN x)) = take 4096 x"
    using out_buffer_take [of "min (length x) MAX_SECRET_LEN" x MAX_SECRET_LEN]
    by (simp add: MAX_SECRET_LEN_def min_def)
  with st l show ?thesis
    by (simp add: android_store_def android_load_def cb(1,2) callback_up [OF assms(1)] bindE_def lift_res_def)
qed

section \<open>Witnesses\<close>

definition java_load :: "(string \<times> string \<Rightarrow> bytes option) java_fn" where
  "java_load s a x cap m = (case m (s, a) of
      Some y \<Rightarrow> (\<lparr>jr_code = 0, jr_written = take cap y, jr_out_len = of_nat (length y)\<rparr>, m)
    | None \<Rightarrow> (\<lparr>jr_code = 1, jr_written = [], jr_out_len = 0\<rparr>, m))"

definition java_store :: "(string \<times> string \<Rightarrow> bytes option) java_fn" where
  "java_store s a x cap m = (\<lparr>jr_code = 0, jr_written = [], jr_out_len = 0\<rparr>, m((s, a) := x))"

definition java_delete :: "(string \<times> string \<Rightarrow> bytes option) java_fn" where
  "java_delete s a x cap m = (\<lparr>jr_code = 0, jr_written = [], jr_out_len = 0\<rparr>, m((s, a) := None))"

definition android_toy :: "(string \<times> string \<Rightarrow> bytes option) android_keychain" where
  "android_toy = \<lparr>ak_env = Some 1, ak_env_poisoned = False, ak_load = Some java_load, ak_store = Some java_store,
     ak_delete = Some java_delete, ak_callbacks_poisoned = False\<rparr>"

lemma android_toy_up: "android_up android_toy (\<lambda>m. m)"
  by (simp add: android_up_def android_toy_def callbacks_work_def java_load_def java_store_def java_delete_def
      unat_of_nat take_bit_nat_eq_self)

lemma android_load_bounded_witness:
  "android_load android_toy ''s'' ''a'' [(''s'', ''a'') \<mapsto> ''secret''] = (Inr ''secret'', [(''s'', ''a'') \<mapsto> ''secret''])"
proof -
  have "out_buffer 4096 ''secret'' = ''secret'' @ replicate 4090 (CHR 0x00)"
    by (simp add: out_buffer_def)
  with android_load_bounded [of android_toy java_load "''s''" "''a''" "[(''s'', ''a'') \<mapsto> ''secret'']"]
  show ?thesis by (simp add: android_toy_def java_load_def)
qed

lemma android_store_load_witness:
  "\<exists>k1 k2. android_store android_toy ''s'' ''a'' (replicate 5000 (CHR ''x'')) (\<lambda>_. None) = (Inr (), k1) \<and>
     android_load android_toy ''s'' ''a'' k1 = (Inr (replicate 4096 (CHR ''x'')), k2)"
  using android_store_load [OF android_toy_up, of "replicate 5000 (CHR ''x'')" "''s''" "''a''" "\<lambda>_. None"] by auto

end
