(* ===== verification/Keychain_Windows.thy ===== *)
theory Keychain_Windows
  imports Keychain
begin

text \<open>
  The Windows backend of \<open>src/keychain/windows.rs\<close>: generic credentials of the Credential Manager. The
  Win32 calls are a parameter; a credential read is allocated by the system and has to be given back
  with \<open>CredFree\<close>, which the parameter counts.
\<close>

section \<open>Wide strings\<close>

text \<open>The code points of well-formed UTF-8, and their UTF-16 units.\<close>

definition code_point :: "bytes \<Rightarrow> nat" where
  "code_point b = (case map byte_val b of
      [a] \<Rightarrow> a
    | [a, b] \<Rightarrow> (a - 192) * 64 + (b - 128)
    | [a, b, c] \<Rightarrow> (a - 224) * 4096 + (b - 128) * 64 + (c - 128)
    | [a, b, c, d] \<Rightarrow> (a - 240) * 262144 + (b - 128) * 4096 + (c - 128) * 64 + (d - 128)
    | _ \<Rightarrow> 65533)"

function code_points :: "string \<Rightarrow> nat list" where
  "code_points [] = []"
| "code_points (c # cs) =
     (let n = fst (utf8_step (c # cs)) in code_point (take n (c # cs)) # code_points (drop (n - 1) cs))"
  by pat_completeness auto
termination
  by (relation "measure length") auto

definition utf16_units :: "nat \<Rightarrow> nat list" where
  "utf16_units p =
     (if p < 65536 then [p] else [55296 + (p - 65536) div 1024, 56320 + (p - 65536) mod 1024])"

type_synonym u16 = "16 word"

definition to_wide_null :: "string \<Rightarrow> u16 list" where
  "to_wide_null s = map of_nat (concat (map utf16_units (code_points s))) @ [0]"

definition credential_target_name :: "string \<Rightarrow> string \<Rightarrow> string" where
  "credential_target_name service account = ''synqro/'' @ service @ ''/'' @ account"

section \<open>The Win32 calls\<close>

text \<open>The outcome of \<open>CredReadW\<close>: failure with the last error, or a pointer that is null or points to a
  credential whose blob pointer may be null.\<close>

datatype cred_read = CredFailed u32 | CredNull | CredAt "bytes option"

record 'k win_api =
  wa_read :: "u16 list \<Rightarrow> 'k \<Rightarrow> cred_read \<times> 'k"
  wa_free :: "'k \<Rightarrow> 'k"
  wa_write :: "u16 list \<Rightarrow> u16 list \<Rightarrow> u16 list \<Rightarrow> u32 \<Rightarrow> bytes \<Rightarrow> 'k \<Rightarrow> u32 option \<times> 'k"
  wa_delete :: "u16 list \<Rightarrow> 'k \<Rightarrow> u32 option \<times> 'k"

definition ERROR_NOT_FOUND :: u32 where "ERROR_NOT_FOUND = 1168"

definition windows_load :: "'k win_api \<Rightarrow> string \<Rightarrow> string \<Rightarrow> ('k, synqro_error, bytes) io" where
  "windows_load api service account k =
     (let target = credential_target_name service account in
      case wa_read api (to_wide_null target) k of (r, k') \<Rightarrow> (case r of
        CredFailed last_err \<Rightarrow>
          if last_err = ERROR_NOT_FOUND then
            (Inl (Keychain (''Windows Credential Manager: credential '' @ [CHR 0x27] @ target @ [CHR 0x27] @ '' not found'')), k')
          else (Inl (Permission (''CredReadW failed for target `'' @ target @ ''`'')), k')
      | CredNull \<Rightarrow> (Inl (Keychain ''CredReadW returned null credential pointer''), k')
      | CredAt blob \<Rightarrow>
          let bytes = (case blob of None \<Rightarrow> [] | Some b \<Rightarrow> b) in (Inr bytes, wa_free api k')))"

definition windows_store :: "'k win_api \<Rightarrow> string \<Rightarrow> string \<Rightarrow> bytes \<Rightarrow> ('k, synqro_error, unit) io" where
  "windows_store api service account secret k =
     (let target = credential_target_name service account;
          blob_size = of_nat (length secret) :: u32 in
      case wa_write api (to_wide_null target) (to_wide_null account) (to_wide_null ''Synqro managed credential'')
             blob_size secret k of
        (None, k') \<Rightarrow> (Inr (), k')
      | (Some last_err, k') \<Rightarrow>
          (Inl (Keychain (''Windows Credential Manager: CredWriteW failed (error '' @ show_nat (unat last_err) @ '')'')), k'))"

definition windows_delete :: "'k win_api \<Rightarrow> string \<Rightarrow> string \<Rightarrow> ('k, synqro_error, unit) io" where
  "windows_delete api service account k =
     (let target = credential_target_name service account in
      case wa_delete api (to_wide_null target) k of
        (None, k') \<Rightarrow> (Inr (), k')
      | (Some last_err, k') \<Rightarrow>
          if last_err = ERROR_NOT_FOUND then (Inr (), k')
          else (Inl (Keychain (''Windows Credential Manager: CredDeleteW failed (error '' @ show_nat (unat last_err) @ '')'')), k'))"

section \<open>The documented behaviour of the Credential Manager\<close>

text \<open>One blob per target name; blobs of up to 2560 bytes can be written, and the size passed says how
  many bytes are taken. \<open>owed k\<close> is the number of credentials allocated and not yet freed.\<close>

definition cred_max_blob :: nat where "cred_max_blob = 2560"

definition credman_works :: "'k win_api \<Rightarrow> ('k \<Rightarrow> u16 list \<Rightarrow> bytes option) \<Rightarrow> bool" where
  "credman_works api view \<longleftrightarrow>
     (\<forall>k t x. view k t = Some x \<longrightarrow>
        (\<exists>b k'. wa_read api t k = (CredAt b, k') \<and> (case b of None \<Rightarrow> [] | Some y \<Rightarrow> y) = x \<and> view k' = view k)) \<and>
     (\<forall>k t. view k t = None \<longrightarrow> (\<exists>k'. wa_read api t k = (CredFailed ERROR_NOT_FOUND, k') \<and> view k' = view k)) \<and>
     (\<forall>k. view (wa_free api k) = view k) \<and>
     (\<forall>k t u c n x. unat n \<le> cred_max_blob \<longrightarrow>
        (\<exists>k'. wa_write api t u c n x k = (None, k') \<and> view k' = (view k)(t \<mapsto> take (unat n) x))) \<and>
     (\<forall>k t. \<exists>r k'. wa_delete api t k = (r, k') \<and> (r = None \<or> r = Some ERROR_NOT_FOUND) \<and> view k' = (view k)(t := None))"

definition counts_owed :: "'k win_api \<Rightarrow> ('k \<Rightarrow> nat) \<Rightarrow> bool" where
  "counts_owed api owed \<longleftrightarrow>
     (\<forall>k t r k'. wa_read api t k = (r, k') \<longrightarrow> owed k' = (case r of CredAt b \<Rightarrow> Suc (owed k) | _ \<Rightarrow> owed k)) \<and>
     (\<forall>k. owed (wa_free api k) = owed k - 1) \<and>
     (\<forall>k t u c n x r k'. wa_write api t u c n x k = (r, k') \<longrightarrow> owed k' = owed k) \<and>
     (\<forall>k t r k'. wa_delete api t k = (r, k') \<longrightarrow> owed k' = owed k)"

definition fits_blob :: "bytes \<Rightarrow> bool" where
  "fits_blob x \<longleftrightarrow> length x \<le> cred_max_blob"

fun windows_err :: "synqro_error \<Rightarrow> bool" where
  "windows_err (Keychain m) = True"
| "windows_err (Permission m) = True"
| "windows_err _ = False"

definition windows_key :: "string \<Rightarrow> string \<Rightarrow> u16 list" where
  "windows_key s a = to_wide_null (credential_target_name s a)"

lemma windows_errs:
  "windows_load api s a k = (Inl e, k') \<Longrightarrow> windows_err e"
  "windows_store api s a x k = (Inl e, k') \<Longrightarrow> windows_err e"
  "windows_delete api s a k = (Inl e, k') \<Longrightarrow> windows_err e"
  by (auto simp: windows_load_def windows_store_def windows_delete_def Let_def
      split: prod.splits cred_read.splits option.splits if_splits)

interpretation windows: keychain_provider
  "windows_load api" "windows_store api" "windows_delete api"
  "credman_works api view" view windows_key "\<lambda>_ _. fits_blob" windows_err
  for api :: "'k win_api" and view
proof unfold_locales
  fix k s a x
  assume up: "credman_works api view" and "view k (windows_key s a) = Some x"
  then obtain b k' where "wa_read api (windows_key s a) k = (CredAt b, k')"
    "(case b of None \<Rightarrow> [] | Some y \<Rightarrow> y) = x" "view k' = view k"
    unfolding credman_works_def by meson
  moreover have "view (wa_free api k') = view k'" using up unfolding credman_works_def by blast
  ultimately show "\<exists>k'. windows_load api s a k = (Inr x, k') \<and> view k' = view k"
    by (simp add: windows_load_def windows_key_def Let_def)
next
  fix k s a
  assume "credman_works api view" "view k (windows_key s a) = None"
  then obtain k' where "wa_read api (windows_key s a) k = (CredFailed ERROR_NOT_FOUND, k')" "view k' = view k"
    unfolding credman_works_def by meson
  then show "\<exists>m k'. windows_load api s a k = (Inl (Keychain m), k') \<and> view k' = view k"
    by (simp add: windows_load_def windows_key_def Let_def)
next
  fix x s a k
  assume up: "credman_works api view" and "fits_blob x"
  then have n: "unat (of_nat (length x) :: u32) = length x" and le: "length x \<le> cred_max_blob"
    by (simp_all add: fits_blob_def cred_max_blob_def unat_of_nat take_bit_nat_eq_self)
  from up have "unat n \<le> cred_max_blob \<Longrightarrow> \<exists>k'. wa_write api t u c n x k = (None, k') \<and> view k' = (view k)(t \<mapsto> take (unat n) x)" for t u c n
    unfolding credman_works_def by blast
  then obtain k' where "wa_write api (windows_key s a) (to_wide_null a) (to_wide_null ''Synqro managed credential'')
      (of_nat (length x)) x k = (None, k')" "view k' = (view k)(windows_key s a \<mapsto> x)"
    using n le by (metis order.refl take_all)
  then show "\<exists>k'. windows_store api s a x k = (Inr (), k') \<and> view k' = (view k)(windows_key s a \<mapsto> x)"
    by (simp add: windows_store_def windows_key_def Let_def)
next
  fix s a k
  assume "credman_works api view"
  then obtain r k' where "wa_delete api (windows_key s a) k = (r, k')" "r = None \<or> r = Some ERROR_NOT_FOUND"
    "view k' = (view k)(windows_key s a := None)"
    unfolding credman_works_def by meson
  then show "\<exists>k'. windows_delete api s a k = (Inr (), k') \<and> view k' = (view k)(windows_key s a := None)"
    by (auto simp: windows_delete_def windows_key_def Let_def)
qed (rule windows_errs; assumption)+

section \<open>Properties\<close>

text \<open>On Windows, with the Credential Manager working as documented, a secret of up to 2560 bytes is
  loaded back unchanged after it is stored, replacing it makes the new one be loaded, and every
  credential the system allocates is freed exactly once, also when calls fail.\<close>

theorem windows_store_load:
  assumes "credman_works api view" "fits_blob x" "fits_blob y" "counts_owed api owed"
  shows "(\<exists>k1 k2. windows_store api s a x k = (Inr (), k1) \<and> windows_load api s a k1 = (Inr x, k2)) \<and>
         (\<exists>k1 k2 k3. windows_store api s a x k = (Inr (), k1) \<and> windows_store api s a y k1 = (Inr (), k2) \<and>
            windows_load api s a k2 = (Inr y, k3)) \<and>
         owed (snd (windows_load api s a k)) = owed k \<and> owed (snd (windows_store api s a x k)) = owed k \<and>
         owed (snd (windows_delete api s a k)) = owed k"
proof (intro conjI)
  show "\<exists>k1 k2. windows_store api s a x k = (Inr (), k1) \<and> windows_load api s a k1 = (Inr x, k2)"
    using windows.store_then_load [OF assms(1,2)] by blast
  show "\<exists>k1 k2 k3. windows_store api s a x k = (Inr (), k1) \<and> windows_store api s a y k1 = (Inr (), k2) \<and>
            windows_load api s a k2 = (Inr y, k3)"
    by (rule windows.store_replaces [OF assms(1-3)])
  obtain r k' where "wa_read api (to_wide_null (credential_target_name s a)) k = (r, k')" by fastforce
  with assms(4) show "owed (snd (windows_load api s a k)) = owed k"
    unfolding counts_owed_def by (cases r) (auto simp: windows_load_def Let_def)
  show "owed (snd (windows_store api s a x k)) = owed k"
    using assms(4) unfolding counts_owed_def
    by (simp add: windows_store_def Let_def split: prod.splits option.splits)
  show "owed (snd (windows_delete api s a k)) = owed k"
    using assms(4) unfolding counts_owed_def
    by (auto simp: windows_delete_def Let_def split: prod.splits option.splits)
qed

section \<open>Witnesses\<close>

definition win_toy :: "((u16 list \<Rightarrow> bytes option) \<times> nat) win_api" where
  "win_toy = \<lparr>wa_read = (\<lambda>t (m, n). case m t of None \<Rightarrow> (CredFailed ERROR_NOT_FOUND, (m, n)) | Some x \<Rightarrow> (CredAt (Some x), (m, Suc n))),
     wa_free = (\<lambda>(m, n). (m, n - 1)),
     wa_write = (\<lambda>t u c n x (m, i). (None, (m(t \<mapsto> take (unat n) x), i))),
     wa_delete = (\<lambda>t (m, n). (None, (m(t := None), n)))\<rparr>"

lemma windows_store_load_witness:
  "\<exists>k1 k2. windows_store win_toy ''synqro'' ''t'' ''secret'' (Map.empty, 0) = (Inr (), k1) \<and>
     windows_load win_toy ''synqro'' ''t'' k1 = (Inr ''secret'', k2)"
proof -
  have "credman_works win_toy fst" by (simp add: credman_works_def win_toy_def)
  moreover have "fits_blob ''secret''" by (simp add: fits_blob_def cred_max_blob_def)
  moreover have "counts_owed win_toy snd"
    by (auto simp: counts_owed_def win_toy_def split: option.splits)
  ultimately show ?thesis
    using windows_store_load [of win_toy fst "''secret''" "''secret''" snd "''synqro''" "''t''" "(Map.empty, 0)"] by blast
qed

end
