(* ===== verification/Keychain_Router.thy ===== *)
theory Keychain_Router
  imports Downloader Keychain_Linux Keychain_Apple Keychain_Android Keychain_Windows
begin

text \<open>
  The router \<open>platform_keychain\<close> of \<open>src/keychain/mod.rs\<close>. Which branch is compiled in is decided by the
  target's operating system, which \<open>e_os\<close> names. A provider is kept as a datatype (the boxed trait object of
  the code); \<open>keychain_of\<close> is its three operations. The operating systems' own stores are parameters.
\<close>

datatype provider = LinuxProvider linux_backend | MacosProvider | WindowsProvider | AndroidProvider | IosProvider

record 'k os_stores =
  os_security :: "'k security_api"
  os_credentials :: "'k win_api"

definition macos_keychain :: "(bytes \<Rightarrow> string) \<Rightarrow> 'k security_api \<Rightarrow> 'k runner \<Rightarrow> 'k keychain" where
  "macos_keychain hexf api run =
     \<lparr>kc_load = macos_load api run, kc_store = macos_store hexf api run, kc_delete = macos_delete api run\<rparr>"

definition ios_keychain :: "'k security_api \<Rightarrow> 'k keychain" where
  "ios_keychain api = \<lparr>kc_load = ios_load api, kc_store = ios_store api, kc_delete = ios_delete api\<rparr>"

definition windows_keychain :: "'k win_api \<Rightarrow> 'k keychain" where
  "windows_keychain api = \<lparr>kc_load = windows_load api, kc_store = windows_store api, kc_delete = windows_delete api\<rparr>"

definition android_provider :: "'k android_keychain \<Rightarrow> 'k keychain" where
  "android_provider ak = \<lparr>kc_load = android_load ak, kc_store = android_store ak, kc_delete = android_delete ak\<rparr>"

definition platform_keychain :: "env \<Rightarrow> ('z, provider) eio" where
  "platform_keychain E =
     (if e_os E = ''linux'' then bindE (linux_new (world_runner E)) (\<lambda>provider. ret (LinuxProvider provider))
      else if e_os E = ''macos'' then ret MacosProvider
      else if e_os E = ''windows'' then ret WindowsProvider
      else if e_os E = ''android'' then ret AndroidProvider
      else if e_os E = ''ios'' then ret IosProvider
      else fail (Permission ''unsupported platform''))"

fun keychain_of :: "env \<Rightarrow> 'z world_scheme os_stores \<Rightarrow> provider \<Rightarrow> 'z world_scheme keychain" where
  "keychain_of E os (LinuxProvider backend) = linux_keychain (world_runner E) backend"
| "keychain_of E os MacosProvider = macos_keychain (e_hex E) (os_security os) (world_runner E)"
| "keychain_of E os WindowsProvider = windows_keychain (os_credentials os)"
| "keychain_of E os AndroidProvider = android_provider android_new"
| "keychain_of E os IosProvider = ios_keychain (os_security os)"

section \<open>Which providers are quiet\<close>

text \<open>The documented behaviour of the stores that are not child processes: reading a secret changes nothing
  the model sees.\<close>

definition stores_quiet :: "'z world_scheme os_stores \<Rightarrow> bool" where
  "stores_quiet os \<longleftrightarrow> (\<forall>s a w. snd (sf_get (os_security os) s a w) = w) \<and>
     (\<forall>t w. snd (wa_read (os_credentials os) t w) = w) \<and> (\<forall>w. wa_free (os_credentials os) w = w)"

definition quiet_step :: "'z world_scheme \<Rightarrow> 'z world_scheme \<Rightarrow> bool" where
  "quiet_step w w' \<longleftrightarrow> w_fs w' = w_fs w \<and> w_dl w' = w_dl w \<and> (\<exists>xs. w_trace w' = w_trace w @ xs \<and> (\<forall>x \<in> set xs. is_cmd x))"

lemma preorder_quiet_step [intro, simp]: "preorder_rel quiet_step"
  unfolding preorder_rel_def
proof (intro conjI reflpI transpI)
  fix a b c :: "'a world_scheme"
  assume "quiet_step a b" "quiet_step b c"
  then obtain xs ys where "w_trace b = w_trace a @ xs" "\<forall>x \<in> set xs. is_cmd x" "w_trace c = w_trace b @ ys" "\<forall>x \<in> set ys. is_cmd x"
    unfolding quiet_step_def by blast
  then have "w_trace c = w_trace a @ (xs @ ys) \<and> (\<forall>x \<in> set (xs @ ys). is_cmd x)" by auto
  with \<open>quiet_step a b\<close> \<open>quiet_step b c\<close> show "quiet_step a c" unfolding quiet_step_def by metis
qed (simp add: quiet_step_def)

lemma quiet_keychain_iff: "quiet_keychain kc \<longleftrightarrow> (\<forall>s a. steps quiet_step (kc_load kc s a))"
  unfolding quiet_keychain_def steps_def quiet_step_def by blast

text \<open>Loading a secret respects every relation that starting a child process respects.\<close>

lemma provider_steps:
  fixes R :: "'z world_scheme \<Rightarrow> 'z world_scheme \<Rightarrow> bool"
  assumes pre: "preorder_rel R" and run: "\<And>c w. R w (snd (world_runner E c w))" and os: "stores_quiet os"
  shows "steps R (kc_load (keychain_of E os p) s a)"
proof -
  have refl: "R w w" for w using pre by (simp add: preorder_rel_def reflpD)
  have get: "steps R (sf_get (os_security os) s a)" for s a
    using os refl by (simp add: stores_quiet_def steps_def)
  show ?thesis
  proof (cases p)
    case (LinuxProvider b)
    have out: "steps R (run_with_timeout (world_runner E) c)" for c
      unfolding run_with_timeout_def steps_def by (simp add: split_beta run)
    show ?thesis
      by (cases b) (auto simp: LinuxProvider linux_keychain_def secret_tool_lookup_def keyctl_read_def Let_def intro!: steps_intro out pre)
  next
    case MacosProvider
    have cli: "steps R (mac_run (world_runner E) c)" for c
      unfolding mac_run_def steps_def by (simp add: split_beta run)
    show ?thesis
      by (auto simp: MacosProvider macos_keychain_def macos_load_def macos_cli_load_def intro!: steps_intro cli get pre)
  next
    case IosProvider
    then show ?thesis by (auto simp: ios_keychain_def ios_load_def intro!: steps_intro get pre)
  next
    case AndroidProvider
    then show ?thesis
      by (simp add: android_provider_def android_load_def android_new_def callback_or_err_def
          jni_env_or_err_def steps_def bindE_def lift_res_def refl)
  next
    case WindowsProvider
    have "snd (windows_load (os_credentials os) s a w) = w" for s a w
      using os by (auto simp: stores_quiet_def windows_load_def Let_def split: prod.splits cred_read.splits option.splits) (metis snd_conv)+
    then show ?thesis by (simp add: WindowsProvider windows_keychain_def steps_def refl)
  qed
qed

lemma quiet_providers: "stores_quiet os \<Longrightarrow> quiet_keychain (keychain_of E os p)"
  unfolding quiet_keychain_iff
  by (intro allI provider_steps preorder_quiet_step) (simp_all add: quiet_step_def world_runner_def)

text \<open>Stores that hold nothing.\<close>

definition empty_stores :: "'k os_stores" where
  "empty_stores = \<lparr>os_security = \<lparr>sf_get = \<lambda>s a w. (Inl errSecItemNotFound, w), sf_set = \<lambda>s a x w. (Inr (), w), sf_delete = \<lambda>s a w. (Inr (), w)\<rparr>,
     os_credentials = \<lparr>wa_read = \<lambda>t w. (CredFailed ERROR_NOT_FOUND, w), wa_free = \<lambda>w. w, wa_write = \<lambda>t u v n b w. (None, w), wa_delete = \<lambda>t w. (None, w)\<rparr>\<rparr>"

lemma quiet_empty_stores: "stores_quiet empty_stores"
  by (simp add: stores_quiet_def empty_stores_def)

lemma quiet_linux: "quiet_keychain (linux_keychain (world_runner E) b)"
  using quiet_providers [OF quiet_empty_stores, of E "LinuxProvider b"] by simp

section \<open>Android\<close>

text \<open>On Android the router's provider never works: it is created without a JNI environment and behind
  the trait nothing can set one, so every load, store and deletion fails with the same error and reaches no
  store.\<close>

theorem android_router_unconfigured:
  assumes "e_os E = ''android''"
  shows "platform_keychain E w = (Inr AndroidProvider, w) \<and>
    (\<exists>m. kc_load (keychain_of E os AndroidProvider) s a w = (Inl (Keychain m), w) \<and>
         kc_store (keychain_of E os AndroidProvider) s a x w = (Inl (Keychain m), w) \<and>
         kc_delete (keychain_of E os AndroidProvider) s a w = (Inl (Keychain m), w))"
  using assms
  by (simp add: platform_keychain_def ret_def android_provider_def android_load_def android_store_def android_delete_def
      android_new_def callback_or_err_def jni_env_or_err_def bindE_def lift_res_def)

lemma android_router_unconfigured_witness:
  "\<exists>m. fst (kc_load (keychain_of (env0\<lparr>e_os := ''android''\<rparr>) (empty_stores :: world os_stores) AndroidProvider) ''synqro'' ''github_token'' (world_of [])) = Inl (Keychain m)"
proof -
  have "e_os (env0\<lparr>e_os := ''android''\<rparr>) = ''android''" by simp
  from android_router_unconfigured [OF this] obtain m where
    "kc_load (keychain_of (env0\<lparr>e_os := ''android''\<rparr>) (empty_stores :: world os_stores) AndroidProvider) ''synqro'' ''github_token'' (world_of []) = (Inl (Keychain m), world_of [])"
    by blast
  then show ?thesis by (metis fst_conv)
qed

end
