(* ===== verification/Artifact.thy ===== *)
theory Artifact
  imports Manifest_Fetch
begin

text \<open>
  Downloading and verifying the artifact of an update (\<open>download_and_verify_artifact\<close> of
  \<open>src/downloader.rs\<close>): the entry for this platform, the capped stream, the staging file, the two
  digests, the signature and the final rename. The digests and the signature are computed on the bytes
  held in memory, the rename publishes the staging file they were written to.
\<close>

section \<open>Which artifact, and where it goes\<close>

definition find_artifact :: "env \<Rightarrow> synqro_manifest \<Rightarrow> synqro_error + artifact_entry" where
  "find_artifact E manifest =
     (let platform_triple = current_platform_triple E in
      ok_or (InvalidInput (''No artifact for platform `'' @ platform_triple @ ''` in manifest''))
        (find (\<lambda>a. ae_platform a = platform_triple) (mf_artifacts manifest)))"

definition artifact_temp :: "path \<Rightarrow> string \<Rightarrow> path" where
  "artifact_temp staging_dir platform = path_join staging_dir (parse_path (''synqro_staging_'' @ platform @ ''.tmp''))"

definition artifact_final :: "path \<Rightarrow> string \<Rightarrow> path" where
  "artifact_final staging_dir platform = path_join staging_dir (parse_path (''synqro_'' @ platform @ ''.bin''))"

section \<open>The stream\<close>

text \<open>\<open>usize\<close> has 64 bits. A chunk that would exceed the limit, or cannot be read, ends the download.\<close>

fun capped_stream :: "u64 \<Rightarrow> bytes \<Rightarrow> (string + bytes) list \<Rightarrow> synqro_error + bytes" where
  "capped_stream max_bytes buf [] = Inr buf"
| "capped_stream max_bytes buf (Inl e # stream) = Inl (Network (''Stream read error: '' @ e))"
| "capped_stream max_bytes buf (Inr chunk # stream) =
     (if min (length buf + length chunk) (2 ^ 64 - 1) > unat max_bytes then
        Inl (InvalidInput (''Artifact exceeds max_payload_size_bytes ('' @ show_nat (unat max_bytes) @ '')''))
      else capped_stream max_bytes (buf @ chunk) stream)"

definition artifact_request :: "artifact_entry \<Rightarrow> string \<Rightarrow> http_request" where
  "artifact_request artifact auth =
     \<lparr>rq_method = ''GET'', rq_url = ae_url artifact, rq_headers = [(''authorization'', auth)]\<rparr>"

definition download_bytes :: "env \<Rightarrow> downloader \<Rightarrow> artifact_entry \<Rightarrow> string \<Rightarrow> ('z, bytes) eio" where
  "download_bytes E dl artifact auth =
     bindE (map_err (\<lambda>e. Network (''Artifact download failed: '' @ e)) (client_send E dl (artifact_request artifact auth))) (\<lambda>resp.
     if \<not> is_success (rs_status resp) then
       fail (Network (''HTTP '' @ e_status_text E (rs_status resp) @ '' downloading artifact''))
     else lift_res (capped_stream (uc_max_payload_size_bytes (dl_update_config dl)) [] (rs_chunks resp)))"

section \<open>Staging and verification\<close>

definition stage_artifact :: "env \<Rightarrow> path \<Rightarrow> bytes \<Rightarrow> ('z, unit) eio" where
  "stage_artifact E temp_path downloaded_bytes =
     bindE (map_err (\<lambda>e. Permission (''Cannot create staging file: '' @ e)) (file_create E temp_path)) (\<lambda>_.
     bindE (map_err (\<lambda>e. Internal (''Staging file write failed: '' @ e)) (write_all E temp_path downloaded_bytes)) (\<lambda>_.
     map_err (\<lambda>e. Internal (''Staging file flush failed: '' @ e)) (file_flush E temp_path)))"

text \<open>A digest that differs removes the staging file and counts as a failure.\<close>

definition check_digest :: "env \<Rightarrow> downloader \<Rightarrow> path \<Rightarrow> string \<Rightarrow> string \<Rightarrow> string \<Rightarrow> ('z, unit) eio" where
  "check_digest E dl temp_path algorithm expected actual =
     (if actual \<noteq> expected then
        bindE (ignore (remove_file E temp_path)) (\<lambda>_.
        bindE (ignore (audit_log E (dl_audit dl) PayloadHashFail (json_obj
          [(''algorithm'', JString algorithm), (''expected'', JString expected), (''actual'', JString actual)]))) (\<lambda>_.
        bindE (record_failure E dl) (\<lambda>_.
        fail (Crypto (algorithm @ '' hash mismatch on downloaded artifact'')))))
      else ret ())"

definition verify_artifact_sig :: "env \<Rightarrow> downloader \<Rightarrow> artifact_entry \<Rightarrow> path \<Rightarrow> bytes \<Rightarrow> ('z, unit) eio" where
  "verify_artifact_sig E dl artifact temp_path downloaded_bytes =
     bindE (lift_res (decode_signature E ''Artifact'' (ae_sig_ed25519 artifact))) (\<lambda>artifact_sig.
     bindE (lift_res (release_key E (dl_crypto_config dl))) (\<lambda>verifying_key.
     on_err (\<lambda>e w. (Signature (''Artifact Ed25519 verification failed: '' @ e),
                     snd (record_failure E dl
                      (snd (audit_log E (dl_audit dl) PayloadSignatureFail (json_obj [(''reason'', JString e)])
                        (snd (remove_file E temp_path w)))))))
       (lift_res (e_verify_strict E verifying_key downloaded_bytes artifact_sig))))"

definition verify_payload :: "env \<Rightarrow> downloader \<Rightarrow> artifact_entry \<Rightarrow> path \<Rightarrow> bytes \<Rightarrow> ('z, unit) eio" where
  "verify_payload E dl artifact temp_path downloaded_bytes =
     (let actual_sha256 = e_hex E (e_sha256 E downloaded_bytes);
          actual_sha512 = e_hex E (e_sha512 E downloaded_bytes) in
      bindE (check_digest E dl temp_path ''SHA-256'' (ae_sha256 artifact) actual_sha256) (\<lambda>_.
      bindE (check_digest E dl temp_path ''SHA-512'' (ae_sha512 artifact) actual_sha512) (\<lambda>_.
      bindE (ignore (audit_log E (dl_audit dl) PayloadHashOk (json_obj []))) (\<lambda>_.
      verify_artifact_sig E dl artifact temp_path downloaded_bytes))))"

text \<open>Everything after the download.\<close>

definition install_artifact :: "env \<Rightarrow> downloader \<Rightarrow> artifact_entry \<Rightarrow> path \<Rightarrow> path \<Rightarrow> bytes \<Rightarrow> ('z, path) eio" where
  "install_artifact E dl artifact temp_path final_path downloaded_bytes =
     bindE (stage_artifact E temp_path downloaded_bytes) (\<lambda>_.
     bindE (verify_payload E dl artifact temp_path downloaded_bytes) (\<lambda>_.
     bindE (publish E temp_path final_path (\<lambda>e. Permission (''Atomic rename failed: '' @ e))) (\<lambda>_.
     bindE (record_success dl) (\<lambda>_. ret final_path))))"

definition download_and_verify_artifact ::
    "env \<Rightarrow> downloader \<Rightarrow> synqro_manifest \<Rightarrow> path \<Rightarrow> 'z world_scheme keychain \<Rightarrow> ('z, path) eio" where
  "download_and_verify_artifact E dl manifest staging_dir keychain =
     bindE (check_degraded dl) (\<lambda>_.
     bindE (lift_res (find_artifact E manifest)) (\<lambda>artifact.
     let temp_path = artifact_temp staging_dir (ae_platform artifact);
         final_path = artifact_final staging_dir (ae_platform artifact) in
     bindE (load_token_for_request E dl keychain) (\<lambda>token.
     bindE (lift_res (auth_value E ''Invalid chars in token'' token)) (\<lambda>auth.
     bindE (map_err (\<lambda>e. Internal (''Tokio runtime build: '' @ e)) (runtime_build E)) (\<lambda>_.
     bindE (attempt (download_bytes E dl artifact auth)) (\<lambda>downloaded_bytes_res. case downloaded_bytes_res of
       Inr downloaded_bytes \<Rightarrow> install_artifact E dl artifact temp_path final_path downloaded_bytes
     | Inl e \<Rightarrow> bindE (ignore (remove_file E temp_path)) (\<lambda>_. bindE (record_failure E dl) (\<lambda>_. fail e))))))))"

section \<open>What a payload must be\<close>

definition payload_ok :: "env \<Rightarrow> downloader \<Rightarrow> artifact_entry \<Rightarrow> bytes \<Rightarrow> bool" where
  "payload_ok E dl a b \<longleftrightarrow>
     e_hex E (e_sha256 E b) = ae_sha256 a \<and> e_hex E (e_sha512 E b) = ae_sha512 a \<and>
     (\<exists>signature key. decode_signature E ''Artifact'' (ae_sig_ed25519 a) = Inr signature \<and>
        release_key E (dl_crypto_config dl) = Inr key \<and> e_verify_strict E key b signature = Inr ())"

text \<open>The limit of the configuration; the largest \<open>u64\<close> means none.\<close>

definition within_limit :: "downloader \<Rightarrow> bytes \<Rightarrow> bool" where
  "within_limit dl b \<longleftrightarrow>
     (let limit = uc_max_payload_size_bytes (dl_update_config dl) in limit = - 1 \<or> length b \<le> unat limit)"

lemma capped_stream_Inr:
  "capped_stream m buf cs = Inr b \<Longrightarrow> m = - 1 \<or> length buf \<le> unat m \<Longrightarrow> m = - 1 \<or> length b \<le> unat m"
proof (induction m buf cs rule: capped_stream.induct)
  case (3 m buf chunk stream)
  have "unat m < 2 ^ LENGTH(64)" by (rule unsigned_less)
  then have "m \<noteq> - 1 \<Longrightarrow> unat m < 2 ^ 64 - 1"
    using unat_all_ones [where 'n = 64] word_unat_eq_iff [of m "- 1"] by simp
  with 3 show ?case by (auto split: if_splits)
qed auto

lemma download_bytes_Inr:
  "download_bytes E dl a auth w = (Inr b, w') \<Longrightarrow> within_limit dl b"
  unfolding within_limit_def Let_def
  by (auto simp: download_bytes_def run_iff dest!: capped_stream_Inr split: if_splits)

lemma verify_payload_Inr:
  assumes "verify_payload E dl a temp b w = (Inr x, w')"
  shows "payload_ok E dl a b" "fs_only {al_file (dl_audit dl)} w w'"
  using assms
  by (auto simp: verify_payload_def check_digest_def verify_artifact_sig_def payload_ok_def Let_def run_iff
      intro: steps_snd [OF steps_audit_log] split: if_splits)

lemma stage_artifact_Inr: "stage_artifact E temp b w = (Inr x, w') \<Longrightarrow> file_at w' (resolve E temp) = Some b"
proof -
  assume "stage_artifact E temp b w = (Inr x, w')"
  then obtain w1 w2 where c: "file_create E temp w = (Inr (), w1)" and wr: "write_all E temp b w1 = (Inr (), w2)"
    and fl: "file_flush E temp w2 = (Inr x, w')"
    by (auto simp: stage_artifact_def run_iff)
  from file_create_Inr [OF c] obtain m where "w_fs w1 (resolve E temp) = Some (File [] m)" ..
  from write_all_Inr [OF wr this] have "file_at w2 (resolve E temp) = Some b" by (simp add: file_at_def)
  moreover have "w_fs w' = w_fs w2" using fl by (auto simp: file_flush_def dest!: sys_Inr)
  ultimately show ?thesis by (simp add: file_at_def)
qed

lemma steps_stage_artifact: "resolve E temp \<in> S \<Longrightarrow> steps (fs_only S) (stage_artifact E temp b)"
  unfolding stage_artifact_def
  by (intro steps_bindE steps_map_err steps_file_create steps_write_all steps_file_flush preorder_fs_only)

end
