(* ===== verification/Engine.thy ===== *)
theory Engine
  imports Config_File Keychain_Router Artifact Snapshot_Roundtrip Result_FFI
begin

text \<open>
  The engine of \<open>src/lib.rs\<close>: the process-global cell that \<open>synqro_init\<close> fills once, and the functions of
  the C interface. Each of them is its closure, which returns a result, inside \<open>catch_all\<close>, which turns the
  result into what a C caller gets. The one thing in the closures that can panic is the creation of a
  downloader (\<open>downloader_new\<close>).
\<close>

section \<open>The engine cell\<close>

record engine =
  en_config :: synqro_config
  en_audit :: audit_logger
  en_keychain :: provider

record engine_world = world + w_engine :: "engine option"

type_synonym ('z, 'a) eng = "('z engine_world_scheme, synqro_error, 'a) io"

type_synonym ('z, 'a) closure = "('z engine_world_scheme, synqro_error exn, 'a) io"

definition get_engine :: "('z, engine) eng" where
  "get_engine = (\<lambda>w. case w_engine w of
     Some engine \<Rightarrow> ret engine w | None \<Rightarrow> fail (Config ''synqro_init() has not been called'') w)"

text \<open>\<open>OnceLock::set\<close>: the first value stays.\<close>

definition engine_set :: "engine \<Rightarrow> ('z, unit) eng" where
  "engine_set engine = (\<lambda>w. case w_engine w of
     None \<Rightarrow> ret () (w\<lparr>w_engine := Some engine\<rparr>)
   | Some _ \<Rightarrow> fail (Config ''synqro_init() called more than once'') w)"

section \<open>synqro_init\<close>

definition init_closure :: "env \<Rightarrow> bytes option \<Rightarrow> ('z, unit) eng" where
  "init_closure E config_path =
     bindE (lift_res (decode_cstr config_path ''config_path'')) (\<lambda>path_str.
     bindE (load_config E (parse_path path_str)) (\<lambda>config.
     bindE (platform_keychain E) (\<lambda>keychain.
     bindE (audit_new E (cfg_logging config) (cfg_installation_id config)) (\<lambda>audit.
     bindE (engine_set \<lparr>en_config = config, en_audit = audit, en_keychain = keychain\<rparr>) (\<lambda>_.
     audit_log E audit SynqroInit (json_obj [(''version'', JString SYNQRO_VERSION)]))))))"

definition synqro_init :: "env \<Rightarrow> bytes option \<Rightarrow> 'z engine_world_scheme \<Rightarrow> synqro_result \<times> 'z engine_world_scheme" where
  "synqro_init E config_path = catch_all (no_panic (init_closure E config_path))"

section \<open>synqro_check_update\<close>

definition engine_downloader :: "env \<Rightarrow> engine \<Rightarrow> ('z, downloader) pio" where
  "engine_downloader E engine =
     (let cfg = en_config engine in
      downloader_new E (cfg_update cfg) (cfg_source cfg) (cfg_installation_id cfg) (cfg_crypto cfg) (en_audit engine))"

definition check_update_closure :: "env \<Rightarrow> 'z engine_world_scheme os_stores \<Rightarrow> ('z, unit) closure" where
  "check_update_closure E os =
     bindE (no_panic get_engine) (\<lambda>engine.
     bindE (no_panic (audit_log E (en_audit engine) UpdateCheckStarted (json_obj []))) (\<lambda>_.
     bindE (engine_downloader E engine) (\<lambda>downloader. no_panic (
     bindE (fetch_and_verify_manifest E downloader (keychain_of E os (en_keychain engine))) (\<lambda>manifest.
     audit_log E (en_audit engine) UpdateAvailable (json_obj [(''version'', JString (mf_version manifest))]))))))"

definition synqro_check_update :: "env \<Rightarrow> 'z engine_world_scheme os_stores \<Rightarrow> 'z engine_world_scheme \<Rightarrow> synqro_result \<times> 'z engine_world_scheme" where
  "synqro_check_update E os = catch_all (check_update_closure E os)"

section \<open>synqro_apply_update\<close>

definition derive_hmac_key :: "env \<Rightarrow> string \<Rightarrow> synqro_error + bytes" where
  "derive_hmac_key E installation_id =
     map_inl (\<lambda>e. Crypto (''HKDF expand failed: '' @ e)) (e_hkdf E ''synqro-audit-v1'' installation_id ''hmac-key'' 32)"

definition deployed_name :: "path \<Rightarrow> string" where
  "deployed_name p = (case file_name p of Some n \<Rightarrow> from_utf8_lossy n | None \<Rightarrow> [])"

definition staging_of :: "engine \<Rightarrow> path" where
  "staging_of engine = parse_path (uc_staging_dir (cfg_update (en_config engine)))"

definition backup_of :: "engine \<Rightarrow> path" where
  "backup_of engine = parse_path (uc_backup_dir (cfg_update (en_config engine)))"

definition apply_update_with :: "env \<Rightarrow> 'z engine_world_scheme os_stores \<Rightarrow> engine \<Rightarrow> ('z, unit) closure" where
  "apply_update_with E os engine =
     (let cfg = en_config engine; keychain = keychain_of E os (en_keychain engine) in
      bindE (engine_downloader E engine) (\<lambda>downloader. no_panic (
      bindE (fetch_and_verify_manifest E downloader keychain) (\<lambda>manifest.
      bindE (map_err (\<lambda>e. Permission (''Cannot create staging dir: '' @ e)) (create_dir_all E (e_mkdir_mode E) (staging_of engine))) (\<lambda>_.
      bindE (lift_res (derive_hmac_key E (cfg_installation_id cfg))) (\<lambda>hmac_key.
      bindE (lift_res (map_inl (\<lambda>e. Internal (''Cannot determine current exe: '' @ e)) (e_exe E))) (\<lambda>current_exe.
      bindE (take_snapshot E (mf_version manifest) [current_exe] (backup_of engine) hmac_key) (\<lambda>_.
      bindE (download_and_verify_artifact E downloader manifest (staging_of engine) keychain) (\<lambda>deployed_path.
      bindE (audit_log E (en_audit engine) UpdateApplied (json_obj
        [(''version'', JString (mf_version manifest)), (''path'', JString (deployed_name deployed_path))])) (\<lambda>_.
      let grace = rc_health_check_timeout_seconds (cfg_rollback cfg) in
      ignore (start_watchdog E (e_pid E) grace (grace div 2))))))))))))"

definition apply_update_closure :: "env \<Rightarrow> 'z engine_world_scheme os_stores \<Rightarrow> ('z, unit) closure" where
  "apply_update_closure E os = bindE (no_panic get_engine) (apply_update_with E os)"

definition synqro_apply_update :: "env \<Rightarrow> 'z engine_world_scheme os_stores \<Rightarrow> 'z engine_world_scheme \<Rightarrow> synqro_result \<times> 'z engine_world_scheme" where
  "synqro_apply_update E os = catch_all (apply_update_closure E os)"

section \<open>synqro_rollback\<close>

text \<open>Entries that cannot be read are skipped, only directories count, their names lose the leading \<open>v\<close>;
  the versions are sorted in descending order of their bytes.\<close>

fun backup_version :: "(string \<times> bool) option \<Rightarrow> string option" where
  "backup_version (Some (name, dir)) =
     (if dir then (case from_utf8_lossy name of (c # cs) \<Rightarrow> if c = CHR ''v'' then Some cs else None | [] \<Rightarrow> None) else None)"
| "backup_version None = None"

definition backup_versions :: "(string \<times> bool) option list \<Rightarrow> string list" where
  "backup_versions entries = List.map_filter backup_version entries"

definition most_recent_backup_version :: "env \<Rightarrow> path \<Rightarrow> ('z, string) eio" where
  "most_recent_backup_version E backup_dir =
     bindE (map_err (\<lambda>e. Rollback (''Cannot read backup dir: '' @ e)) (read_dir E backup_dir)) (\<lambda>entries.
     let versions = rev (sort (backup_versions entries)) in
     lift_res (case versions of v # _ \<Rightarrow> Inr v | [] \<Rightarrow> Inl (Rollback ''No backup versions found'')))"

definition rollback_closure :: "env \<Rightarrow> ('z, unit) eng" where
  "rollback_closure E =
     bindE get_engine (\<lambda>engine.
     let cfg = en_config engine in
     bindE (audit_log E (en_audit engine) RollbackTriggered (json_obj [])) (\<lambda>_.
     bindE (lift_res (derive_hmac_key E (cfg_installation_id cfg))) (\<lambda>hmac_key.
     let backup_dir = backup_of engine in
     bindE (most_recent_backup_version E backup_dir) (\<lambda>version.
     rollback E version backup_dir hmac_key (en_audit engine)))))"

definition synqro_rollback :: "env \<Rightarrow> 'z engine_world_scheme \<Rightarrow> synqro_result \<times> 'z engine_world_scheme" where
  "synqro_rollback E = catch_all (no_panic (rollback_closure E))"

section \<open>The other functions\<close>

text \<open>The static text behind the pointer.\<close>

definition synqro_version :: string where
  "synqro_version = (case cstring_new SYNQRO_VERSION of Some s \<Rightarrow> s | None \<Rightarrow> ''unknown'')"

text \<open>A pointer; zero is null.\<close>

definition synqro_installation_id :: "'z engine_world_scheme \<Rightarrow> nat \<times> 'z engine_world_scheme" where
  "synqro_installation_id w = (case get_engine w of
     (Inl e, w) \<Rightarrow> (0, w)
   | (Inr engine, w) \<Rightarrow> (case cstring_new (cfg_installation_id (en_config engine)) of
        None \<Rightarrow> (0, w) | Some s \<Rightarrow> into_raw s w))"

definition audit_event_closure :: "env \<Rightarrow> bytes option \<Rightarrow> bytes option \<Rightarrow> ('z, unit) eng" where
  "audit_event_closure E event_type data_json =
     bindE (lift_res (decode_cstr event_type ''event_type'')) (\<lambda>event_name.
     bindE (lift_res (if data_json = None then Inr (json_obj [])
        else bind_res (decode_cstr data_json ''data_json'') (\<lambda>json_str.
             map_inl (\<lambda>e. InvalidInput (''data_json is not valid JSON: '' @ e)) (e_json_parse E json_str)))) (\<lambda>data.
     bindE get_engine (\<lambda>engine.
     bindE (lift_res (ok_or (InvalidInput (''Unknown audit event type: `'' @ event_name @ ''`'')) (event_from_str event_name))) (\<lambda>event.
     audit_log E (en_audit engine) event data))))"

definition synqro_audit_event :: "env \<Rightarrow> bytes option \<Rightarrow> bytes option \<Rightarrow> 'z engine_world_scheme \<Rightarrow> synqro_result \<times> 'z engine_world_scheme" where
  "synqro_audit_event E event_type data_json = catch_all (no_panic (audit_event_closure E event_type data_json))"

definition health_check_closure :: "env \<Rightarrow> ('z, unit) closure" where
  "health_check_closure E =
     bindE (no_panic get_engine) (\<lambda>engine.
     bindE (engine_downloader E engine) (\<lambda>downloader.
     no_panic (connectivity_check E downloader)))"

definition synqro_health_check :: "env \<Rightarrow> 'z engine_world_scheme \<Rightarrow> synqro_result \<times> 'z engine_world_scheme" where
  "synqro_health_check E = catch_all (health_check_closure E)"

end
