(* ===== verification/Artifact_Facts.thy ===== *)
theory Artifact_Facts
  imports Artifact Manifest_Facts
begin

text \<open>
  What a downloader guarantees. The locale \<open>effect_relation\<close> carries any reflexive and transitive
  relation on worlds that the single effects of a downloader respect through its helpers, and
  \<open>downloader_relation\<close>, with a keychain that respects it too, through its three operations; it is used
  for the files a downloader may change and for the machine of its two atomics.
\<close>

lemma steps_bind_res:
  "preorder_rel R \<Longrightarrow> (\<And>x. r = Inr x \<Longrightarrow> steps R (k x)) \<Longrightarrow> steps R (bindE (lift_res r) k)"
  by (cases r) (simp_all add: steps_def bindE_def lift_res_def preorder_rel_def reflpD)

section \<open>Relations the operations respect\<close>

locale effect_relation =
  fixes R :: "'z world_scheme \<Rightarrow> 'z world_scheme \<Rightarrow> bool"
    and E :: env
    and dl :: downloader
    and S :: "names set"
  assumes pre: "preorder_rel R"
    and files: "fs_only S w w' \<Longrightarrow> R w w'"
    and outside: "(\<And>h. EvHop h \<in> set xs \<Longrightarrow> hop_verified E (client_verifier dl) h) \<Longrightarrow>
      R w (w\<lparr>w_tick := t, w_trace := w_trace w @ xs\<rparr>)"
    and log_file: "al_file (dl_audit dl) \<in> S"
    and failure: "steps R (record_failure E dl)"
    and success: "steps R (record_success dl)"
begin

lemma on_files: "steps (fs_only S) m \<Longrightarrow> steps R m"
  by (erule steps_mono) (rule files)

lemma on_log: "steps R (audit_log E (dl_audit dl) ev d)"
  by (rule on_files, rule steps_fs_only_mono [OF steps_audit_log]) (simp add: log_file)

lemma on_request: "steps R (client_send E dl r)"
  by (rule steps_client_send [OF pre on_log outside])

lemma on_pause: "steps R (bindE (backoff_duration E dl n) sleep_for)"
proof -
  have "R w (w\<lparr>w_tick := t, w_trace := w_trace w @ [EvSleep s]\<rparr>)" for w t s by (rule outside) simp
  then show ?thesis
    by (simp add: steps_def backoff_duration_def Let_def bindE_def gen_upto_def ret_def sleep_for_def)
qed

lemma on_check_degraded: "steps R (check_degraded dl)"
  using pre by (simp add: check_degraded_def steps_def ret_def fail_def preorder_rel_def reflpD)

lemma on_runtime: "steps R (runtime_build E)"
  by (rule on_files [OF steps_runtime_build])

lemma on_connectivity: "steps R (connectivity_check E dl)"
  unfolding connectivity_check_def Let_def
  by (intro steps_bindE steps_map_err on_runtime on_request steps_ret pre)

lemma on_download_bytes: "steps R (download_bytes E dl a auth)"
  unfolding download_bytes_def
  by (intro steps_bindE steps_map_err steps_if steps_fail steps_lift_res on_request pre)

lemma on_check_digest: "resolve E temp \<in> S \<Longrightarrow> steps R (check_digest E dl temp alg x y)"
  unfolding check_digest_def
  by (intro steps_if steps_bindE steps_ignore steps_fail steps_ret on_log failure pre on_files [OF steps_remove_file])

lemma trans: "R x y \<Longrightarrow> R y z \<Longrightarrow> R x z"
  using pre by (auto simp: preorder_rel_def dest: transpD)

lemma on_verify_artifact_sig:
  assumes "resolve E temp \<in> S"
  shows "steps R (verify_artifact_sig E dl a temp b)"
proof -
  have rm: "R w (snd (remove_file E temp w))" for w
    by (rule steps_snd [OF on_files [OF steps_remove_file [OF assms]]])
  have lg: "R w (snd (audit_log E (dl_audit dl) ev d w))" for w ev d
    by (rule steps_snd [OF on_log])
  have undo: "R w (snd (record_failure E dl (snd (audit_log E (dl_audit dl) ev d (snd (remove_file E temp w))))))" for w ev d
    by (rule trans [OF rm], rule trans [OF lg], rule steps_snd [OF failure])
  show ?thesis
    unfolding verify_artifact_sig_def
    by (rule steps_bindE [OF pre steps_lift_res [OF pre]], rule steps_bindE [OF pre steps_lift_res [OF pre]],
        rule steps_on_err [OF pre steps_lift_res [OF pre]], unfold snd_conv, rule undo)
qed

lemma on_verify_payload: "resolve E temp \<in> S \<Longrightarrow> steps R (verify_payload E dl a temp b)"
  unfolding verify_payload_def Let_def
  by (intro steps_bindE steps_ignore on_check_digest on_verify_artifact_sig on_log pre)

lemma on_install: "resolve E temp \<in> S \<Longrightarrow> resolve E final \<in> S \<Longrightarrow> steps R (install_artifact E dl a temp final b)"
  unfolding install_artifact_def
  by (intro steps_bindE steps_ret on_verify_payload success pre
      on_files [OF steps_stage_artifact] on_files [OF steps_publish])

end

locale downloader_relation = effect_relation R E dl S
  for R :: "'z world_scheme \<Rightarrow> 'z world_scheme \<Rightarrow> bool" and E dl S +
  fixes kc :: "'z world_scheme keychain"
  assumes token: "steps R (kc_load kc s a)"
begin

lemma on_token: "steps R (load_token_for_request E dl kc)"
  unfolding load_token_for_request_def
  by (intro steps_bindE steps_log_err steps_if steps_ret steps_fail pre token on_log)

lemma on_fetch_once: "steps R (fetch_manifest_once E dl kc)"
proof -
  have "steps R (accept_manifest E dl b)" for b
    by (rule on_files [OF steps_fs_only_mono [OF accept_manifest_effects]]) (simp add: log_file)
  then show ?thesis
    unfolding fetch_manifest_once_def by (intro steps_bindE steps_lift_res steps_map_err on_token on_request pre)
qed

lemma on_fetch_attempts: "steps R (fetch_attempts E dl kc rs e)"
proof (induction rs arbitrary: e)
  case (Cons r rs)
  show ?case
    unfolding fetch_attempts.simps
    by (intro steps_bindE steps_if steps_case_sum steps_attempt steps_ret on_pause on_fetch_once failure success pre Cons.IH)
qed (simp add: steps_fail pre)

lemma on_fetch: "steps R (fetch_and_verify_manifest E dl kc)"
  unfolding fetch_and_verify_manifest_def fetch_manifest_internal_def
  by (intro steps_bindE steps_map_err on_runtime on_check_degraded on_fetch_attempts pre)

lemma on_download:
  assumes "resolve E (artifact_temp dir (current_platform_triple E)) \<in> S"
    "resolve E (artifact_final dir (current_platform_triple E)) \<in> S"
  shows "steps R (download_and_verify_artifact E dl manifest dir kc)"
proof -
  have p: "find_artifact E manifest = Inr a \<Longrightarrow> ae_platform a = current_platform_triple E" for a
    by (auto simp: find_artifact_def Let_def ok_or_def find_Some_iff split: option.splits)
  show ?thesis
    unfolding download_and_verify_artifact_def Let_def
    by (intro steps_bindE [OF pre on_check_degraded] steps_bind_res [OF pre])
       (intro steps_bindE steps_lift_res steps_map_err steps_attempt steps_case_sum steps_ignore steps_fail
         on_token on_runtime on_download_bytes on_install failure on_files [OF steps_remove_file] pre;
        simp add: p assms)
qed

end

section \<open>The relations\<close>

lemma within_effects: "al_file (dl_audit dl) \<in> S \<Longrightarrow> effect_relation (fs_within S) E dl S"
  by unfold_locales
     (auto simp: fs_within_def fs_only_same intro: steps_within_record_failure steps_within_record_success)

lemma within_relation:
  "quiet_keychain kc \<Longrightarrow> al_file (dl_audit dl) \<in> S \<Longrightarrow> downloader_relation (fs_within S) E dl S kc"
  by (intro downloader_relation.intro within_effects downloader_relation_axioms.intro quiet_load)

lemma cells_effects: "effect_relation (moves_cells (dl_atomics dl)) E dl UNIV"
proof unfold_locales
  show "fs_only UNIV w w' \<Longrightarrow> moves_cells (dl_atomics dl) w w'" for w w' :: "'a world_scheme"
    by (simp add: moves_cells_def fs_only_dl)
qed (simp_all add: steps_record_failure steps_record_success, simp add: moves_cells_def)

interpretation cells: effect_relation "moves_cells (dl_atomics dl)" E dl UNIV for dl E
  by (rule cells_effects)

lemma cells_relation: "quiet_keychain kc \<Longrightarrow> downloader_relation (moves_cells (dl_atomics dl)) E dl UNIV kc"
  by (intro downloader_relation.intro cells_effects downloader_relation_axioms.intro quiet_load)

section \<open>The artifact that is published\<close>

lemma temp_not_final:
  assumes "CHR ''/'' \<notin> set p"
  shows "resolve E (artifact_temp dir p) \<noteq> resolve E (artifact_final dir p)"
proof -
  have "plain_name (''synqro_staging_'' @ p @ ''.tmp'')" "plain_name (''synqro_'' @ p @ ''.bin'')"
    using assms by (auto simp: plain_name_def)
  then have "resolve E (artifact_temp dir p) = resolve E dir @ [''synqro_staging_'' @ p @ ''.tmp'']"
    "resolve E (artifact_final dir p) = resolve E dir @ [''synqro_'' @ p @ ''.bin'']"
    unfolding artifact_temp_def artifact_final_def
    by (simp_all only: parse_plain_name path_join_normal resolve_def resolve_from_append resolve_from.simps)
  moreover have "last (''synqro_staging_'' @ p @ ''.tmp'') \<noteq> last (''synqro_'' @ p @ ''.bin'')" by simp
  ultimately show ?thesis by auto
qed

text \<open>Installing: the final file keeps its content or receives the verified bytes.\<close>

lemma install_final:
  assumes run: "install_artifact E dl a temp final b w = (r, w')"
    and ne: "resolve E temp \<noteq> resolve E final" and lg: "al_file (dl_audit dl) \<notin> {resolve E temp, resolve E final}"
  shows "file_at w' (resolve E final) = file_at w (resolve E final) \<or> payload_ok E dl a b \<and> file_at w' (resolve E final) = Some b"
    and "r = Inr p \<Longrightarrow> p = final \<and> payload_ok E dl a b \<and> file_at w' (resolve E final) = Some b"
proof -
  let ?S = "{resolve E temp, al_file (dl_audit dl)}"
  have keep: "steps (fs_within ?S) m \<Longrightarrow> m v = (x, v') \<Longrightarrow> file_at v' (resolve E final) = file_at v (resolve E final)"
    for m :: "('a, unit) eio" and v x v'
    using stepsD [of "fs_within ?S" m v x v'] ne lg by (auto simp: fs_within_def file_at_def)
  obtain q1 w1 where st: "stage_artifact E temp b w = (q1, w1)" by fastforce
  have k1: "file_at w1 (resolve E final) = file_at w (resolve E final)"
    using keep [OF steps_within [OF steps_stage_artifact [OF insertI1] order_refl] st] by simp
  obtain q2 w2 where vf: "verify_payload E dl a temp b w1 = (q2, w2)" by fastforce
  have k2: "file_at w2 (resolve E final) = file_at w1 (resolve E final)"
    using keep [OF effect_relation.on_verify_payload [OF within_effects] vf] by simp
  obtain q3 w3 where pb: "publish E temp final (\<lambda>e. Permission (''Atomic rename failed: '' @ e)) w2 = (q3, w3)" by fastforce
  have rest: "(case q1 of Inl e \<Rightarrow> (Inl e, w1) | Inr _ \<Rightarrow> case q2 of Inl e \<Rightarrow> (Inl e, w2) | Inr _ \<Rightarrow>
      case q3 of Inl e \<Rightarrow> (Inl e, w3) | Inr _ \<Rightarrow> (Inr final, snd (record_success dl w3))) = (r, w')"
    using run st vf pb by (auto simp: install_artifact_def bindE_def record_success_def ret_def split: sum.splits)
  have succ: "file_at (snd (record_success dl w3)) q = file_at w3 q" for q
    by (simp add: record_success_def ret_def set_cells_def file_at_def)
  have all: "payload_ok E dl a b \<and> file_at w2 (resolve E temp) = Some b" if "q1 = Inr ()" "q2 = Inr ()"
    using stage_artifact_Inr [of E temp b w "()" w1] verify_payload_Inr [of E dl a temp b w1 "()" w2] st vf that lg fs_only_file_at
    by fastforce
  show "file_at w' (resolve E final) = file_at w (resolve E final) \<or> payload_ok E dl a b \<and> file_at w' (resolve E final) = Some b"
    using rest k1 k2 all publish_dest [OF pb ne] succ by (auto split: sum.splits)
  show "r = Inr p \<Longrightarrow> p = final \<and> payload_ok E dl a b \<and> file_at w' (resolve E final) = Some b"
    using rest all publish_Inr [OF _ ne, of "\<lambda>e. Permission (''Atomic rename failed: '' @ e)" w2 "()" w3] pb succ
    by (auto simp: file_at_def split: sum.splits)
qed

lemma find_artifact_platform: "find_artifact E manifest = Inr a \<Longrightarrow> ae_platform a = current_platform_triple E"
  by (auto simp: find_artifact_def Let_def ok_or_def find_Some_iff split: option.splits)

text \<open>The operation is its part up to the end of the download, then the handling of the result.\<close>

definition download_part :: "env \<Rightarrow> downloader \<Rightarrow> synqro_manifest \<Rightarrow> 'z world_scheme keychain \<Rightarrow> ('z, artifact_entry \<times> (synqro_error + bytes)) eio" where
  "download_part E dl manifest kc =
     bindE (check_degraded dl) (\<lambda>_. bindE (lift_res (find_artifact E manifest)) (\<lambda>a.
     bindE (load_token_for_request E dl kc) (\<lambda>token. bindE (lift_res (auth_value E ''Invalid chars in token'' token)) (\<lambda>auth.
     bindE (map_err (\<lambda>e. Internal (''Tokio runtime build: '' @ e)) (runtime_build E)) (\<lambda>_.
     bindE (attempt (download_bytes E dl a auth)) (\<lambda>res. ret (a, res)))))))"

definition download_rest :: "env \<Rightarrow> downloader \<Rightarrow> path \<Rightarrow> artifact_entry \<times> (synqro_error + bytes) \<Rightarrow> ('z, path) eio" where
  "download_rest E dl dir p =
     (let temp = artifact_temp dir (ae_platform (fst p)); final = artifact_final dir (ae_platform (fst p)) in
      case snd p of Inr b \<Rightarrow> install_artifact E dl (fst p) temp final b
      | Inl e \<Rightarrow> bindE (ignore (remove_file E temp)) (\<lambda>_. bindE (record_failure E dl) (\<lambda>_. fail e)))"

lemma download_split:
  "download_and_verify_artifact E dl manifest dir kc = bindE (download_part E dl manifest kc) (download_rest E dl dir)"
  unfolding download_and_verify_artifact_def download_part_def download_rest_def
  by (simp only: bindE_assoc bindE_ret Let_def fst_conv snd_conv)

lemma download_part_Inr:
  "download_part E dl manifest kc w = (Inr (a, res), w') \<Longrightarrow>
   find_artifact E manifest = Inr a \<and> (\<forall>b. res = Inr b \<longrightarrow> within_limit dl b)"
  by (auto simp: download_part_def run_iff dest: download_bytes_Inr)

lemma download_part_within:
  assumes "quiet_keychain kc"
  shows "steps (fs_within {al_file (dl_audit dl)}) (download_part E dl manifest kc)"
proof -
  have k: "downloader_relation (fs_within {al_file (dl_audit dl)}) E dl {al_file (dl_audit dl)} kc"
    by (rule within_relation [OF assms]) simp
  note e = downloader_relation.axioms(1) [OF k]
  show ?thesis
    unfolding download_part_def
    by (intro steps_bindE steps_lift_res steps_map_err steps_attempt steps_ret effect_relation.on_check_degraded [OF e]
      downloader_relation.on_token [OF k] effect_relation.on_runtime [OF e] effect_relation.on_download_bytes [OF e] preorder_fs_within)
qed

lemma download_success:
  assumes "CHR ''/'' \<notin> set (current_platform_triple E)"
    and "al_file (dl_audit dl) \<notin> {resolve E (artifact_temp dir (current_platform_triple E)), resolve E (artifact_final dir (current_platform_triple E))}"
    and "download_and_verify_artifact E dl manifest dir kc w = (Inr p, w')"
  shows "\<exists>a b. find_artifact E manifest = Inr a \<and> p = artifact_final dir (current_platform_triple E) \<and>
           file_at w' (resolve E p) = Some b \<and> payload_ok E dl a b \<and> within_limit dl b"
proof -
  from assms(3) obtain a res w1 where part: "download_part E dl manifest kc w = (Inr (a, res), w1)"
    and rest: "download_rest E dl dir (a, res) w1 = (Inr p, w')"
    by (auto simp: download_split run_iff)
  from rest obtain b where "res = Inr b"
    by (cases res) (auto simp: download_rest_def Let_def run_iff)
  with rest install_final(2) [of E dl a, OF _ temp_not_final [OF assms(1)] assms(2)] download_part_Inr [OF part] find_artifact_platform
  show ?thesis by (fastforce simp: download_rest_def Let_def)
qed

text \<open>C5. An artifact path is returned only when the file at that path holds bytes whose SHA-256 and SHA-512 are
  those of this platform's entry of the manifest, which the release key signed, and which are within the
  configured size limit.\<close>

theorem downloaded_artifact_verified:
  assumes "CHR ''/'' \<notin> set (current_platform_triple E)"
    and "al_file (dl_audit dl) \<notin> {resolve E (artifact_temp dir (current_platform_triple E)), resolve E (artifact_final dir (current_platform_triple E))}"
    and "download_and_verify_artifact E dl manifest dir kc w = (Inr p, w')"
  shows "\<exists>a b. find_artifact E manifest = Inr a \<and> p = artifact_final dir (current_platform_triple E) \<and>
           file_at w' (resolve E p) = Some b \<and> payload_ok E dl a b \<and> within_limit dl b"
  by (rule download_success [OF assms])

text \<open>C4. However the download ends, and whatever calls of the operating system fail on the way, every file
  but the staging file and the audit log is unchanged, except that the final file may hold verified bytes
  within the limit: a half-written or unverified artifact is never visible under the final name.\<close>

theorem download_old_or_verified:
  assumes "quiet_keychain kc" and "CHR ''/'' \<notin> set (current_platform_triple E)"
    and "al_file (dl_audit dl) \<notin> {resolve E (artifact_temp dir (current_platform_triple E)), resolve E (artifact_final dir (current_platform_triple E))}"
    and "download_and_verify_artifact E dl manifest dir kc w = (r, w')"
    and "q \<notin> {resolve E (artifact_temp dir (current_platform_triple E)), al_file (dl_audit dl)}"
  shows "file_at w' q = file_at w q \<or> q = resolve E (artifact_final dir (current_platform_triple E)) \<and>
    (\<exists>a b. find_artifact E manifest = Inr a \<and> file_at w' q = Some b \<and> payload_ok E dl a b \<and> within_limit dl b)"
proof -
  let ?temp = "artifact_temp dir (current_platform_triple E)" and ?final = "artifact_final dir (current_platform_triple E)"
  let ?log = "al_file (dl_audit dl)"
  obtain x w1 where part: "download_part E dl manifest kc w = (x, w1)" by fastforce
  have before: "file_at w1 q = file_at w q"
    using stepsD [OF download_part_within [OF assms(1)] part] assms(5) by (auto simp: fs_within_def file_at_def)
  have eff: "effect_relation (fs_within S) E dl S" if "?log \<in> S" for S by (rule within_effects [OF that])
  show ?thesis
  proof (cases x)
    case (Inl e)
    with assms(4) part before show ?thesis by (simp add: download_split bindE_def)
  next
    case (Inr y)
    obtain a res where y: "y = (a, res)" by fastforce
    from assms(4) part Inr y have rest: "download_rest E dl dir (a, res) w1 = (r, w')" by (simp add: download_split bindE_def)
    from download_part_Inr [OF part [unfolded Inr y]] have a: "find_artifact E manifest = Inr a" "res = Inr b \<Longrightarrow> within_limit dl b" for b by auto
    note p = find_artifact_platform [OF a(1)]
    show ?thesis
    proof (cases res)
      case (Inl e)
      have rm: "steps (fs_within {resolve E ?temp, ?log}) (bindE (ignore (remove_file E ?temp)) (\<lambda>_. bindE (record_failure E dl) (\<lambda>_. fail e)))"
        by (intro steps_bindE steps_ignore steps_fail steps_within_record_failure preorder_fs_within
            steps_within [OF steps_remove_file [OF insertI1] order_refl]) simp
      from rest Inl p have "bindE (ignore (remove_file E ?temp)) (\<lambda>_. bindE (record_failure E dl) (\<lambda>_. fail e)) w1 = (r, w')"
        by (simp add: download_rest_def Let_def)
      from stepsD [OF rm this] assms(5) before show ?thesis by (simp add: fs_within_def file_at_def)
    next
      case (Inr b)
      with rest p have inst: "install_artifact E dl a ?temp ?final b w1 = (r, w')" by (simp add: download_rest_def Let_def)
      show ?thesis
      proof (cases "q = resolve E ?final")
        case True
        with install_final(1) [OF inst temp_not_final [OF assms(2)] assms(3)] before a Inr show ?thesis by auto
      next
        case False
        have "fs_within {resolve E ?temp, resolve E ?final, ?log} w1 w'"
          by (rule stepsD [OF effect_relation.on_install [OF eff] inst]) auto
        with False assms(5) before show ?thesis by (simp add: fs_within_def file_at_def)
      qed
    qed
  qed
qed

section \<open>The machine of the two atomics\<close>

inductive downloader_op :: "env \<Rightarrow> downloader \<Rightarrow> 'z world_scheme keychain \<Rightarrow> 'z world_scheme \<Rightarrow> 'z world_scheme \<Rightarrow> bool"
  for E dl kc where
  fetch: "downloader_op E dl kc w (snd (fetch_and_verify_manifest E dl kc w))"
| download: "downloader_op E dl kc w (snd (download_and_verify_artifact E dl manifest dir kc w))"
| ping: "downloader_op E dl kc w (snd (connectivity_check E dl w))"

lemma downloader_op_cells:
  assumes "quiet_keychain kc" "downloader_op E dl kc w w'"
  shows "moves_cells (dl_atomics dl) w w'"
proof -
  note k = cells_relation [OF assms(1), of dl E]
  from assms(2) show ?thesis
    by cases (auto intro: steps_snd [OF downloader_relation.on_fetch [OF k]] steps_snd [OF downloader_relation.on_download [OF k]]
        steps_snd [OF cells.on_connectivity])
qed

lemma downloader_ops_cells:
  "(downloader_op E dl kc)\<^sup>*\<^sup>* w w' \<Longrightarrow> quiet_keychain kc \<Longrightarrow> moves_cells (dl_atomics dl) w w'"
proof (induction rule: rtranclp_induct)
  case base
  show ?case by (simp add: moves_cells_def)
next
  case (step v w')
  then show ?case
    using downloader_op_cells [of kc E dl v w'] preorder_moves_cells [of "dl_atomics dl"]
    by (auto simp: preorder_rel_def dest: transpD)
qed

text \<open>C10. From its creation on, any sequence of operations of a downloader moves its two atomics along the
  machine of failures and successes and no other downloader's; it is in degraded mode whenever its count
  has reached the threshold, and once in degraded mode it stays there.\<close>

theorem downloader_machine:
  assumes "quiet_keychain kc" and "downloader_new E uc sc iid cc lg w0 = (Inr dl, w)"
    and "(downloader_op E dl kc)\<^sup>*\<^sup>* w w'" and "(downloader_op E dl kc)\<^sup>*\<^sup>* w' w''"
  shows "dl_step\<^sup>*\<^sup>* \<lparr>dl_failures = 0, dl_degraded = False\<rparr> (dl_cells_of dl w') \<and> cells_ok (dl_cells_of dl w') \<and>
    (dl_degraded (dl_cells_of dl w') \<longrightarrow> dl_degraded (dl_cells_of dl w'')) \<and>
    (\<forall>d. d \<noteq> dl_atomics dl \<longrightarrow> w_dl w'' d = w_dl w0 d)"
proof -
  from assms(2) have new: "dl_cells_of dl w = \<lparr>dl_failures = 0, dl_degraded = False\<rparr>" "d \<noteq> dl_atomics dl \<Longrightarrow> w_dl w d = w_dl w0 d" for d
    by (auto simp: downloader_new_def Let_def run_iff dl_cells_of_def split: if_splits)
  note m = downloader_ops_cells [OF _ assms(1)]
  from m [OF assms(3)] new have path: "dl_step\<^sup>*\<^sup>* \<lparr>dl_failures = 0, dl_degraded = False\<rparr> (dl_cells_of dl w')"
    by (simp add: moves_cells_def dl_cells_of_def)
  then have "cells_ok (dl_cells_of dl w')"
    by (induction rule: rtranclp_induct) (auto simp: cells_ok_step, simp add: cells_ok_def DEGRADED_THRESHOLD_def)
  moreover have "dl_degraded (dl_cells_of dl w') \<longrightarrow> dl_degraded (dl_cells_of dl w'')"
    using m [OF assms(4)] degraded_stable by (auto simp: moves_cells_def dl_cells_of_def)
  ultimately show ?thesis using path m [OF assms(3)] m [OF assms(4)] new by (simp add: moves_cells_def)
qed

section \<open>Witnesses\<close>

definition server2 :: env where
  "server2 = env0\<lparr>e_http := \<lambda>t r. Inr \<lparr>rs_status = 200, rs_retry_after = None, rs_chunks = [Inr ''da'', Inr ''ta'']\<rparr>\<rparr>"

definition artifact2 :: artifact_entry where
  "artifact2 = \<lparr>ae_platform = ''linux-x86_64'', ae_url = ''https://example.org/a'', ae_sha256 = enc_str ''data'',
     ae_sha512 = enc_str ''data5'', ae_size_bytes = 4, ae_sig_ed25519 = replicate 64 (CHR ''A'')\<rparr>"

definition manifest2 :: synqro_manifest where
  "manifest2 = manifest1\<lparr>mf_artifacts := [artifact2]\<rparr>"

definition stage2 :: path where "stage2 = [RootDir, Normal ''stage'']"

definition world2 :: world where "world2 = world_of [([''stage''], Dir 0x1ED)]"

lemma triple2: "current_platform_triple server2 = ''linux-x86_64''"
  by (simp add: current_platform_triple_def server2_def)

lemma paths2:
  "resolve server2 (artifact_temp stage2 ''linux-x86_64'') = [''stage'', ''synqro_staging_linux-x86_64.tmp'']"
  "resolve server2 (artifact_final stage2 ''linux-x86_64'') = [''stage'', ''synqro_linux-x86_64.bin'']"
proof -
  have "plain_name ''synqro_staging_linux-x86_64.tmp''" "plain_name ''synqro_linux-x86_64.bin''" by (simp_all add: plain_name_def)
  from this [THEN parse_plain_name] show
    "resolve server2 (artifact_temp stage2 ''linux-x86_64'') = [''stage'', ''synqro_staging_linux-x86_64.tmp'']"
    "resolve server2 (artifact_final stage2 ''linux-x86_64'') = [''stage'', ''synqro_linux-x86_64.bin'']"
    by (simp_all add: artifact_temp_def artifact_final_def path_join_normal stage2_def resolve_def)
qed

lemma no_faults2: "no_faults server2"
  by (simp add: no_faults_def server2_def)

lemma find2: "find_artifact server2 manifest2 = Inr artifact2"
  by (simp add: find_artifact_def Let_def triple2 manifest2_def artifact2_def)

lemma send2: "client_send server2 dl r w = (e_http server2 (w_tick w) r, w\<lparr>w_tick := Suc (w_tick w),
    w_trace := w_trace w @ [EvHttp r, EvHop (first_hop server2 (w_tick w) r (True, Some ''api.github.com''))]\<rparr>)"
  by (rule client_send_quiet) (simp_all add: server2_def)

lemma download2: "\<exists>w1. download_part server2 dl1 manifest2 kc1 world2 = (Inr (artifact2, Inr ''data''), w1) \<and> w_fs w1 = w_fs world2"
  unfolding download_part_def find2
  by (simp add: load_token_for_request_def log_err_def on_err_def map_err_def bindE_def kc1_def ret_def check_degraded_def dl_cells_of_def
      valid_utf8.simps seq_len_def byte_val_def auth_value_def Let_def lift_res_def send2 [unfolded server2_def] server2_def is_success_def runtime_build_def
      download_bytes_def attempt_def world2_def world_of_def dl1_def uc1_def)

lemma payload2: "verify_payload server2 dl1 artifact2 temp ''data'' w =
    (Inr (), snd (audit_log server2 lg2 PayloadHashOk (json_obj []) w))"
proof -
  have "take 8 (replicate 64 (CHR ''A'')) = take 8 (replicate 32 (CHR ''A'') @ ''data'')" by simp
  then show ?thesis
    by (simp add: verify_payload_def check_digest_def verify_artifact_sig_def Let_def bindE_def ignore_def ret_def lift_res_def on_err_def
        server2_def artifact2_def dl1_def cc1_def decode_signature_def release_key_def bind_res_def)
qed

lemma payload_ok2: "payload_ok server2 dl1 artifact2 b \<Longrightarrow> b = ''data''"
  by (simp add: payload_ok_def server2_def artifact2_def enc_str_inj)

lemma run2: "\<exists>w'. download_and_verify_artifact server2 dl1 manifest2 stage2 kc1 world2 = (Inr (artifact_final stage2 ''linux-x86_64''), w')"
proof -
  let ?t = "[''stage'', ''synqro_staging_linux-x86_64.tmp'']" and ?f = "[''stage'', ''synqro_linux-x86_64.bin'']"
  from download2 obtain w1 where part: "download_part server2 dl1 manifest2 kc1 world2 = (Inr (artifact2, Inr ''data''), w1)"
    and fs1: "w_fs w1 = w_fs world2" by blast
  obtain w2 m where st: "stage_artifact server2 (artifact_temp stage2 ''linux-x86_64'') ''data'' w1 = (Inr (), w2)"
    and fs2: "w_fs w2 = (w_fs world2)(?t \<mapsto> File ''data'' m)"
    using fs1 by (simp add: stage_artifact_def bindE_def map_err_def file_create_def write_all_def file_flush_def Let_def
        sys_nofault [OF no_faults2] paths2 world2_def world_of_def is_dir_def fs_put_def append_to_def)
  define w3 where "w3 = snd (audit_log server2 lg2 PayloadHashOk (json_obj []) w2)"
  have "fs_only {al_file lg2} w2 w3" unfolding w3_def by (rule steps_snd [OF steps_audit_log])
  then have fs3: "q \<noteq> [''audit''] \<Longrightarrow> w_fs w3 q = w_fs w2 q" for q by (auto simp: lg2_def dest: fs_only_same)
  have "fs_rename server2 (artifact_temp stage2 ''linux-x86_64'') (artifact_final stage2 ''linux-x86_64'') w3 =
      (Inr (), fs_put ?f (Some (File ''data'' m)) (fs_put ?t None (w3\<lparr>w_tick := Suc (w_tick w3)\<rparr>)))"
    by (simp add: fs_rename_def Let_def sys_nofault [OF no_faults2] paths2 fs3 fs2 is_dir_def world2_def world_of_def)
  then show ?thesis
    using part st payload2 [of "artifact_temp stage2 ''linux-x86_64''" w2]
    by (simp add: download_split bindE_def download_rest_def Let_def artifact2_def install_artifact_def publish_def on_err_def
        record_success_def ret_def flip: w3_def)
qed

lemma downloaded_artifact_verified_witness:
  "\<exists>p w'. download_and_verify_artifact server2 dl1 manifest2 stage2 kc1 world2 = (Inr p, w') \<and>
     file_at w' [''stage'', ''synqro_linux-x86_64.bin''] = Some ''data''"
proof -
  from run2 obtain w' where run: "download_and_verify_artifact server2 dl1 manifest2 stage2 kc1 world2 = (Inr (artifact_final stage2 ''linux-x86_64''), w')" ..
  have "CHR ''/'' \<notin> set (current_platform_triple server2)" by (simp add: triple2)
  moreover have "al_file (dl_audit dl1) \<notin> {resolve server2 (artifact_temp stage2 (current_platform_triple server2)),
      resolve server2 (artifact_final stage2 (current_platform_triple server2))}"
    by (simp add: triple2 paths2 dl1_def lg2_def)
  ultimately obtain b where "file_at w' (resolve server2 (artifact_final stage2 ''linux-x86_64'')) = Some b" "payload_ok server2 dl1 artifact2 b"
    using downloaded_artifact_verified [OF _ _ run] find2 by auto
  then show ?thesis using run payload_ok2 by (auto simp: paths2)
qed

lemma download_old_or_verified_witness:
  "file_at (snd (download_and_verify_artifact server2 dl1 manifest2 stage2 kc1 world2)) [''stage'', ''synqro_linux-x86_64.bin''] \<in> {None, Some ''data''}"
proof -
  let ?q = "resolve server2 (artifact_final stage2 (current_platform_triple server2))"
  have "file_at world2 ?q = None" by (simp add: triple2 paths2 world2_def world_of_def file_at_def)
  moreover have "CHR ''/'' \<notin> set (current_platform_triple server2)" by (simp add: triple2)
  moreover have "al_file (dl_audit dl1) \<notin> {resolve server2 (artifact_temp stage2 (current_platform_triple server2)), ?q}"
    "?q \<notin> {resolve server2 (artifact_temp stage2 (current_platform_triple server2)), al_file (dl_audit dl1)}"
    by (simp_all add: triple2 paths2 dl1_def lg2_def)
  ultimately show ?thesis
    using download_old_or_verified [OF quiet_kc1 _ _ prod.collapse [symmetric], where E = server2 and dl = dl1 and dir = stage2 and manifest = manifest2 and w = world2 and q = ?q]
      payload_ok2
    by (auto simp: find2 triple2 paths2)
qed

lemma downloader_machine_witness:
  "cells_ok (dl_cells_of dl1 (snd (fetch_and_verify_manifest env0 dl1 kc1 (snd (downloader_new env0 uc1 sc1 ''id'' cc1 lg2 (world_of []))))))"
proof -
  have new: "downloader_new env0 uc1 sc1 ''id'' cc1 lg2 (world_of []) = (Inr dl1, snd (downloader_new env0 uc1 sc1 ''id'' cc1 lg2 (world_of [])))"
    by (simp add: downloader_new_def Let_def bindE_def lift_res_def ret_def no_panic_def map_err_def dl1_def cc1_def world_of_def)
  have "(downloader_op env0 dl1 kc1)\<^sup>*\<^sup>* w (snd (fetch_and_verify_manifest env0 dl1 kc1 w))" for w
    by (blast intro: downloader_op.fetch)
  from downloader_machine [OF quiet_kc1 new this rtranclp.rtrancl_refl] show ?thesis by blast
qed

end
