(* ===== verification/Engine_Facts.thy ===== *)
theory Engine_Facts
  imports Engine Artifact_Facts
begin

text \<open>
  What the C interface of \<open>src/lib.rs\<close> guarantees: nothing happens before \<open>synqro_init\<close>, the engine is set
  once and stays, and which version a rollback chooses.
\<close>

section \<open>Results of the closures\<close>

lemma status_not_ok: "status_of_error e \<noteq> SynqroOk"
  by (cases e) simp_all

lemma catch_all_Inr: "f w = (Inr (), w') \<Longrightarrow> catch_all f w = (result_ok, w')"
  by (simp add: catch_all_def)

lemma catch_all_Inl: "f w = (Inl (Err e), w') \<Longrightarrow> catch_all f w = from_error e w'"
  by (simp add: catch_all_def)

lemma no_panic_Inl: "m w = (Inl e, w') \<Longrightarrow> no_panic m w = (Inl (Err e), w')"
  by (simp add: no_panic_def map_err_def)

text \<open>The result of a panic that was caught.\<close>

definition panic_result :: "'z world_scheme \<Rightarrow> synqro_result \<times> 'z world_scheme" where
  "panic_result w = (case next_error_id w of (n, w') \<Rightarrow>
     result_err SynqroErrInternal ''an unexpected internal error occurred'' n w')"

lemma catch_all_Panic: "f w = (Inl Panic, w') \<Longrightarrow> catch_all f w = panic_result w'"
  by (simp add: catch_all_def panic_result_def)

lemma panic_result_eq:
  "panic_result w =
     (\<lparr>r_status = SynqroErrInternal, r_message = w_brk w, r_error_id = w_next_id w\<rparr>,
      w\<lparr>w_next_id := w_next_id w + 1,
        w_heap := (w_heap w)(w_brk w \<mapsto> sanitise ''an unexpected internal error occurred''), w_brk := Suc (w_brk w)\<rparr>)"
  by (simp add: panic_result_def next_error_id_def result_err_eq)

lemma from_error_frame:
  "from_error e w = (r, w') \<Longrightarrow> r_status r = status_of_error e \<and> w_fs w' = w_fs w \<and> w_trace w' = w_trace w \<and> w_dl w' = w_dl w"
  by (auto simp: from_error_eq)

lemma from_error_engine: "w_engine (snd (from_error e w)) = w_engine w"
  by (simp add: from_error_eq)

lemma catch_all_ok:
  assumes "catch_all f w = (r, w')" "r_status r = SynqroOk"
  shows "f w = (Inr (), w')"
proof -
  obtain x w1 where f: "f w = (x, w1)" by fastforce
  show ?thesis
  proof (cases x)
    case (Inl x')
    with assms f catch_all_Inl [of f w _ w1] catch_all_Panic [of f w w1] from_error_frame [of _ w1 r w'] status_not_ok show ?thesis
      by (cases x') (auto simp: panic_result_eq)
  next
    case (Inr u)
    with assms f catch_all_Inr [of f w w1] show ?thesis by simp
  qed
qed

text \<open>What a closure leaves, \<open>catch_all\<close> leaves.\<close>

lemma catch_all_world:
  obtains "catch_all f w = (result_ok, snd (f w))" | e where "catch_all f w = from_error e (snd (f w))"
  | "catch_all f w = panic_result (snd (f w))"
proof -
  obtain x w1 where f: "f w = (x, w1)" by fastforce
  show thesis
  proof (cases x)
    case (Inl x')
    with f catch_all_Inl [of f w _ w1] catch_all_Panic [of f w w1] that(2,3) show ?thesis by (cases x') auto
  next
    case (Inr u)
    with f catch_all_Inr [of f w w1] that(1) show ?thesis by simp
  qed
qed

lemma catch_all_fs: "w_fs (snd (catch_all f w)) = w_fs (snd (f w))"
  by (rule catch_all_world [of f w]) (simp_all add: from_error_eq panic_result_eq)

lemma catch_all_engine: "w_engine (snd (catch_all f w)) = w_engine (snd (f w))"
  by (rule catch_all_world [of f w]) (simp_all add: from_error_eq panic_result_eq)

section \<open>Before initialisation\<close>

lemma no_engine:
  "w_engine w = None \<Longrightarrow> catch_all (no_panic (bindE get_engine k)) w = from_error (Config ''synqro_init() has not been called'') w"
  "w_engine w = None \<Longrightarrow> catch_all (bindE (no_panic get_engine) f) w = from_error (Config ''synqro_init() has not been called'') w"
  by (simp_all add: catch_all_def no_panic_def map_err_def get_engine_def bindE_def fail_def)

text \<open>Before the engine is initialised every function that needs it returns the internal error status,
  changes no file, sends nothing and starts nothing, and the installation id is null.\<close>

theorem uninitialised_calls_refused:
  assumes "w_engine w = None"
    and "(r, w') \<in> {synqro_check_update E os w, synqro_apply_update E os w, synqro_rollback E w, synqro_health_check E w}"
  shows "r_status r = SynqroErrInternal \<and> w_fs w' = w_fs w \<and> w_trace w' = w_trace w \<and> w_engine w' = None \<and>
    synqro_installation_id w = (0, w)"
proof -
  let ?e = "Config ''synqro_init() has not been called''"
  have eq: "synqro_check_update E os w = from_error ?e w" "synqro_apply_update E os w = from_error ?e w"
    "synqro_rollback E w = from_error ?e w" "synqro_health_check E w = from_error ?e w"
    unfolding synqro_check_update_def check_update_closure_def synqro_apply_update_def apply_update_closure_def synqro_rollback_def
      rollback_closure_def synqro_health_check_def health_check_closure_def
    by (intro no_engine assms(1))+
  have "(r, w') = from_error ?e w" using assms(2) by (auto simp: eq)
  moreover have "synqro_installation_id w = (0, w)"
    by (simp add: synqro_installation_id_def get_engine_def assms(1) fail_def)
  ultimately show ?thesis
    using assms(1) by (simp add: from_error_eq)
qed

section \<open>The engine stays\<close>

text \<open>Nor do the closures touch the C heap: strings are handed out and taken back outside of them.\<close>

definition same_engine :: "'z engine_world_scheme \<Rightarrow> 'z engine_world_scheme \<Rightarrow> bool" where
  "same_engine w w' \<longleftrightarrow> w_engine w' = w_engine w \<and> w_heap w' = w_heap w \<and> w_brk w' = w_brk w"

lemma preorder_same_engine [intro, simp]: "preorder_rel same_engine"
  by (auto simp: preorder_rel_def same_engine_def reflp_def transp_def)

lemma fs_only_engine: "fs_only S w w' \<Longrightarrow> same_engine w w'"
  by (auto simp: fs_only_def same_engine_def)

lemma files_keep_engine: "steps (fs_only S) m \<Longrightarrow> steps same_engine m"
  by (erule steps_mono) (rule fs_only_engine)

lemma log_keeps_engine:
  "w_engine (snd (audit_log E lg ev d w)) = w_engine w" "w_heap (snd (audit_log E lg ev d w)) = w_heap w"
  "w_brk (snd (audit_log E lg ev d w)) = w_brk w"
proof -
  have "same_engine w (snd (audit_log E lg ev d w))" by (rule fs_only_engine [OF steps_snd [OF steps_audit_log]])
  then show "w_engine (snd (audit_log E lg ev d w)) = w_engine w" "w_heap (snd (audit_log E lg ev d w)) = w_heap w"
    "w_brk (snd (audit_log E lg ev d w)) = w_brk w" by (simp_all add: same_engine_def)
qed

lemma set_cells_keeps_engine:
  "w_engine (set_cells dl c w) = w_engine w" "w_heap (set_cells dl c w) = w_heap w" "w_brk (set_cells dl c w) = w_brk w"
  by (simp_all add: set_cells_def)

lemma fs_only_engine':
  "fs_only S w w' \<Longrightarrow> w_engine w' = w_engine w" "fs_only S w w' \<Longrightarrow> w_heap w' = w_heap w" "fs_only S w w' \<Longrightarrow> w_brk w' = w_brk w"
  using fs_only_engine by (auto simp: same_engine_def)

text \<open>The downloader over the Linux keychain: its operations keep to its own atomics.\<close>

interpretation linux_cells: downloader_relation "moves_cells (dl_atomics dl)" E dl UNIV "linux_keychain (world_runner E) b" for dl E b
  by (rule cells_relation [OF quiet_linux])

text \<open>The downloader a call makes for the engine.\<close>

definition serves :: "engine \<Rightarrow> downloader \<Rightarrow> bool" where
  "serves en dl \<longleftrightarrow> dl_update_config dl = cfg_update (en_config en) \<and> dl_source_config dl = cfg_source (en_config en) \<and>
     dl_installation_id dl = cfg_installation_id (en_config en) \<and> dl_crypto_config dl = cfg_crypto (en_config en) \<and>
     dl_audit dl = en_audit en"

lemma engine_downloader_Inr: "engine_downloader E en w = (Inr dl, w') \<Longrightarrow> serves en dl \<and> w_fs w' = w_fs w"
  by (auto simp: engine_downloader_def Let_def downloader_new_def run_iff serves_def split: if_splits)

text \<open>Without a default provider of cryptography no downloader can be made: the functions that need one panic.
  \<open>synqro_check_update\<close> has logged that a check was started by then.\<close>

lemma engine_downloader_panics: "\<not> e_tls_provider E \<Longrightarrow> engine_downloader E en w = (Inl Panic, w)"
  by (simp add: engine_downloader_def Let_def downloader_new_def bindE_def panic_def fail_def)

theorem no_tls_provider_panics:
  assumes "\<not> e_tls_provider E" "w_engine w = Some en"
  shows "synqro_apply_update E os w = panic_result w \<and> synqro_health_check E w = panic_result w \<and>
    (\<forall>w1. audit_log E (en_audit en) UpdateCheckStarted (json_obj []) w = (Inr (), w1) \<longrightarrow> synqro_check_update E os w = panic_result w1)"
  using assms(2)
  by (auto simp: synqro_apply_update_def apply_update_closure_def apply_update_with_def synqro_health_check_def health_check_closure_def
      synqro_check_update_def check_update_closure_def get_engine_def bindE_def no_panic_def map_err_def ret_def Let_def
      engine_downloader_panics [OF assms(1)] intro!: catch_all_Panic)

text \<open>Initialising: everything up to the cell, then the cell.\<close>

definition init_part :: "env \<Rightarrow> bytes option \<Rightarrow> ('z, engine) eng" where
  "init_part E config_path =
     bindE (lift_res (decode_cstr config_path ''config_path'')) (\<lambda>path_str.
     bindE (load_config E (parse_path path_str)) (\<lambda>config.
     bindE (platform_keychain E) (\<lambda>keychain.
     bindE (audit_new E (cfg_logging config) (cfg_installation_id config)) (\<lambda>audit.
     ret \<lparr>en_config = config, en_audit = audit, en_keychain = keychain\<rparr>))))"

lemma init_split: "init_closure E p = bindE (init_part E p) (\<lambda>en. bindE (engine_set en)
    (\<lambda>_. audit_log E (en_audit en) SynqroInit (json_obj [(''version'', JString SYNQRO_VERSION)])))"
  unfolding init_closure_def init_part_def by (simp add: bindE_assoc bindE_ret)

section \<open>Relations the closures respect\<close>

text \<open>A reflexive and transitive relation on worlds that the effects of the engine's downloaders respect, as
  do changes of files, child processes and the creation of a downloader, is respected by every closure;
  \<open>good\<close> are the engines whose downloaders do.\<close>

locale engine_relation =
  fixes R :: "'z engine_world_scheme \<Rightarrow> 'z engine_world_scheme \<Rightarrow> bool"
    and E :: env
    and good :: "engine \<Rightarrow> bool"
  assumes pre: "preorder_rel R"
    and files: "fs_only UNIV w w' \<Longrightarrow> R w w'"
    and created: "R w (w\<lparr>w_dl := d, w_dl_next := n\<rparr>)"
    and command: "R w (w\<lparr>w_tick := t, w_trace := w_trace w @ [EvCmd c]\<rparr>)"
    and client: "good en \<Longrightarrow> serves en dl \<Longrightarrow> effect_relation R E dl UNIV"
begin

lemma refl: "R w w"
  using pre by (simp add: preorder_rel_def reflpD)

lemma on_files: "steps (fs_only UNIV) m \<Longrightarrow> steps R m"
  by (erule steps_mono) (rule files)

lemma on_log: "steps R (audit_log E lg ev d)"
  by (rule on_files [OF steps_fs_only_mono [OF steps_audit_log]]) simp

lemma on_new: "steps R (engine_downloader E en)"
  by (simp add: engine_downloader_def Let_def downloader_new_def steps_def bindE_def lift_res_def map_inl_def no_panic_def map_err_def
      panic_def fail_def ret_def created refl split: sum.splits)

lemma with_client:
  assumes "good en" "\<And>dl. effect_relation R E dl UNIV \<Longrightarrow> steps R (k dl)"
  shows "steps R (bindE (engine_downloader E en) k)"
proof (rule steps_bindE_run [OF pre on_new])
  show "steps R (k dl)" if "engine_downloader E en w = (Inr dl, w')" for w dl w'
    using engine_downloader_Inr [OF that] client [OF assms(1)] assms(2) by blast
qed

lemma with_keychain:
  assumes "effect_relation R E dl UNIV" "stores_quiet os"
  shows "downloader_relation R E dl UNIV (keychain_of E os p)"
  by (intro downloader_relation.intro downloader_relation_axioms.intro assms provider_steps pre) (simp add: world_runner_def command)

lemma on_snapshot: "steps R (take_snapshot E v ps bd key)"
proof (rule on_files)
  have one: "steps (fs_only UNIV) (snapshot_file E cb p)" for cb p
    unfolding snapshot_file_def Let_def by (auto intro!: steps_intro)
  show "steps (fs_only UNIV) (take_snapshot E v ps bd key)"
    unfolding take_snapshot_def Let_def by (auto intro!: steps_intro one)
qed

lemma on_rollback: "steps R (rollback E v bd key lg)"
proof (rule on_files)
  have load: "steps (fs_only UNIV) (load_snapshot E v vd key lg)" for vd
    unfolding load_snapshot_def Let_def by (auto intro!: steps_intro steps_fs_only_mono [OF steps_audit_log])
  show "steps (fs_only UNIV) (rollback E v bd key lg)"
    unfolding rollback_def Let_def
    by (auto intro!: steps_intro load steps_fs_only_mono [OF steps_restore_entry] steps_fs_only_mono [OF steps_after_restore])
qed

lemma on_recent: "steps R (most_recent_backup_version E bd)"
  unfolding most_recent_backup_version_def Let_def
  by (intro steps_bindE steps_map_err steps_lift_res pre on_files [OF steps_read_dir])

lemma on_watchdog: "steps R (start_watchdog E pid t g)"
  by (auto simp: steps_def start_watchdog_def bindE_def run_command_def ret_def fail_def command refl split: sum.splits proc_result.splits)

lemma on_engine:
  assumes "\<And>en. w_engine w = Some en \<Longrightarrow> steps R (k en)"
  shows "R w (snd (bindE get_engine k w))"
  using assms by (cases "w_engine w") (auto simp: get_engine_def bindE_def ret_def fail_def refl steps_def)

lemma on_engine_np:
  assumes "\<And>en. w_engine w = Some en \<Longrightarrow> steps R (k en)"
  shows "R w (snd (bindE (no_panic get_engine) k w))"
  using assms by (cases "w_engine w") (auto simp: get_engine_def no_panic_def map_err_def bindE_def ret_def fail_def refl steps_def)

lemma on_check_update:
  assumes "stores_quiet os" "\<And>en. w_engine w = Some en \<Longrightarrow> good en"
  shows "R w (snd (check_update_closure E os w))"
  unfolding check_update_closure_def
  by (rule on_engine_np)
     (intro steps_bindE steps_no_panic with_client assms(2) on_log pre downloader_relation.on_fetch [OF with_keychain] assms(1))

lemma on_apply_update:
  assumes "stores_quiet os" "\<And>en. w_engine w = Some en \<Longrightarrow> good en"
  shows "R w (snd (apply_update_closure E os w))"
proof -
  have dir: "steps R (map_err f (create_dir_all E m p))" for f :: "string \<Rightarrow> synqro_error" and m p
    by (intro steps_map_err on_files [OF steps_create_dir_all]) simp
  show ?thesis
    unfolding apply_update_closure_def apply_update_with_def Let_def
    by (rule on_engine_np)
       (intro steps_bindE steps_no_panic with_client assms(2) on_log on_snapshot on_watchdog dir steps_lift_res steps_ignore pre
         downloader_relation.on_fetch [OF with_keychain] downloader_relation.on_download [OF with_keychain] assms(1) UNIV_I)
qed

lemma on_rollback_closure: "R w (snd (rollback_closure E w))"
  unfolding rollback_closure_def Let_def
  by (rule on_engine) (intro steps_bindE on_log on_recent on_rollback steps_lift_res pre)

lemma on_audit_event: "R w (snd (audit_event_closure E ev data w))"
proof -
  have "R w (snd (bindE get_engine (\<lambda>en. bindE (lift_res (m en)) (\<lambda>e. audit_log E (en_audit en) e d)) w))" for m d
    by (rule on_engine) (intro steps_bindE on_log steps_lift_res pre)
  then show ?thesis
    unfolding audit_event_closure_def by (simp add: bindE_def lift_res_def refl split: sum.splits prod.splits)
qed

lemma on_health_check:
  assumes "\<And>en. w_engine w = Some en \<Longrightarrow> good en"
  shows "R w (snd (health_check_closure E w))"
  unfolding health_check_closure_def
  by (rule on_engine_np) (intro steps_no_panic with_client assms effect_relation.on_connectivity)

lemma on_init_part: "steps R (init_part E p)"
proof -
  have cfg: "steps R (load_config E q)" for q
    unfolding load_config_def read_to_string_def
    by (intro steps_bindE steps_map_err steps_if steps_ret steps_fail steps_lift_res pre on_files [OF steps_fs_read])
  have probe: "R w (snd (binary_available (world_runner E) b w))" for b w
    by (simp add: binary_available_def world_runner_def command)
  have "R w (snd (binary_available (world_runner E) c (snd (binary_available (world_runner E) b w))))" for b c w
    using transpD [OF conjunct2 [OF pre [unfolded preorder_rel_def]] probe probe] .
  then have run: "steps R (linux_new (world_runner E))"
    by (simp add: steps_def linux_new_def split_beta probe)
  have kc: "steps R (platform_keychain E)"
    unfolding platform_keychain_def by (intro steps_if steps_bindE steps_ret steps_fail run pre)
  have al: "steps R (audit_new E lc iid)" for lc iid
    by (rule on_files) (auto simp: audit_new_def Let_def intro!: steps_intro)
  show ?thesis
    unfolding init_part_def by (intro steps_bindE steps_lift_res steps_ret cfg kc al pre)
qed

end

text \<open>The engine and the C heap are such a relation.\<close>

lemma engine_effects: "effect_relation same_engine E dl UNIV"
  by unfold_locales
     (auto simp: fs_only_engine' same_engine_def steps_def record_failure_def record_success_def Let_def ret_def ignore_def
       log_keeps_engine set_cells_keeps_engine)

interpretation engine_kept: engine_relation same_engine E "\<lambda>_. True" for E
proof (rule engine_relation.intro [OF preorder_same_engine])
  show "fs_only UNIV w w' \<Longrightarrow> same_engine w w'" for w w' :: "'a engine_world_scheme" by (rule fs_only_engine)
qed (simp_all add: engine_effects, simp_all add: same_engine_def)

lemma closures_keep_engine:
  "stores_quiet os \<Longrightarrow> steps same_engine (check_update_closure E os)" "stores_quiet os \<Longrightarrow> steps same_engine (apply_update_closure E os)"
  "steps same_engine (rollback_closure E)" "steps same_engine (audit_event_closure E ev data)" "steps same_engine (health_check_closure E)"
  by (simp_all add: steps_def engine_kept.on_check_update engine_kept.on_apply_update engine_kept.on_rollback_closure
      engine_kept.on_audit_event engine_kept.on_health_check)

lemma init_when_set:
  assumes "w_engine w = Some en"
  shows "w_engine (snd (init_closure E p w)) = Some en \<and> (\<exists>e. fst (init_closure E p w) = Inl e)"
proof -
  obtain r w1 where part: "init_part E p w = (r, w1)" by fastforce
  from stepsD [OF engine_kept.on_init_part part] assms have "w_engine w1 = Some en" by (simp add: same_engine_def)
  with part show ?thesis
    by (cases r) (simp_all add: init_split bindE_def engine_set_def fail_def)
qed

section \<open>Sequences of calls\<close>

text \<open>A call from C, and what it leaves.\<close>

inductive ffi_step :: "env \<Rightarrow> 'z engine_world_scheme os_stores \<Rightarrow> 'z engine_world_scheme \<Rightarrow> 'z engine_world_scheme \<Rightarrow> bool"
  for E os where
  init: "ffi_step E os w (snd (synqro_init E p w))"
| check: "ffi_step E os w (snd (synqro_check_update E os w))"
| apply_update: "ffi_step E os w (snd (synqro_apply_update E os w))"
| roll_back: "ffi_step E os w (snd (synqro_rollback E w))"
| audit_event: "ffi_step E os w (snd (synqro_audit_event E ev data w))"
| health: "ffi_step E os w (snd (synqro_health_check E w))"
| installation_id: "ffi_step E os w (snd (synqro_installation_id w))"
| free_string: "ffi_step E os w (synqro_free_string ptr w)"
| free_result: "ffi_step E os w (snd (synqro_free_result res w))"

lemma closure_keeps: "steps same_engine f \<Longrightarrow> w_engine (snd (catch_all f w)) = w_engine w"
  by (simp add: catch_all_engine steps_def same_engine_def)

lemma snd_no_panic: "snd (no_panic m w) = snd (m w)"
  by (simp add: no_panic_def map_err_def split: prod.split sum.split)

lemma ffi_step_engine:
  assumes "stores_quiet os" "w_engine w = Some en" "ffi_step E os w w'"
  shows "w_engine w' = Some en"
  using assms(3)
proof cases
  case (init p)
  with init_when_set [OF assms(2)] show ?thesis by (simp add: synqro_init_def catch_all_engine snd_no_panic)
next
  case (installation_id)
  then show ?thesis
    using assms(2) by (simp add: synqro_installation_id_def get_engine_def ret_def into_raw_def split: option.splits)
next
  case (free_result res)
  then show ?thesis using assms(2) by (auto simp: synqro_free_result_def drop_raw_def split: option.splits)
qed (simp_all add: assms(2) synqro_check_update_def synqro_apply_update_def synqro_rollback_def synqro_audit_event_def synqro_health_check_def
    closure_keeps closures_keep_engine steps_no_panic assms(1)
    synqro_free_string_def drop_raw_def)

text \<open>C12. The engine is set once: after any sequence of calls it is the one that was set first, with its
  configuration, log and keychain, and a further \<open>synqro_init\<close> fails and does not replace it.\<close>

theorem engine_set_once:
  assumes "stores_quiet os" "w_engine w = Some en" "(ffi_step E os)\<^sup>*\<^sup>* w w'"
  shows "w_engine w' = Some en \<and> r_status (fst (synqro_init E p w')) \<noteq> SynqroOk \<and> w_engine (snd (synqro_init E p w')) = Some en"
proof -
  from assms(3) have en: "w_engine w' = Some en"
    by (induction rule: rtranclp_induct) (rule assms(2), erule (1) ffi_step_engine [OF assms(1), rotated])
  from init_when_set [OF en, of E p] obtain e where "fst (init_closure E p w') = Inl e" by blast
  then have "synqro_init E p w' = from_error e (snd (init_closure E p w'))"
    unfolding synqro_init_def by (intro catch_all_Inl no_panic_Inl) (simp add: prod_eq_iff)
  with en show ?thesis
    using init_when_set [OF en, of E p] by (simp add: from_error_eq status_not_ok)
qed

section \<open>Which version is rolled back\<close>

text \<open>The version chosen for a rollback is one of the directories whose name starts with \<open>v\<close>, and the largest
  in the order of their bytes, not in the order of versions; without any such directory there is no
  choice.\<close>

theorem most_recent_is_largest_text:
  assumes "most_recent_backup_version E bd w = (r, w')" and "e_io E (w_tick w) OpReadDir (resolve E bd) = None" and "is_dir w (resolve E bd)"
  defines "vs \<equiv> set (backup_versions (e_readdir E (Suc (w_tick w)) (w_fs w) (resolve E bd)))"
  shows "(\<forall>v. r = Inr v \<longrightarrow> v \<in> vs \<and> (\<forall>u \<in> vs. u \<le> v)) \<and> ((\<exists>e. r = Inl e) \<longleftrightarrow> vs = {})"
proof -
  let ?entries = "e_readdir E (Suc (w_tick w)) (w_fs w) (resolve E bd)"
  have "r = (case rev (sort (backup_versions ?entries)) of v # _ \<Rightarrow> Inr v | [] \<Rightarrow> Inl (Rollback ''No backup versions found''))"
    using assms(1-3)
    by (auto simp: most_recent_backup_version_def bindE_def map_err_def read_dir_def Let_def sys_def is_dir_def lift_res_def)
  moreover have "v \<in> vs \<and> (\<forall>u \<in> vs. u \<le> v)" if "rev (sort (backup_versions ?entries)) = v # rest" for v rest
  proof -
    from that have srt: "sort (backup_versions ?entries) = rev rest @ [v]" by (simp add: rev_eq_Cons_iff)
    then have "set (rev rest @ [v]) = vs" unfolding vs_def by (metis set_sort)
    moreover have "sorted (rev rest @ [v])" using srt by (metis sorted_sort)
    ultimately show ?thesis by (auto simp: sorted_append)
  qed
  moreover have "sort (backup_versions ?entries) = [] \<longleftrightarrow> backup_versions ?entries = []" by (metis set_empty set_sort)
  ultimately show ?thesis by (auto simp: vs_def split: list.splits)
qed

section \<open>Witnesses\<close>

definition eng_world :: "engine option \<Rightarrow> (names \<times> node) list \<Rightarrow> engine_world" where
  "eng_world en xs = \<lparr>w_fs = map_of xs, w_tick = 0, w_next_id = 1, w_heap = (\<lambda>_. None), w_brk = 1,
     w_dl = (\<lambda>_. \<lparr>dl_failures = 0, dl_degraded = False\<rparr>), w_dl_next = 0, w_trace = [], w_engine = en\<rparr>"

definition en1 :: engine where
  "en1 = \<lparr>en_config = config1, en_audit = lg2, en_keychain = LinuxProvider SecretTool\<rparr>"

lemma uninitialised_calls_refused_witness:
  "r_status (fst (synqro_apply_update env0 empty_stores (eng_world None []))) = SynqroErrInternal"
  by (rule uninitialised_calls_refused [where os = empty_stores and E = env0 and w = "eng_world None []",
        of "fst (synqro_apply_update env0 empty_stores (eng_world None []))" "snd (synqro_apply_update env0 empty_stores (eng_world None []))", THEN conjunct1])
     (simp_all add: eng_world_def)

lemma engine_set_once_witness:
  "r_status (fst (synqro_init yaml_env1 (Some ''/conf'') (snd (synqro_health_check yaml_env1 (eng_world (Some en1) []))))) \<noteq> SynqroOk"
proof -
  let ?w = "eng_world (Some en1) []"
  have "w_engine ?w = Some en1" by (simp add: eng_world_def)
  moreover have "(ffi_step yaml_env1 empty_stores)\<^sup>*\<^sup>* ?w (snd (synqro_health_check yaml_env1 ?w))" by (blast intro: ffi_step.health)
  ultimately show ?thesis using engine_set_once [OF quiet_empty_stores] by blast
qed

definition dir_env1 :: env where
  "dir_env1 = env0\<lparr>e_readdir := \<lambda>t fs d. [Some (''v1.9.0'', True), None, Some (''v1.10.0'', True), Some (''blacklist.json'', False)]\<rparr>"

lemma versions1: "backup_versions (e_readdir dir_env1 t fs d) = [''1.9.0'', ''1.10.0'']"
proof -
  have "from_utf8_lossy ''v1.9.0'' = ''v1.9.0''" "from_utf8_lossy ''v1.10.0'' = ''v1.10.0''" by code_simp+
  then show ?thesis by (simp add: dir_env1_def backup_versions_def map_filter_def)
qed

text \<open>Version 1.9.0 is chosen over 1.10.0.\<close>

lemma most_recent_is_largest_text_witness:
  "fst (most_recent_backup_version dir_env1 [RootDir] (world_of [])) = Inr ''1.9.0''"
proof -
  obtain r w' where run: "most_recent_backup_version dir_env1 [RootDir] (world_of []) = (r, w')" by fastforce
  have "e_io dir_env1 (w_tick (world_of [])) OpReadDir (resolve dir_env1 [RootDir]) = None" "is_dir (world_of []) (resolve dir_env1 [RootDir])"
    by (simp_all add: dir_env1_def resolve_def is_dir_def)
  note m = most_recent_is_largest_text [OF run this, unfolded versions1]
  have "\<not> (''1.9.0'' \<le> ''1.10.0'')" by code_simp
  with m have "r = Inr v \<Longrightarrow> v = ''1.9.0''" for v by auto
  moreover from m obtain v where "r = Inr v" by (cases r) auto
  ultimately show ?thesis by (simp add: run)
qed

end
