(* ===== verification/Update_Facts.thy ===== *)
theory Update_Facts
  imports Engine_Facts Artifact_Facts
begin

text \<open>
  What \<open>synqro_apply_update\<close> of \<open>src/lib.rs\<close> guarantees through the downloader, the manifest chain, the
  artifact and the snapshot: an update that reports success was verified, and which files one can touch.
\<close>

section \<open>Applying an update\<close>

definition staged :: "env \<Rightarrow> engine \<Rightarrow> names" where
  "staged E en = resolve E (artifact_temp (staging_of en) (current_platform_triple E))"

definition deployed :: "env \<Rightarrow> engine \<Rightarrow> names" where
  "deployed E en = resolve E (artifact_final (staging_of en) (current_platform_triple E))"

lemma watchdog_fs: "w_fs (snd (start_watchdog E pid t g w)) = w_fs w"
  by (auto simp: start_watchdog_def bindE_def run_command_def ret_def fail_def split: sum.splits proc_result.splits)

lemma apply_update_Inr:
  assumes "apply_update_closure E os w = (Inr u, w')" "w_engine w = Some en"
  obtains dl manifest w1 w2 w3 key exe p w4 w5 where "serves en dl" "w_fs w1 = w_fs w"
    "fetch_and_verify_manifest E dl (keychain_of E os (en_keychain en)) w1 = (Inr manifest, w2)" "new_dirs (set (prefixes (resolve E (staging_of en)))) w2 w3"
    "derive_hmac_key E (cfg_installation_id (en_config en)) = Inr key" "e_exe E = Inr exe"
    "take_snapshot E (mf_version manifest) [exe] (backup_of en) key w3 = (Inr (), w4)"
    "download_and_verify_artifact E dl manifest (staging_of en) (keychain_of E os (en_keychain en)) w4 = (Inr p, w5)"
    "\<forall>q. q \<noteq> al_file (en_audit en) \<longrightarrow> w_fs w' q = w_fs w5 q"
proof -
  from assms obtain dl manifest w1 w2 w3 key exe p w4 w5 w6 u1 u2 where
    dl: "engine_downloader E en w = (Inr dl, w1)"
    and fetch: "fetch_and_verify_manifest E dl (keychain_of E os (en_keychain en)) w1 = (Inr manifest, w2)"
    and dir: "create_dir_all E (e_mkdir_mode E) (staging_of en) w2 = (Inr u2, w3)"
    and rest: "derive_hmac_key E (cfg_installation_id (en_config en)) = Inr key" "e_exe E = Inr exe"
    "take_snapshot E (mf_version manifest) [exe] (backup_of en) key w3 = (Inr (), w4)"
    "download_and_verify_artifact E dl manifest (staging_of en) (keychain_of E os (en_keychain en)) w4 = (Inr p, w5)"
    and log: "audit_log E (en_audit en) UpdateApplied (json_obj [(''version'', JString (mf_version manifest)), (''path'', JString (deployed_name p))]) w5 = (Inr u1, w6)"
    and dog: "w' = snd (start_watchdog E (e_pid E) (rc_health_check_timeout_seconds (cfg_rollback (en_config en)))
       (rc_health_check_timeout_seconds (cfg_rollback (en_config en)) div 2) w6)"
    by (auto simp: apply_update_closure_def apply_update_with_def get_engine_def Let_def run_iff)
  have "w_fs w' q = w_fs w5 q" if "q \<noteq> al_file (en_audit en)" for q
    using fs_only_same [OF stepsD [OF steps_audit_log log]] that dog by (auto simp: watchdog_fs)
  with that engine_downloader_Inr [OF dl] fetch create_dir_all_new [OF dir] rest show thesis by blast
qed

text \<open>C1. When \<open>synqro_apply_update\<close> reports success, the file at the deployment path holds an artifact of this
  platform that passed both digests and the signature of the release key and is within the limit, and that
  an authentic, fresh manifest of the configured repository lists.\<close>

theorem applied_update_verified:
  assumes "synqro_apply_update E os w = (r, w')" "r_status r = SynqroOk" "w_engine w = Some en"
    and "CHR ''/'' \<notin> set (current_platform_triple E)" "al_file (en_audit en) \<notin> {staged E en, deployed E en}"
  shows "\<exists>dl manifest a b. serves en dl \<and> answered_with E dl manifest \<and> find_artifact E manifest = Inr a \<and>
    payload_ok E dl a b \<and> within_limit dl b \<and> file_at w' (deployed E en) = Some b"
proof -
  from catch_all_ok [OF assms(1) [unfolded synqro_apply_update_def] assms(2)] assms(3)
  obtain dl manifest w1 w2 p w4 w5 where serves: "serves en dl"
    and fetch: "fetch_and_verify_manifest E dl (keychain_of E os (en_keychain en)) w1 = (Inr manifest, w2)"
    and load: "download_and_verify_artifact E dl manifest (staging_of en) (keychain_of E os (en_keychain en)) w4 = (Inr p, w5)"
    and keep: "\<forall>q. q \<noteq> al_file (en_audit en) \<longrightarrow> w_fs w' q = w_fs w5 q"
    by (elim apply_update_Inr) blast+
  have "al_file (dl_audit dl) \<notin> {resolve E (artifact_temp (staging_of en) (current_platform_triple E)), resolve E (artifact_final (staging_of en) (current_platform_triple E))}"
    using assms(5) serves by (simp add: staged_def deployed_def serves_def)
  from download_success [OF assms(4) this load] obtain a b where "find_artifact E manifest = Inr a"
    "file_at w5 (deployed E en) = Some b" "payload_ok E dl a b" "within_limit dl b"
    by (auto simp: deployed_def)
  moreover have "file_at w' (deployed E en) = file_at w5 (deployed E en)" using keep assms(5) by (auto simp: file_at_def)
  ultimately show ?thesis using serves fetch_success [OF fetch] by auto
qed

section \<open>What applying an update can touch\<close>

lemma snapshot_file_near:
  "prefix B vns \<Longrightarrow> steps (fs_only (near B)) (snapshot_file E (abs_path vns) p)"
proof -
  assume B: "prefix B vns"
  have "resolve E (path_join (abs_path vns) [Normal n]) \<in> near B" for n
    using B by (simp add: resolve_join_name near_def)
  then show ?thesis
    unfolding snapshot_file_def Let_def by (auto intro!: steps_intro)
qed

lemma take_snapshot_near:
  assumes "CHR ''/'' \<notin> set v"
  shows "steps (fs_only (near (resolve E bd))) (take_snapshot E v ps bd key)"
proof -
  let ?B = "resolve E bd" and ?vns = "resolve E bd @ [''v'' @ v]"
  have "plain_name (''v'' @ v)" using assms by (auto simp: plain_name_def)
  then have vns: "resolve E (version_dir bd v) = ?vns"
    unfolding version_dir_def parse_plain_name [OF \<open>plain_name _\<close>] path_join_normal resolve_def by (simp add: resolve_from_append)
  have dirs: "set (prefixes ?B) \<subseteq> near ?B" "set (prefixes (resolve E (version_dir bd v))) \<subseteq> near ?B"
    unfolding vns by (rule prefixes_near, simp)+
  have json: "resolve E (path_join (abs_path ?vns) [Normal n]) \<in> near ?B" for n
    by (simp add: resolve_join_name near_def)
  have B: "prefix ?B ?vns" by simp
  have cb: "cb = abs_path ?vns"
    if "map_err f (canonicalize E (version_dir bd v)) w = (Inr cb, w')" for f :: "string \<Rightarrow> synqro_error" and cb and w w' :: "'z world_scheme"
    using canonicalize_Inr [of E "version_dir bd v" w cb w'] that vns by (simp add: map_err_Inr)
  show ?thesis
    unfolding take_snapshot_def Let_def
    apply (rule steps_bindE [OF preorder_fs_only steps_map_err [OF steps_create_dir_all [OF dirs(1)]]])
    apply (rule steps_bindE [OF preorder_fs_only steps_map_err [OF steps_create_dir_all [OF dirs(2)]]])
    apply (rule steps_bindE_run [OF preorder_fs_only steps_map_err [OF steps_canonicalize]])
    apply (drule cb)
    apply (simp only:)
    apply (intro steps_bindE steps_collect_each snapshot_file_near [OF B] steps_utc_now steps_lift_res steps_map_err steps_fs_write json preorder_fs_only)
    done
qed

definition update_area :: "env \<Rightarrow> engine \<Rightarrow> names set" where
  "update_area E en = {al_file (en_audit en), staged E en, deployed E en} \<union>
     set (prefixes (resolve E (staging_of en))) \<union> near (resolve E (backup_of en))"

text \<open>C37. As long as the versions of acceptable manifests contain no slash, applying an update touches no file but
  the audit log, the staging file, the deployment path, the directories on the way to the staging directory
  and what lies at, above or below the backup directory, however it ends. (A version like \<open>x/../../y\<close> makes
  \<open>take_snapshot\<close> write beside the backup directory.)\<close>

theorem apply_update_confined:
  assumes "stores_quiet os" and "w_engine w = Some en"
    and "\<And>dl m. serves en dl \<Longrightarrow> answered_with E dl m \<Longrightarrow> CHR ''/'' \<notin> set (mf_version m)"
    and "q \<notin> update_area E en"
  shows "w_fs (snd (synqro_apply_update E os w)) q = w_fs w q"
proof -
  let ?A = "update_area E en" and ?kc = "keychain_of E os (en_keychain en)"
  have sub: "{al_file (en_audit en)} \<subseteq> ?A" "set (prefixes (resolve E (staging_of en))) \<subseteq> ?A" "near (resolve E (backup_of en)) \<subseteq> ?A"
    by (auto simp: update_area_def)
  have rel: "downloader_relation (fs_within ?A) E dl ?A ?kc" if "serves en dl" for dl
    using that by (intro within_relation quiet_providers assms(1)) (simp add: serves_def update_area_def)
  have new: "steps (fs_within ?A) (engine_downloader E en)"
    by (simp add: engine_downloader_def Let_def downloader_new_def steps_def bindE_def lift_res_def map_inl_def no_panic_def map_err_def
        panic_def fail_def ret_def fs_within_def split: sum.splits)
  have dog: "steps (fs_within ?A) (start_watchdog E pid t g)" for pid t g
    by (simp add: steps_def fs_within_def watchdog_fs)
  have snap: "steps (fs_within ?A) (take_snapshot E (mf_version m) ps (backup_of en) key)" if "serves en dl" "answered_with E dl m" for dl m ps key
    by (rule steps_within [OF take_snapshot_near [OF assms(3) [OF that]] sub(3)])
  have load: "steps (fs_within ?A) (download_and_verify_artifact E dl m (staging_of en) ?kc)" if "serves en dl" for dl m
    by (rule downloader_relation.on_download [OF rel [OF that]]) (simp_all add: update_area_def staged_def deployed_def)
  have dir: "steps (fs_within ?A) (create_dir_all E m (staging_of en))" for m
    by (rule steps_within [OF steps_create_dir_all [OF order_refl] sub(2)])
  have log: "steps (fs_within ?A) (audit_log E (en_audit en) ev d)" for ev d
    by (rule steps_within [OF steps_audit_log sub(1)])
  have "steps (fs_within ?A) (apply_update_with E os en)"
    unfolding apply_update_with_def Let_def
    apply (rule steps_bindE_run [OF preorder_fs_within new])
    apply (drule engine_downloader_Inr, elim conjE)
    apply (rule steps_no_panic)
    apply (rule steps_bindE_run [OF preorder_fs_within downloader_relation.on_fetch [OF rel]], assumption)
    apply (drule fetch_success, elim conjE)
    apply (intro steps_bindE steps_map_err steps_lift_res steps_ignore dir log load dog preorder_fs_within; (rule snap)?; assumption)
    done
  then have "fs_within ?A w (snd (apply_update_with E os en w))" by (rule steps_snd)
  moreover have "apply_update_closure E os w = apply_update_with E os en w"
    using assms(2) by (simp add: apply_update_closure_def get_engine_def no_panic_def map_err_def bindE_def ret_def)
  ultimately show ?thesis
    using assms(4) by (simp add: synqro_apply_update_def catch_all_fs fs_within_def)
qed

section \<open>Witnesses\<close>

text \<open>A server that answers with a signed manifest, and with the artifact it lists.\<close>

definition fields3 :: "(string \<times> json) list" where
  "fields3 = [(''artifacts'', JArray [JObject [(''platform'', JString ''linux-x86_64''), (''sha256'', JString (enc_str ''data'')),
       (''sha512'', JString (enc_str ''data5'')), (''sig_ed25519'', JString (replicate 64 (CHR ''A''))),
       (''size_bytes'', JNumber (PosInt 4)), (''url'', JString ''https://example.org/a'')]]),
     (''channel'', JString ''stable''), (''issued_at'', JString ''1700000000''),
     (SIG_FIELD, JString (replicate 64 (CHR ''A''))), (''schema_version'', JString ''1''), (''version'', JString ''2.0'')]"

definition server3 :: env where
  "server3 = env0\<lparr>e_http := \<lambda>t r. Inr \<lparr>rs_status = 200, rs_retry_after = None,
       rs_chunks = (if rq_url r = ''https://example.org/a'' then [Inr ''da'', Inr ''ta''] else [Inr (enc (JObject fields3))])\<rparr>,
     e_proc := \<lambda>t tr c. Exited (Some 0) ''ghp'', e_exe := Inr [RootDir, Normal ''bin'', Normal ''app''],
     e_cwd := [''bin''], e_readdir := \<lambda>t fs d. [Some (''v1.0'', True), Some (''v2.0'', True)]\<rparr>"

definition world3 :: engine_world where
  "world3 = eng_world (Some en1) [([''bin''], Dir 0x1ED), ([''bin'', ''app''], File ''exe'' 0x1ED), ([''stage''], Dir 0x1ED),
     ([''bk''], Dir 0x1C0), ([''bk'', ''v2.0''], Dir 0x1C0), ([''audit''], File [] 0x1A4)]"

abbreviation kc3 :: "engine_world keychain" where
  "kc3 \<equiv> keychain_of server3 empty_stores (en_keychain en1)"

lemma server3_simps:
  "no_faults server3" "logging_env server3" "e_cwd server3 = [''bin'']" "current_platform_triple server3 = ''linux-x86_64''"
  using logging_env0
  by (simp_all add: no_faults_def server3_def logging_env_def json_laws_def hmac_total_def hex_ascii_def time_ascii_def current_platform_triple_def)

lemma server3_fields: "e_http server3 = (\<lambda>t r. Inr \<lparr>rs_status = 200, rs_retry_after = None,
       rs_chunks = (if rq_url r = ''https://example.org/a'' then [Inr ''da'', Inr ''ta''] else [Inr (enc (JObject fields3))])\<rparr>)"
  "e_header_ok server3 = (\<lambda>s. CHR 0x0A \<notin> set s)" "e_runtime server3 = (\<lambda>t. Inr ())"
  by (simp_all add: server3_def)

lemma send3: "client_send server3 dl r w = (e_http server3 (w_tick w) r, w\<lparr>w_tick := Suc (w_tick w),
    w_trace := w_trace w @ [EvHttp r, EvHop (first_hop server3 (w_tick w) r (True, Some ''api.github.com''))]\<rparr>)"
  by (rule client_send_quiet) (simp_all add: server3_def)

lemma parse3: "e_json_parse server3 (enc (JObject fields3)) = Inr (JObject fields3)"
proof -
  have "json_wf (JObject fields3)" by (simp add: fields3_def SIG_FIELD_def)
  then show ?thesis by (simp add: server3_def parse_enc map_inr_def sort_json_keys_id del: enc.simps sort_json_keys.simps json_wf.simps)
qed

lemma typed3: "json_typed server3 ''SynqroManifest'' decode_synqro_manifest (enc (JObject fields3)) = Inr manifest2"
  unfolding json_typed_def parse3
  by (simp add: server3_def fields3_def SIG_FIELD_def manifest2_def manifest1_def artifact2_def decode_synqro_manifest_def decode_artifact_def
      fld_string_def fld_opt_string_def fld_list_def fld_u64_def)

lemma serves1:
  assumes "serves en1 dl"
  shows "dl_update_config dl = cfg_update config1" "dl_source_config dl = cfg_source config1" "dl_installation_id dl = ''id''"
    "dl_crypto_config dl = cfg_crypto config1" "dl_audit dl = lg2"
  using assms by (simp_all add: serves_def en1_def config1_def)

lemma authentic3: "serves en1 dl \<Longrightarrow> authentic_manifest server3 dl 1700000000 (enc (JObject fields3)) manifest2"
proof -
  assume dl: "serves en1 dl"
  have "signed_by_release_key server3 (cfg_crypto config1) fields3"
    unfolding signed_by_release_key_def
    by (intro exI [of _ "replicate 64 (CHR ''A'')"] exI [of _ "replicate 32 (CHR ''A'')"] exI)
      (auto simp: fields3_def SIG_FIELD_def decode_signature_def release_key_def server3_def config1_def bind_res_def simp del: enc.simps sort_json_keys.simps)
  moreover have "fresh_at 1700000000 1700000000" by (simp add: fresh_at_def)
  moreover have "e_parse_dt server3 ''1700000000'' = Some 1700000000"
    by (simp add: server3_def parse_u64_def is_digit_def byte_val_def digits_val_def)
  moreover have "map_of fields3 ''issued_at'' = Some (JString ''1700000000'')" by (simp add: fields3_def SIG_FIELD_def)
  ultimately show ?thesis
    unfolding authentic_manifest_def by (simp add: parse3 typed3 manifest2_def manifest1_def serves1 [OF dl] del: enc.simps)
qed

lemma answers3:
  assumes "serves en1 dl" "answered_with server3 dl m"
  shows "m = manifest2"
proof -
  have "manifest_api_url dl \<noteq> ''https://example.org/a''" by (simp add: manifest_api_url_def)
  with assms(2) have "json_typed server3 ''SynqroManifest'' decode_synqro_manifest (enc (JObject fields3)) = Inr m"
    by (auto simp: answered_with_def authentic_manifest_def manifest_request_def server3_def simp del: enc.simps)
  with typed3 show ?thesis by simp
qed

lemma token3: "load_token_for_request server3 dl kc3 w =
    (Inr ''ghp'', w\<lparr>w_tick := Suc (w_tick w), w_trace := w_trace w @ [EvCmd (st_lookup SYNQRO_KEYCHAIN_SERVICE SYNQRO_TOKEN_ACCOUNT)]\<rparr>)"
proof -
  have "valid_utf8 ''ghp''" by code_simp
  then show ?thesis
    by (simp add: load_token_for_request_def log_err_def on_err_def bindE_def ret_def en1_def linux_keychain_def secret_tool_lookup_def
        run_with_timeout_def world_runner_def server3_def succeeded_def pop_newline_def)
qed

lemma fetch3:
  assumes dl: "serves en1 dl" and ok: "\<not> dl_degraded (dl_cells_of dl w)"
  shows "\<exists>w'. fetch_and_verify_manifest server3 dl kc3 w = (Inr manifest2, w') \<and> \<not> dl_degraded (dl_cells_of dl w') \<and>
    fs_within {[''audit'']} w w'"
proof -
  let ?w = "w\<lparr>w_tick := Suc (w_tick w)\<rparr>"
  obtain w1 where tok: "load_token_for_request server3 dl kc3 ?w = (Inr ''ghp'', w1)" using token3 by blast
  have url: "manifest_api_url dl \<noteq> ''https://example.org/a''" by (simp add: manifest_api_url_def)
  have once: "fetch_manifest_once server3 dl kc3 ?w = accept_manifest server3 dl (enc (JObject fields3))
      (snd (client_send server3 dl (manifest_request dl ''Bearer ghp'') w1))"
    using tok url
    by (simp add: fetch_manifest_once_def bindE_def map_err_def lift_res_def auth_value_def send3 manifest_bytes_def is_success_def
        server3_fields manifest_request_def del: enc.simps keychain_of.simps)
  have "\<exists>w2. accept_manifest server3 dl (enc (JObject fields3)) (snd (client_send server3 dl (manifest_request dl ''Bearer ghp'') w1)) = (Inr manifest2, w2)"
    unfolding accept_manifest_iff using authentic3 [OF dl] by (simp add: server3_def del: enc.simps)
  then obtain w2 where acc: "fetch_manifest_once server3 dl kc3 ?w = (Inr manifest2, w2)" by (auto simp: once)
  have quiet: "quiet_keychain kc3" by (rule quiet_providers [OF quiet_empty_stores])
  have "w_dl w2 = w_dl w" using stepsD [OF fetch_once_cells [OF quiet] acc] by (simp add: same_cells_def)
  define w3 where "w3 = snd (record_success dl w2)"
  then have rec: "record_success dl w2 = (Inr (), w3)" by (simp add: record_success_def ret_def)
  have deg: "\<not> dl_degraded (dl_cells_of dl w3)"
    using record_success_cells [OF rec] ok \<open>w_dl w2 = w_dl w\<close> by (simp add: dl_cells_of_def)
  have "\<exists>rs. [0..<Suc (unat (uc_max_retries (dl_update_config dl)))] = 0 # rs"
    by (simp add: upt_rec del: upt_Suc)
  moreover have "runtime_build server3 w = (Inr (), ?w)" by (simp add: runtime_build_def server3_def)
  ultimately have run: "fetch_and_verify_manifest server3 dl kc3 w = (Inr manifest2, w3)"
    using acc rec ok
    by (auto simp: fetch_and_verify_manifest_def fetch_manifest_internal_def check_degraded_def run_iff dl_cells_of_def simp del: keychain_of.simps)
  have "downloader_relation (fs_within {[''audit'']}) server3 dl {[''audit'']} kc3"
    by (rule within_relation [OF quiet]) (simp add: serves1 [OF dl] lg2_def)
  from stepsD [OF downloader_relation.on_fetch [OF this] run] run deg show ?thesis by blast
qed

lemma paths3: "backup_of en1 = [RootDir, Normal ''bk'']" "staging_of en1 = [RootDir, Normal ''stage'']"
  "version_dir [RootDir, Normal ''bk''] ''2.0'' = [RootDir, Normal ''bk'', Normal ''v2.0'']"
proof -
  have 1: "parse_path ''/bk'' = [RootDir, Normal ''bk'']" "parse_path ''/stage'' = [RootDir, Normal ''stage'']"
    "parse_path ''v2.0'' = [Normal ''v2.0'']" by code_simp+
  then show "backup_of en1 = [RootDir, Normal ''bk'']" "staging_of en1 = [RootDir, Normal ''stage'']"
    "version_dir [RootDir, Normal ''bk''] ''2.0'' = [RootDir, Normal ''bk'', Normal ''v2.0'']"
    by (simp_all add: backup_of_def staging_of_def en1_def config1_def version_dir_def path_join_normal)
qed

lemma world3_fs:
  "w_fs world3 [''bin'', ''app''] = Some (File ''exe'' 0x1ED)" "w_fs world3 [''stage''] = Some (Dir 0x1ED)" "w_fs world3 [''bk''] = Some (Dir 0x1C0)"
  "w_fs world3 [''bk'', ''v2.0''] = Some (Dir 0x1C0)" "w_fs world3 [''bk'', ''v2.0'', n] = None" "w_fs world3 [''stage'', n] = None"
  by (simp_all add: world3_def eng_world_def)

lemma snapshot3:
  fixes w :: engine_world
  assumes like: "fs_within {[''audit'']} world3 w"
  shows "\<exists>w'. take_snapshot server3 ''2.0'' [[RootDir, Normal ''bin'', Normal ''app'']] (backup_of en1) key w = (Inr (), w')"
proof -
  let ?p = "[RootDir, Normal ''bin'', Normal ''app'']" and ?c = "abs_path [''bin'', ''app'']" and ?vns = "[''bk'', ''v2.0'']"
  let ?d = "path_join (abs_path ?vns) [Normal ''app'']" and ?j = "path_join (abs_path ?vns) [Normal ''snapshot.json'']"
  note nf = server3_simps(1)
  let ?w = "\<lambda>n. w\<lparr>w_tick := n + w_tick w\<rparr>"
  have fs: "q \<noteq> [''audit''] \<Longrightarrow> w_fs w q = w_fs world3 q" for q using like by (simp add: fs_within_def)
  have dirs: "is_dir w [''bk'']" "is_dir w ?vns" by (simp_all add: is_dir_def fs world3_fs)
  then have 0: "create_dir_all server3 0x1C0 (backup_of en1) w = (Inr (), w)"
    "create_dir_all server3 0x1C0 (version_dir (backup_of en1) ''2.0'') w = (Inr (), w)"
    unfolding paths3 by (simp_all add: create_dir_all_def resolve_def server3_simps ret_def is_dir_def)
  have 1: "canonicalize server3 (version_dir (backup_of en1) ''2.0'') w = (Inr (abs_path ?vns), ?w 1)"
    unfolding paths3 by (simp add: canonicalize_def Let_def sys_nofault [OF nf] resolve_def server3_simps fs world3_fs)
  have 2: "canonicalize server3 ?p (?w 1) = (Inr ?c, ?w 2)"
    by (simp add: canonicalize_def Let_def sys_nofault [OF nf] resolve_def server3_simps fs world3_fs)
  have 3: "fs_read server3 ?c (?w 2) = (Inr ''exe'', ?w 3)"
    by (simp add: fs_read_def Let_def sys_nofault [OF nf] fs world3_fs)
  have 4: "metadata_mode server3 ?c (?w 3) = (Inr (0x1ED OR 0x8000), ?w 4)"
    by (simp add: metadata_mode_def Let_def sys_nofault [OF nf] fs world3_fs)
  have r: "resolve server3 ?d = ?vns @ [''app'']" "resolve server3 ?j = ?vns @ [''snapshot.json'']" by (simp_all add: resolve_join_name)
  have "is_dir (?w 4) ?vns" "no_dir_at (?w 4) (?vns @ [''app''])" by (simp_all add: is_dir_def no_dir_at_def fs world3_fs)
  from fs_write_run [OF nf r(1) this, of "''exe''"] obtain w5 m where
    5: "fs_write server3 ?d ''exe'' (?w 4) = (Inr (), w5)" "w_fs w5 = (w_fs w)(?vns @ [''app''] \<mapsto> File ''exe'' m)" by auto
  have 6: "assert_path_under_parent server3 ?d (abs_path ?vns) = Inr ()"
    using assert_ok [of server3 ?d "abs_path ?vns" "()"] by (simp add: path_join_normal)
  have "file_name ?c = Some ''app''" by (simp add: file_name_abs)
  with 2 3 4 5(1) 6 obtain e where 7: "snapshot_file server3 (abs_path ?vns) ?p (?w 1) = (Inr e, w5)"
    by (simp add: snapshot_file_def bindE_def map_err_def lift_res_def Let_def ret_def)
  have "is_dir (w5\<lparr>w_tick := t\<rparr>) ?vns" "no_dir_at (w5\<lparr>w_tick := t\<rparr>) (?vns @ [''snapshot.json''])" for t
    by (simp_all add: is_dir_def no_dir_at_def 5(2) fs world3_fs)
  from fs_write_run [OF nf r(2) this] have wr: "\<exists>w'. fs_write server3 ?j s (w5\<lparr>w_tick := t\<rparr>) = (Inr (), w')" for s t by blast
  have "e_json_str server3 v = Inr (enc v)" "e_json_pretty server3 v = Inr (enc v)" "e_hmac server3 k d = Inr (k @ ''.'' @ d)" for v k d
    by (simp_all add: server3_def)
  then have "\<exists>w'. finish_snapshot server3 ''2.0'' key (abs_path ?vns) [e] w5 = (Inr (), w')"
    using wr by (simp add: finish_snapshot_def utc_now_def bindE_def lift_res_def map_err_def Let_def canonical_json_sorted_eq canonical_json_def
        compute_hmac_def split: prod.splits sum.splits) (metis old.sum.distinct(1) prod.inject)
  then obtain w6 where 8: "finish_snapshot server3 ''2.0'' key (abs_path ?vns) [e] w5 = (Inr (), w6)" ..
  from 7 have "snapshot_file server3 (abs_path ?vns) ?p (w\<lparr>w_tick := Suc (w_tick w)\<rparr>) = (Inr e, w5)" by simp
  then show ?thesis
    using 0 1 8 by (simp add: take_snapshot_eq bindE_def map_err_def ret_def)
qed

lemma path_names3:
  "resolve server3 (artifact_temp (staging_of en1) ''linux-x86_64'') = [''stage'', ''synqro_staging_linux-x86_64.tmp'']"
  "resolve server3 (artifact_final (staging_of en1) ''linux-x86_64'') = [''stage'', ''synqro_linux-x86_64.bin'']"
proof -
  have "plain_name ''synqro_staging_linux-x86_64.tmp''" "plain_name ''synqro_linux-x86_64.bin''" by (simp_all add: plain_name_def)
  from this [THEN parse_plain_name] show "resolve server3 (artifact_temp (staging_of en1) ''linux-x86_64'') = [''stage'', ''synqro_staging_linux-x86_64.tmp'']"
    "resolve server3 (artifact_final (staging_of en1) ''linux-x86_64'') = [''stage'', ''synqro_linux-x86_64.bin'']"
    by (simp_all add: artifact_temp_def artifact_final_def path_join_normal paths3 resolve_def)
qed

lemma download3:
  assumes dl: "serves en1 dl" and ok: "\<not> dl_degraded (dl_cells_of dl w)"
    and stage: "w_fs w [''stage''] = Some (Dir 0x1ED)" "w_fs w [''stage'', ''synqro_staging_linux-x86_64.tmp''] = None"
      "w_fs w [''stage'', ''synqro_linux-x86_64.bin''] = None"
  shows "\<exists>p w'. download_and_verify_artifact server3 dl manifest2 (staging_of en1) kc3 w = (Inr p, w')"
proof -
  let ?t = "[''stage'', ''synqro_staging_linux-x86_64.tmp'']" and ?f = "[''stage'', ''synqro_linux-x86_64.bin'']"
  let ?temp = "artifact_temp (staging_of en1) ''linux-x86_64''" and ?final = "artifact_final (staging_of en1) ''linux-x86_64''"
  note nf = server3_simps(1)
  have find: "find_artifact server3 manifest2 = Inr artifact2"
    by (simp add: find_artifact_def Let_def server3_simps manifest2_def artifact2_def)
  obtain w1 where part: "download_part server3 dl manifest2 kc3 w = (Inr (artifact2, Inr ''data''), w1)" and fs1: "w_fs w1 = w_fs w"
    using ok token3 [of dl w]
    by (simp add: download_part_def find bindE_def map_err_def check_degraded_def ret_def auth_value_def lift_res_def send3
        is_success_def runtime_build_def download_bytes_def attempt_def artifact_request_def serves1 [OF dl] server3_fields artifact2_def config1_def
        del: keychain_of.simps)
  obtain w2 m where st: "stage_artifact server3 ?temp ''data'' w1 = (Inr (), w2)" and fs2: "w_fs w2 = (w_fs w)(?t \<mapsto> File ''data'' m)"
    using fs1 stage
    by (simp add: stage_artifact_def bindE_def map_err_def file_create_def write_all_def file_flush_def Let_def
        sys_nofault [OF nf] path_names3 is_dir_def fs_put_def append_to_def)
  have payload: "verify_payload server3 dl artifact2 ?temp ''data'' w2 = (Inr (), snd (audit_log server3 lg2 PayloadHashOk (json_obj []) w2))"
  proof -
    have "take 8 (replicate 64 (CHR ''A'')) = take 8 (replicate 32 (CHR ''A'') @ ''data'')" by simp
    then show ?thesis
      by (simp add: verify_payload_def check_digest_def verify_artifact_sig_def Let_def bindE_def ignore_def ret_def lift_res_def on_err_def
          serves1 [OF dl] server3_def artifact2_def config1_def decode_signature_def release_key_def bind_res_def)
  qed
  define w3 where "w3 = snd (audit_log server3 lg2 PayloadHashOk (json_obj []) w2)"
  have "fs_only {al_file lg2} w2 w3" unfolding w3_def by (rule steps_snd [OF steps_audit_log])
  then have fs3: "q \<noteq> [''audit''] \<Longrightarrow> w_fs w3 q = w_fs w2 q" for q by (auto simp: lg2_def dest: fs_only_same)
  have "fs_rename server3 ?temp ?final w3 = (Inr (), fs_put ?f (Some (File ''data'' m)) (fs_put ?t None (w3\<lparr>w_tick := Suc (w_tick w3)\<rparr>)))"
    by (simp add: fs_rename_def Let_def sys_nofault [OF nf] path_names3 fs3 fs2 is_dir_def stage)
  then show ?thesis
    using part st payload
    by (simp add: download_split bindE_def download_rest_def Let_def artifact2_def install_artifact_def publish_def on_err_def
        record_success_def ret_def flip: w3_def)
qed

lemma applied3: "\<exists>w'. synqro_apply_update server3 empty_stores world3 = (result_ok, w')"
proof -
  let ?exe = "[RootDir, Normal ''bin'', Normal ''app'']"
  have en: "w_engine world3 = Some en1" by (simp add: world3_def eng_world_def)
  obtain dl w1 where new: "engine_downloader server3 en1 world3 = (Inr dl, w1)" and deg1: "\<not> dl_degraded (dl_cells_of dl w1)"
    by (simp add: engine_downloader_def Let_def downloader_new_def bindE_def lift_res_def no_panic_def map_err_def ret_def server3_def dl_cells_of_def)
  from engine_downloader_Inr [OF new] have dl: "serves en1 dl" and fs1: "w_fs w1 = w_fs world3" by simp_all
  from fetch3 [OF dl deg1] obtain w2 where fetch: "fetch_and_verify_manifest server3 dl kc3 w1 = (Inr manifest2, w2)"
    and deg2: "\<not> dl_degraded (dl_cells_of dl w2)" and fs2: "fs_within {[''audit'']} w1 w2" by blast
  have like2: "fs_within {[''audit'']} world3 w2" using fs1 fs2 by (simp add: fs_within_def)
  then have "is_dir w2 [''stage'']" by (simp add: fs_within_def is_dir_def world3_fs)
  then have dir: "create_dir_all server3 m (staging_of en1) w2 = (Inr (), w2)" for m
    by (simp add: create_dir_all_def paths3 resolve_def server3_simps ret_def is_dir_def)
  obtain key where key: "derive_hmac_key server3 (cfg_installation_id (en_config en1)) = Inr key"
    by (simp add: derive_hmac_key_def server3_def)
  from snapshot3 [OF like2, of key] obtain w3 where snap: "take_snapshot server3 (mf_version manifest2) [?exe] (backup_of en1) key w2 = (Inr (), w3)"
    by (auto simp: manifest2_def manifest1_def)
  have "resolve server3 (backup_of en1) = [''bk'']" by (simp add: paths3 resolve_def server3_simps)
  then have near: "fs_only (near [''bk'']) w2 w3"
    using stepsD [OF take_snapshot_near snap] by (simp add: manifest2_def manifest1_def)
  have fs3: "w_fs w3 q = w_fs world3 q" if "q \<noteq> [''audit'']" "q \<notin> near [''bk'']" for q
    using fs_only_same [OF near that(2)] like2 that(1) by (simp add: fs_within_def)
  have dl3: "w_dl w3 = w_dl w2" by (rule fs_only_dl [OF near])
  have "\<exists>p w4. download_and_verify_artifact server3 dl manifest2 (staging_of en1) kc3 w3 = (Inr p, w4)"
    by (rule download3 [OF dl]) (use deg2 dl3 in \<open>simp_all add: dl_cells_of_def fs3 world3_fs near_def\<close>)
  then obtain p w4 where load: "download_and_verify_artifact server3 dl manifest2 (staging_of en1) kc3 w3 = (Inr p, w4)" by blast
  from download_success [OF _ _ load] have name: "p = artifact_final (staging_of en1) ''linux-x86_64''"
    by (auto simp: server3_simps serves1 [OF dl] lg2_def path_names3)
  let ?data = "json_obj [(''version'', JString (mf_version manifest2)), (''path'', JString (deployed_name p))]"
  have "valid_utf8 (mf_version manifest2)" "valid_utf8 (deployed_name p)" "valid_utf8 ''version''" "valid_utf8 ''path''" "valid_utf8 (al_installation_id lg2)"
  proof -
    have 1: "parse_path ''synqro_linux-x86_64.bin'' = [Normal ''synqro_linux-x86_64.bin'']" by code_simp
    have 2: "from_utf8_lossy ''synqro_linux-x86_64.bin'' = ''synqro_linux-x86_64.bin''" by code_simp
    have 3: "valid_utf8 ''synqro_linux-x86_64.bin''" by code_simp
    from 1 2 3 show "valid_utf8 (deployed_name p)"
      by (simp add: name deployed_name_def artifact_final_def path_join_normal file_name_def)
    show "valid_utf8 ''version''" "valid_utf8 ''path''" by code_simp+
    show "valid_utf8 (mf_version manifest2)" "valid_utf8 (al_installation_id lg2)"
      unfolding manifest2_def manifest1_def lg2_def by simp_all code_simp+
  qed
  then have "printable_event (UpdateApplied, ?data)"
    using json_depth_obj [of "[(''version'', JString (mf_version manifest2)), (''path'', JString (deployed_name p))]" 0]
    by (simp add: printable_event_def json_wf_obj json_plain_obj JSON_MAX_DEPTH_def)
  from audit_log_ok [OF server3_simps(1,2) _ this, of lg2 w4] \<open>valid_utf8 (al_installation_id lg2)\<close>
  obtain w5 where log: "audit_log server3 lg2 UpdateApplied ?data w4 = (Inr (), w5)" by blast
  have exe: "e_exe server3 = Inr ?exe" by (simp add: server3_def)
  have lg: "en_audit en1 = lg2" by (simp add: en1_def)
  have "\<exists>w'. apply_update_closure server3 empty_stores world3 = (Inr (), w')"
    using en new fetch dir key exe snap load log
    by (simp add: apply_update_closure_def apply_update_with_def get_engine_def no_panic_def bindE_def ret_def Let_def map_err_def lift_res_def ignore_def lg
        del: keychain_of.simps)
  then show ?thesis unfolding synqro_apply_update_def using catch_all_Inr by blast
qed

lemma applied_update_verified_witness:
  "file_at (snd (synqro_apply_update server3 empty_stores world3)) [''stage'', ''synqro_linux-x86_64.bin''] = Some ''data''"
proof -
  from applied3 obtain w' where run: "synqro_apply_update server3 empty_stores world3 = (result_ok, w')" ..
  have "w_engine world3 = Some en1" by (simp add: world3_def eng_world_def)
  moreover have "CHR ''/'' \<notin> set (current_platform_triple server3)" by (simp add: server3_simps)
  moreover have dep: "deployed server3 en1 = [''stage'', ''synqro_linux-x86_64.bin'']" "staged server3 en1 = [''stage'', ''synqro_staging_linux-x86_64.tmp'']"
    by (simp_all add: deployed_def staged_def server3_simps path_names3)
  moreover from this have "al_file (en_audit en1) \<notin> {staged server3 en1, deployed server3 en1}" by (simp add: en1_def lg2_def)
  moreover have "r_status result_ok = SynqroOk" by (simp add: result_ok_def)
  ultimately obtain dl m a b where 1: "answered_with server3 dl m" "serves en1 dl" "find_artifact server3 m = Inr a"
    and 2: "payload_ok server3 dl a b" "file_at w' (deployed server3 en1) = Some b"
    using applied_update_verified [OF run] by blast
  from answers3 [OF 1(2,1)] 1(3) have "a = artifact2"
    by (simp add: find_artifact_def Let_def server3_simps manifest2_def artifact2_def)
  with 2(1) have "b = ''data''" by (simp add: payload_ok_def server3_def artifact2_def enc_str_inj)
  with 2(2) dep run show ?thesis by simp
qed

lemma apply_update_confined_witness:
  "file_at (snd (synqro_apply_update server3 empty_stores world3)) [''bin'', ''app''] = Some ''exe''"
proof -
  have "w_engine world3 = Some en1" by (simp add: world3_def eng_world_def)
  moreover have "CHR ''/'' \<notin> set (mf_version m)" if "serves en1 dl" "answered_with server3 dl m" for dl m
    using answers3 [OF that] by (simp add: manifest2_def manifest1_def)
  moreover have "[''bin'', ''app''] \<notin> update_area server3 en1"
  proof -
    have "al_file (en_audit en1) = [''audit'']" by (simp add: en1_def lg2_def)
    then show ?thesis
      by (simp add: update_area_def staged_def deployed_def server3_simps path_names3 near_def) (simp add: paths3 resolve_def server3_simps)
  qed
  ultimately have "w_fs (snd (synqro_apply_update server3 empty_stores world3)) [''bin'', ''app''] = w_fs world3 [''bin'', ''app'']"
    using apply_update_confined [OF quiet_empty_stores] by blast
  then show ?thesis by (simp add: file_at_def world3_fs)
qed

end
