(* ===== verification/Update_Rollback.thy ===== *)
theory Update_Rollback
  imports Update_Facts
begin

text \<open>
  Updating and going back, through the C interface (\<open>src/lib.rs\<close>): the snapshot that \<open>synqro_apply_update\<close>
  takes before it downloads anything is the one \<open>synqro_rollback\<close> restores.
\<close>

section \<open>Where the snapshot is\<close>

lemma mkdirs_Inr: "mkdirs E m ds w = (Inr u, w') \<Longrightarrow> \<forall>d. is_dir w d \<or> d \<in> set ds \<longrightarrow> is_dir w' d"
proof (induction ds arbitrary: w)
  case (Cons d ds)
  show ?case
  proof (cases "is_dir w d")
    case True
    with Cons show ?thesis by auto
  next
    case False
    with Cons.prems obtain w1 where rest: "mkdirs E m ds w1 = (Inr u, w')" and "is_dir w1 d" "\<forall>q. is_dir w q \<longrightarrow> is_dir w1 q"
      by (auto simp: bindE_def sys_def Let_def no_effect_def fs_put_def is_dir_def split: option.splits if_splits prod.splits sum.splits)
    with Cons.IH [OF rest] show ?thesis by auto
  qed
qed (simp add: ret_def)

lemma create_dir_all_Inr: "create_dir_all E m p w = (Inr u, w') \<Longrightarrow> p \<noteq> [] \<Longrightarrow> is_dir w' (resolve E p)"
  using mkdirs_Inr [of E m "prefixes (resolve E p)" w u w'] by (simp add: create_dir_all_def)

text \<open>The directory of a version whose text has no slash.\<close>

definition version_names :: "env \<Rightarrow> path \<Rightarrow> string \<Rightarrow> names" where
  "version_names E bd v = resolve E bd @ [''v'' @ v]"

lemma resolve_version_dir:
  assumes "CHR ''/'' \<notin> set v"
  shows "resolve E (version_dir bd v) = version_names E bd v" "version_dir bd v \<noteq> []"
proof -
  have "plain_name (''v'' @ v)" using assms by (auto simp: plain_name_def)
  from parse_plain_name [OF this] show "resolve E (version_dir bd v) = version_names E bd v" "version_dir bd v \<noteq> []"
    by (simp_all add: version_dir_def version_names_def path_join_normal resolve_def resolve_from_append)
qed

text \<open>A snapshot makes the directories on the way to it, and writes files of its own in the last one.\<close>

lemma take_snapshot_traces:
  fixes w :: "'z world_scheme"
  assumes "take_snapshot E v ps bd key w = (Inr u, w')" "snapshot_targets E (version_names E bd v) ps" "CHR ''/'' \<notin> set v"
  defines "vns \<equiv> version_names E bd v"
  obtains w1 where "new_dirs (set (prefixes vns)) w w1" "is_dir w1 vns" "\<forall>q. q \<notin> range (\<lambda>n. vns @ [n]) \<longrightarrow> w_fs w' q = w_fs w1 q"
proof -
  note vd = resolve_version_dir [OF assms(3)]
  from assms(1) obtain a1 w1 a2 w2 cb w3 es w4 where
    0: "create_dir_all E 0x1C0 bd w = (Inr a1, w1)" and
    1: "create_dir_all E 0x1C0 (version_dir bd v) w1 = (Inr a2, w2)"
       "canonicalize E (version_dir bd v) w2 = (Inr cb, w3)" "collect_each ps (snapshot_file E cb) w3 = (Inr es, w4)"
    and fin: "finish_snapshot E v key cb es w4 = (Inr u, w')"
    unfolding take_snapshot_eq run_iff by blast
  have cb: "cb = abs_path vns" "w_fs w3 = w_fs w2" using canonicalize_Inr [OF 1(2)] by (simp_all add: vd vns_def)
  have dir: "is_dir w2 vns" using create_dir_all_Inr [OF 1(1) vd(2)] by (simp add: vd vns_def)
  have "set (prefixes (resolve E bd)) \<subseteq> set (prefixes vns)"
    unfolding vns_def version_names_def by (auto simp: in_set_prefixes)
  then have "steps (new_dirs (set (prefixes vns))) (create_dir_all E m bd :: ('z, unit) sio)" for m
    by (rule steps_new_dirs)
  from stepsD [OF this 0] stepsD [OF steps_new_dirs [of E "version_dir bd v" "set (prefixes vns)"] 1(1)]
  have new: "new_dirs (set (prefixes vns)) w w2"
    using preorder_new_dirs [of "set (prefixes vns)", unfolded preorder_rel_def]
    by (auto simp: vd vns_def dest: transpD)
  have fr: "steps (fs_only {vns @ [''snapshot.json'']}) (finish_snapshot E v key cb es :: ('z, unit) eio)"
    unfolding finish_snapshot_def Let_def
    by (intro steps_bindE steps_utc_now steps_lift_res steps_map_err steps_fs_write preorder_fs_only) (simp add: cb(1) resolve_join_name)
  have "w_fs w' q = w_fs w2 q" if "q \<notin> range (\<lambda>n. vns @ [n])" for q
  proof -
    have "w_fs w' q = w_fs w4 q" by (rule fs_only_same [OF stepsD [OF fr fin]]) (use that in auto)
    moreover have "w_fs w4 q = w_fs w3 q"
      using snapshot_files_Inr(2) [OF 1(3) [unfolded cb(1)]] assms(2) that unfolding vns_def by blast
    ultimately show ?thesis using cb(2) by simp
  qed
  with that [OF new dir] show thesis by blast
qed

section \<open>Which version is taken\<close>

lemma largest_first:
  assumes "(v :: string) \<in> set vs" "\<forall>u \<in> set vs. u \<le> v"
  shows "\<exists>rest. rev (sort vs) = v # rest"
proof -
  have "vs \<noteq> []" using assms(1) by auto
  then obtain xs x where x: "sort vs = xs @ [x]" by (metis rev_exhaust set_empty set_sort)
  then have "set vs = set (xs @ [x])" "sorted (xs @ [x])" by (metis set_sort, metis sorted_sort)
  with assms have "x = v" by (auto simp: sorted_append dest: order_antisym)
  with x show ?thesis by simp
qed

text \<open>Once the version's directory is there, the listing of the backup directory shows it, and no version after
  it in the order of texts.\<close>

definition newest_listed :: "env \<Rightarrow> engine \<Rightarrow> string \<Rightarrow> (names \<Rightarrow> node option) \<Rightarrow> bool" where
  "newest_listed E en v fs0 \<longleftrightarrow> (\<forall>t fs. let bd = resolve E (backup_of en); vs = backup_versions (e_readdir E t fs bd) in
     (\<exists>m. fs (version_names E (backup_of en) v) = Some (Dir m)) \<and> (\<forall>n. n \<noteq> ''v'' @ v \<longrightarrow> fs (bd @ [n]) = fs0 (bd @ [n])) \<longrightarrow>
     v \<in> set vs \<and> (\<forall>u \<in> set vs. u \<le> v))"

lemma most_recent_run:
  assumes "no_faults E" "is_dir w (resolve E (backup_of en))" "newest_listed E en v fs0"
    and "is_dir w (version_names E (backup_of en) v)"
    and "\<And>n. n \<noteq> ''v'' @ v \<Longrightarrow> w_fs w (resolve E (backup_of en) @ [n]) = fs0 (resolve E (backup_of en) @ [n])"
  shows "\<exists>w'. most_recent_backup_version E (backup_of en) w = (Inr v, w') \<and> w_fs w' = w_fs w"
proof -
  let ?vs = "backup_versions (e_readdir E (Suc (w_tick w)) (w_fs w) (resolve E (backup_of en)))"
  have "\<exists>m. w_fs w (version_names E (backup_of en) v) = Some (Dir m)"
    using assms(4) by (auto simp: is_dir_def version_names_def split: option.splits node.splits)
  with assms(3,5) have "v \<in> set ?vs" "\<forall>u \<in> set ?vs. u \<le> v" unfolding newest_listed_def Let_def by blast+
  from largest_first [OF this] obtain rest where "rev (sort ?vs) = v # rest" by blast
  with assms(1,2) show ?thesis
    by (simp add: most_recent_backup_version_def bindE_def map_err_def read_dir_def Let_def sys_nofault is_dir_def lift_res_def)
qed

section \<open>Updating, then rolling back\<close>

text \<open>The names a rollback writes in the working directory.\<close>

definition restored_names :: "env \<Rightarrow> path \<Rightarrow> names set" where
  "restored_names E p = {e_cwd E @ [target_name E p], e_cwd E @ [restore_temp_name (target_name E p)]}"

text \<open>The names involved are apart from each other.\<close>

definition undo_apart :: "env \<Rightarrow> engine \<Rightarrow> string \<Rightarrow> path \<Rightarrow> bool" where
  "undo_apart E en v p \<longleftrightarrow> (let bd = resolve E (backup_of en); vns = version_names E (backup_of en) v; log = al_file (en_audit en) in
     names_apart E (backup_of en) vns (en_audit en) \<and> snapshot_targets E vns [p] \<and>
     resolve E p \<noteq> log \<and> log \<noteq> e_cwd E \<and> e_cwd E \<notin> range (\<lambda>n. vns @ [n]) \<and> CHR ''/'' \<notin> set v \<and> valid_utf8 v \<and>
     {staged E en, deployed E en} \<inter>
       ({bd, e_cwd E} \<union> range (\<lambda>n. bd @ [n]) \<union> range (\<lambda>n. vns @ [n]) \<union> restored_names E p) = {} \<and>
     set (prefixes (resolve E (staging_of en))) \<inter> (range (\<lambda>n. bd @ [n]) \<union> restored_names E p) = {} \<and>
     set (prefixes vns) \<inter> restored_names E p = {})"

text \<open>What a rollback needs to find: the books can be read and written, the names to restore to
  are no directories, and the version will be the newest one listed.\<close>

definition undo_ready :: "env \<Rightarrow> engine \<Rightarrow> bytes \<Rightarrow> string \<Rightarrow> path \<Rightarrow> 'z world_scheme \<Rightarrow> bool" where
  "undo_ready E en key v p w \<longleftrightarrow>
     books_ready E key (backup_of en) (en_audit en) w \<and> is_dir w (e_cwd E) \<and>
     (\<forall>q \<in> restored_names E p. no_dir_at w q) \<and> newest_listed E en v (w_fs w)"

lemma restore_temp_name_other: "n \<noteq> restore_temp_name n"
  using with_extension_other_name [of "''synqro_restore.tmp''" n] by (auto simp: restore_temp_name_def)

lemma rollback_triggered:
  assumes "no_faults E" "logging_env E" "valid_utf8 (al_installation_id lg)"
  shows "\<exists>w'. audit_log E lg RollbackTriggered (json_obj []) w = (Inr (), w') \<and> (\<forall>q. q \<noteq> al_file lg \<longrightarrow> w_fs w' q = w_fs w q)"
proof -
  have "printable_event (RollbackTriggered, json_obj [])"
    using json_depth_obj [of "[]" 0] by (simp add: printable_event_def json_wf_obj json_plain_obj JSON_MAX_DEPTH_def)
  from audit_log_ok [OF assms this] obtain w' where run: "audit_log E lg RollbackTriggered (json_obj []) w = (Inr (), w')" by blast
  from fs_only_same [OF stepsD [OF steps_audit_log run]] run show ?thesis by blast
qed

text \<open>What an update that succeeded has stored, and left alone.\<close>

definition kept_or_made :: "names set \<Rightarrow> 'z world_scheme \<Rightarrow> 'z world_scheme \<Rightarrow> names \<Rightarrow> bool" where
  "kept_or_made S w w' q \<longleftrightarrow> w_fs w' q = w_fs w q \<or>
     q \<in> S \<and> \<not> is_dir w q \<and> w_fs w q = None \<and> (\<exists>m. w_fs w' q = Some (Dir m))"

lemma kept_or_made_trans:
  assumes "kept_or_made S u v q" "kept_or_made T v w q"
  shows "kept_or_made (S \<union> T) u w q"
proof (cases "w_fs v q = w_fs u q")
  case True
  with assms(2) is_dir_cong [OF True] show ?thesis by (auto simp: kept_or_made_def)
next
  case False
  with assms(1) obtain m where "q \<in> S" "\<not> is_dir u q" "w_fs u q = None" "w_fs v q = Some (Dir m)"
    by (auto simp: kept_or_made_def)
  moreover from this assms(2) have "w_fs w q = w_fs v q" by (auto simp: kept_or_made_def)
  ultimately show ?thesis by (simp add: kept_or_made_def)
qed

lemma kept_same: "w_fs w' q = w_fs w q \<Longrightarrow> kept_or_made {} w w' q"
  by (simp add: kept_or_made_def)

lemma kept_new: "new_dirs S w w' \<Longrightarrow> kept_or_made S w w' q"
  by (simp add: kept_or_made_def new_dirs_def)

lemma kept_dir: "kept_or_made S w w' q \<Longrightarrow> is_dir w q \<Longrightarrow> w_fs w' q = w_fs w q"
  by (auto simp: kept_or_made_def)

lemma kept_outside: "kept_or_made S w w' q \<Longrightarrow> q \<notin> S \<Longrightarrow> w_fs w' q = w_fs w q"
  by (auto simp: kept_or_made_def)

definition update_files :: "env \<Rightarrow> engine \<Rightarrow> string \<Rightarrow> names set" where
  "update_files E en v = {al_file (en_audit en), staged E en, deployed E en} \<union> range (\<lambda>n. version_names E (backup_of en) v @ [n])"

definition update_dirs :: "env \<Rightarrow> engine \<Rightarrow> string \<Rightarrow> names set" where
  "update_dirs E en v = set (prefixes (resolve E (staging_of en))) \<union> set (prefixes (version_names E (backup_of en) v))"

lemma applied_snapshot:
  fixes w :: "'z engine_world_scheme"
  assumes "stores_quiet os" "apply_update_closure E os w = (Inr (), w')" "w_engine w = Some en"
    and "\<And>m. \<exists>dl. serves en dl \<and> answered_with E dl m \<Longrightarrow> mf_version m = v"
    and "e_exe E = Inr p" "undo_apart E en v p" and books: "al_file (en_audit en) \<notin> range (\<lambda>n. resolve E (backup_of en) @ [n])"
  obtains key u and w3 w4 :: "'z engine_world_scheme" where "derive_hmac_key E (cfg_installation_id (en_config en)) = Inr key"
    "take_snapshot E v [p] (backup_of en) key w3 = (Inr u, w4)" "file_at w3 (resolve E p) = file_at w (resolve E p)"
    "\<forall>n. w_fs w' (version_names E (backup_of en) v @ [n]) = w_fs w4 (version_names E (backup_of en) v @ [n])"
    "is_dir w' (version_names E (backup_of en) v)" "\<forall>q. q \<notin> update_files E en v \<longrightarrow> kept_or_made (update_dirs E en v) w w' q"
proof -
  let ?vns = "version_names E (backup_of en) v" and ?kc = "keychain_of E os (en_keychain en)" and ?log = "al_file (en_audit en)"
  obtain dl manifest w1 w2 w3 key exe q w4 w5 where
    dl: "serves en dl" "w_fs w1 = w_fs w"
    and fetch: "fetch_and_verify_manifest E dl ?kc w1 = (Inr manifest, w2)"
    and dir: "new_dirs (set (prefixes (resolve E (staging_of en)))) w2 w3"
    and key: "derive_hmac_key E (cfg_installation_id (en_config en)) = Inr key" and exe: "e_exe E = Inr exe"
    and snap: "take_snapshot E (mf_version manifest) [exe] (backup_of en) key w3 = (Inr (), w4)"
    and load: "download_and_verify_artifact E dl manifest (staging_of en) ?kc w4 = (Inr q, w5)"
    and rest: "\<forall>q. q \<noteq> ?log \<longrightarrow> w_fs w' q = w_fs w5 q"
    by (rule apply_update_Inr [OF assms(2,3)])
  have v: "mf_version manifest = v" using assms(4) dl(1) fetch_success [OF fetch] by blast
  have p: "exe = p" using exe assms(5) by simp
  have quiet: "quiet_keychain ?kc" by (rule quiet_providers [OF assms(1)])
  from assms(6) have apart: "names_apart E (backup_of en) ?vns (en_audit en)" "snapshot_targets E ?vns [p]" "resolve E p \<noteq> ?log" "CHR ''/'' \<notin> set v"
    and away: "{staged E en, deployed E en} \<inter> (range (\<lambda>n. resolve E (backup_of en) @ [n]) \<union> range (\<lambda>n. ?vns @ [n])) = {}"
    by (auto simp: undo_apart_def Let_def)
  have log: "al_file (dl_audit dl) = ?log" using dl(1) by (simp add: serves_def)
  have "downloader_relation (fs_within {?log}) E dl {?log} ?kc" by (rule within_relation [OF quiet]) (simp add: log)
  from stepsD [OF downloader_relation.on_fetch [OF this] fetch] have fetched: "fs_within {?log} w1 w2" .
  then have src: "file_at w3 (resolve E p) = file_at w (resolve E p)"
    using new_dirs_files [OF dir] dl(2) apart(3) by (simp add: fs_within_def file_at_def)
  let ?S = "{?log, staged E en, deployed E en}"
  have "downloader_relation (fs_within ?S) E dl ?S ?kc" by (rule within_relation [OF quiet]) (simp add: log)
  from stepsD [OF downloader_relation.on_download [OF this] load] have "fs_within ?S w4 w5"
    by (simp add: staged_def deployed_def)
  then have kept: "w_fs w' q = w_fs w4 q" if "q \<notin> ?S" for q using rest that by (simp add: fs_within_def)
  have out: "?vns @ [n] \<notin> ?S" "?vns \<notin> ?S" for n
  proof -
    have "?vns @ [n] \<noteq> ?log" using apart(1) unfolding names_apart_def by (metis rangeI)
    moreover have "?vns \<noteq> ?log" using books unfolding version_names_def by (metis rangeI)
    moreover have "q \<notin> {staged E en, deployed E en}" if "q \<in> range (\<lambda>n. resolve E (backup_of en) @ [n]) \<union> range (\<lambda>n. ?vns @ [n])" for q
      using away that by blast
    moreover have "?vns \<in> range (\<lambda>n. resolve E (backup_of en) @ [n])" by (simp add: version_names_def)
    ultimately show "?vns @ [n] \<notin> ?S" "?vns \<notin> ?S" by blast+
  qed
  obtain wd where made: "new_dirs (set (prefixes ?vns)) w3 wd" "is_dir wd ?vns"
    and files: "\<forall>q. q \<notin> range (\<lambda>n. ?vns @ [n]) \<longrightarrow> w_fs w4 q = w_fs wd q"
    by (rule take_snapshot_traces [OF snap [unfolded v p] apart(2,4)])
  have "w_fs w' ?vns = w_fs wd ?vns" using kept [OF out(2)] files by auto
  then have dir': "is_dir w' ?vns" using made(2) is_dir_cong by blast
  have "kept_or_made (update_dirs E en v) w w' q" if q: "q \<notin> update_files E en v" for q
  proof -
    from q have "w_fs w2 q = w_fs w q" "w_fs w' q = w_fs wd q"
      using fetched dl(2) kept files by (auto simp: update_files_def fs_within_def)
    from kept_or_made_trans [OF kept_or_made_trans [OF kept_or_made_trans [OF kept_same [OF this(1)] kept_new [OF dir]] kept_new [OF made(1)]]
        kept_same [OF this(2)]]
    show ?thesis by (simp add: update_dirs_def)
  qed
  moreover have "\<forall>n. w_fs w' (?vns @ [n]) = w_fs w4 (?vns @ [n])" using kept [OF out(1)] by blast
  ultimately show thesis by (intro that [OF key snap [unfolded v p] src] dir') simp_all
qed

text \<open>What the rollback needs is still there after the update.\<close>

lemma book_names_no_version: "n \<in> book_names \<Longrightarrow> n \<noteq> ''v'' @ v"
  by (auto simp: book_names_def json_temp_name_def)

lemma ready_after:
  fixes w :: "'z world_scheme"
  assumes apart: "undo_apart E en v p" and ready: "undo_ready E en key v p w"
    and kept: "\<forall>q. q \<notin> update_files E en v \<longrightarrow> kept_or_made (update_dirs E en v) w w' q"
  shows "books_ready E key (backup_of en) (en_audit en) w'" "is_dir w' (e_cwd E)" "is_dir w' (resolve E (backup_of en))"
    and "\<forall>q \<in> restored_names E p. no_dir_at w' q"
    and "n \<noteq> ''v'' @ v \<Longrightarrow> w_fs w' (resolve E (backup_of en) @ [n]) = w_fs w (resolve E (backup_of en) @ [n])"
proof -
  let ?bd = "resolve E (backup_of en)" and ?vns = "version_names E (backup_of en) v" and ?log = "al_file (en_audit en)"
  have books: "books_ready E key (backup_of en) (en_audit en) w" using ready by (simp add: undo_ready_def)
  then have bd: "is_dir w ?bd" "?log \<noteq> ?bd" "?log \<notin> range (\<lambda>n. ?bd @ [n])"
    by (simp_all add: books_ready_def writable_at_def books_paths)
  have cwd: "is_dir w (e_cwd E)" "?log \<noteq> e_cwd E" "e_cwd E \<notin> range (\<lambda>n. ?vns @ [n])"
    and named: "?log \<notin> range (\<lambda>n. e_cwd E @ [n])" "?vns \<noteq> e_cwd E"
    using apart ready by (simp_all add: undo_apart_def undo_ready_def names_apart_def Let_def)
  have away: "q \<notin> {staged E en, deployed E en}" if "q \<in> {?bd, e_cwd E} \<union> range (\<lambda>n. ?bd @ [n]) \<union> restored_names E p" for q
    using apart that unfolding undo_apart_def Let_def by blast
  have "?bd \<notin> update_files E en v" "e_cwd E \<notin> update_files E en v"
    using away [of ?bd] away [of "e_cwd E"] bd(2) cwd(2,3) unfolding update_files_def by (auto simp: version_names_def)
  with kept kept_dir bd(1) cwd(1) have same: "w_fs w' ?bd = w_fs w ?bd" "w_fs w' (e_cwd E) = w_fs w (e_cwd E)" by blast+
  then show "is_dir w' (e_cwd E)" "is_dir w' ?bd" using bd(1) cwd(1) by (simp_all add: is_dir_def)
  show listed: "w_fs w' (?bd @ [n]) = w_fs w (?bd @ [n])" if "n \<noteq> ''v'' @ v" for n
  proof (rule kept_outside)
    have "?bd @ [n] \<noteq> ?log" using bd(3) by (metis rangeI)
    moreover have "?bd @ [n] \<notin> range (\<lambda>n. ?vns @ [n])" by (auto simp: version_names_def)
    ultimately have "?bd @ [n] \<notin> update_files E en v" using away [of "?bd @ [n]"] unfolding update_files_def by blast
    with kept show "kept_or_made (update_dirs E en v) w w' (?bd @ [n])" by blast
    have "?bd @ [n] \<notin> set (prefixes (resolve E (staging_of en)))" using apart unfolding undo_apart_def Let_def by blast
    moreover have "\<not> prefix (?bd @ [n]) ?vns" using that by (simp add: version_names_def)
    ultimately show "?bd @ [n] \<notin> update_dirs E en v" by (simp add: update_dirs_def)
  qed
  show "books_ready E key (backup_of en) (en_audit en) w'"
    using books_ready_names [OF books same(1)] listed book_names_no_version by blast
  show "\<forall>q \<in> restored_names E p. no_dir_at w' q"
  proof
    fix q
    assume q: "q \<in> restored_names E p"
    then have "q \<notin> range (\<lambda>n. ?vns @ [n])" "q \<noteq> ?log" using named unfolding restored_names_def by auto
    with away q have "q \<notin> update_files E en v" unfolding update_files_def by blast
    moreover have "q \<notin> update_dirs E en v" using apart q unfolding undo_apart_def update_dirs_def Let_def by blast
    ultimately have "w_fs w' q = w_fs w q" using kept kept_outside by blast
    with ready q show "no_dir_at w' q" by (simp add: undo_ready_def no_dir_at_def)
  qed
qed

text \<open>C2. An update can be undone through the C interface, when its version is the largest text among the backups
  the directory lists, since that is the one \<open>synqro_rollback\<close> goes back to, and the names involved do not
  collide: after a \<open>synqro_apply_update\<close> that succeeded, with a working system and backup books that can be
  read and written, \<open>synqro_rollback\<close> succeeds, and in the working directory the file with the program's name
  holds the program as it was before the update. (With a backup of 1.9.0, an update to 1.10.0 is not of this
  kind: the rollback goes to 1.9.0.)\<close>

theorem applied_update_can_be_undone:
  fixes w :: "'z engine_world_scheme"
  assumes env: "no_faults E" "logging_env E" "stores_quiet os" "valid_utf8 (al_installation_id (en_audit en))"
    and run: "synqro_apply_update E os w = (r, w1)" "r_status r = SynqroOk" "w_engine w = Some en"
    and version: "\<And>dl m. serves en dl \<Longrightarrow> answered_with E dl m \<Longrightarrow> mf_version m = v"
    and exe: "e_exe E = Inr p" "undo_apart E en v p"
    and ready: "\<And>key. derive_hmac_key E (cfg_installation_id (en_config en)) = Inr key \<Longrightarrow> undo_ready E en key v p w"
  shows "\<exists>b w2. file_at w (resolve E p) = Some b \<and> synqro_rollback E w1 = (result_ok, w2) \<and>
    file_at w2 (e_cwd E @ [target_name E p]) = Some b"
proof -
  let ?bd = "backup_of en" and ?lg = "en_audit en" and ?vns = "version_names E (backup_of en) v"
  from exe(2) have apart: "names_apart E ?bd ?vns ?lg" "snapshot_targets E ?vns [p]" "CHR ''/'' \<notin> set v" "valid_utf8 v"
    by (simp_all add: undo_apart_def Let_def)
  note vd = resolve_version_dir(1) [OF apart(3), of E ?bd, symmetric]
  from catch_all_ok [OF run(1) [unfolded synqro_apply_update_def] run(2)]
  have closure: "apply_update_closure E os w = (Inr (), w1)" .
  then obtain key0 where "derive_hmac_key E (cfg_installation_id (en_config en)) = Inr key0"
    by (rule apply_update_Inr [OF _ run(3)])
  from ready [OF this] have books: "al_file ?lg \<notin> range (\<lambda>n. resolve E ?bd @ [n])" by (simp add: undo_ready_def books_ready_def)
  obtain key u and w3 w4 :: "'z engine_world_scheme" where
    key: "derive_hmac_key E (cfg_installation_id (en_config en)) = Inr key"
    and snap: "take_snapshot E v [p] ?bd key w3 = (Inr u, w4)" "file_at w3 (resolve E p) = file_at w (resolve E p)"
    and kept: "\<forall>n. w_fs w1 (?vns @ [n]) = w_fs w4 (?vns @ [n])" "is_dir w1 ?vns"
    and update: "\<forall>q. q \<notin> update_files E en v \<longrightarrow> kept_or_made (update_dirs E en v) w w1 q"
    by (rule applied_snapshot [OF env(3) closure run(3) _ exe books]) (use version in blast)+
  have en: "w_engine w1 = Some en"
    using steps_snd [OF closures_keep_engine(2) [OF env(3), of E], of w] closure run(3) by (simp add: same_engine_def)
  from rollback_triggered [OF env(1,2,4)] obtain w2 where
    logged: "audit_log E ?lg RollbackTriggered (json_obj []) w1 = (Inr (), w2)"
    and fs: "q \<noteq> al_file ?lg \<Longrightarrow> w_fs w2 q = w_fs w1 q" for q by blast
  have settled: "\<forall>q. q \<notin> update_files E en v \<longrightarrow> kept_or_made (update_dirs E en v) w w' q"
    if "w_fs w' = w_fs w2" for w' :: "'z engine_world_scheme"
    using update that by (auto simp: fs update_files_def kept_or_made_def)
  note after = ready_after [OF exe(2) ready [OF key] settled]
  have vns: "is_dir w2 ?vns" "\<forall>n. w_fs w2 (?vns @ [n]) = w_fs w4 (?vns @ [n])"
  proof -
    have "al_file ?lg \<noteq> ?vns" "al_file ?lg \<notin> range (\<lambda>n. ?vns @ [n])"
      using books apart(1) unfolding version_names_def by (auto simp: names_apart_def)
    then have "w_fs w2 ?vns = w_fs w1 ?vns" "\<forall>n. w_fs w2 (?vns @ [n]) = w_fs w1 (?vns @ [n])" using fs by (metis, metis rangeI)
    with kept show "is_dir w2 ?vns" "\<forall>n. w_fs w2 (?vns @ [n]) = w_fs w4 (?vns @ [n])" by (simp_all add: is_dir_def)
  qed
  have "newest_listed E en v (w_fs w)" using ready [OF key] by (simp add: undo_ready_def)
  from most_recent_run [OF env(1) after(3) [OF refl] this vns(1) after(5) [OF refl]] obtain w3' where
    recent: "most_recent_backup_version E ?bd w2 = (Inr v, w3')" and fs3: "w_fs w3' = w_fs w2" by blast
  have name: "restorable_names (map (target_name E) [p])"
    using apart(2) restore_temp_name_other by (simp add: restorable_names_def snapshot_targets_def)
  have "\<exists>w'. rollback E v ?bd key ?lg w3' = (Inr (), w') \<and>
      (\<forall>p \<in> set [p]. \<exists>b. file_at w3 (resolve E p) = Some b \<and> file_at w' (e_cwd E @ [target_name E p]) = Some b)"
    by (rule snapshot_restored [OF env(1,2) apart(4) env(4) snap(1) apart(2) name vd])
      (use vns after(1,2,4) [OF fs3] apart(1) in \<open>auto simp: fs3 is_dir_def restored_names_def\<close>)
  then obtain w4' b where undone: "rollback E v ?bd key ?lg w3' = (Inr (), w4')"
    and b: "file_at w3 (resolve E p) = Some b" "file_at w4' (e_cwd E @ [target_name E p]) = Some b" by auto
  have "rollback_closure E w1 = (Inr (), w4')"
    using en logged key recent undone
    by (simp add: rollback_closure_def get_engine_def bindE_def ret_def lift_res_def Let_def)
  then have "synqro_rollback E w1 = (result_ok, w4')" unfolding synqro_rollback_def by (intro catch_all_Inr) (simp add: run_iff)
  with b snap(2) show ?thesis by auto
qed

section \<open>Witness\<close>

lemma restored3: "restored_names server3 [RootDir, Normal ''bin'', Normal ''app''] = {[''bin'', ''app''], [''bin'', ''app.synqro_restore.tmp'']}"
  by (simp add: restored_names_def target_name_def resolve_def server3_simps restore_temp_name_def stem_def)

lemma names3:
  "version_names server3 (backup_of en1) ''2.0'' = [''bk'', ''v2.0'']" "resolve server3 (backup_of en1) = [''bk'']"
  "resolve server3 (staging_of en1) = [''stage'']" "al_file (en_audit en1) = [''audit'']"
  "staged server3 en1 = [''stage'', ''synqro_staging_linux-x86_64.tmp'']" "deployed server3 en1 = [''stage'', ''synqro_linux-x86_64.bin'']"
proof -
  show bk: "resolve server3 (backup_of en1) = [''bk'']" and "resolve server3 (staging_of en1) = [''stage'']"
    by (simp_all add: paths3 resolve_def)
  from bk show "version_names server3 (backup_of en1) ''2.0'' = [''bk'', ''v2.0'']" by (simp add: version_names_def)
  show "al_file (en_audit en1) = [''audit'']" by (simp add: en1_def lg2_def)
  show "staged server3 en1 = [''stage'', ''synqro_staging_linux-x86_64.tmp'']" "deployed server3 en1 = [''stage'', ''synqro_linux-x86_64.bin'']"
    by (simp_all add: staged_def deployed_def server3_simps path_names3)
qed

lemma program3: "resolve server3 [RootDir, Normal ''bin'', Normal ''app''] = [''bin'', ''app'']" "target_name server3 [RootDir, Normal ''bin'', Normal ''app''] = ''app''"
  by (simp_all add: target_name_def resolve_def)

lemma undo_apart3: "undo_apart server3 en1 ''2.0'' [RootDir, Normal ''bin'', Normal ''app'']"
proof -
  have "valid_utf8 ''2.0''" "valid_utf8 ''app''" by code_simp+
  moreover have "plain_name ''app''" by (simp add: plain_name_def)
  ultimately show ?thesis
    by (auto simp: undo_apart_def Let_def names3 restored3 names_apart_def server3_simps snapshot_targets_def program3)
qed

lemma undo_ready3: "undo_ready server3 en1 key ''2.0'' [RootDir, Normal ''bin'', Normal ''app''] world3"
proof -
  have free: "w_fs world3 [''bk'', n] = (if n = ''v2.0'' then Some (Dir 0x1C0) else None)" for n
    by (simp add: world3_def eng_world_def)
  have "json_temp_name n \<noteq> ''v2.0''" for n by (simp add: json_temp_name_def)
  then have "books_ready server3 key (backup_of en1) (en_audit en1) world3"
    using json_temp_not_book
    by (auto simp: books_ready_def writable_at_def books_paths names3 is_dir_def no_dir_at_def free world3_fs valid_list_def listed_def
        stored_blacklist_def stored_counters_def path_exists_def file_at_def good_counters_def json_readable_def JSON_MAX_DEPTH_def dest: sym)
  moreover have "\<forall>q \<in> restored_names server3 [RootDir, Normal ''bin'', Normal ''app'']. no_dir_at world3 q" "is_dir world3 [''bin'']"
    by (simp_all add: restored3 no_dir_at_def is_dir_def world3_def eng_world_def)
  moreover have "newest_listed server3 en1 ''2.0'' fs" for fs
  proof -
    have "backup_versions (e_readdir server3 t fs' d) = [''1.0'', ''2.0'']" for t fs' d
      unfolding server3_def by (simp add: backup_versions_def) code_simp
    moreover have "''1.0'' \<le> ''2.0''" by code_simp
    ultimately show ?thesis by (simp add: newest_listed_def)
  qed
  ultimately show ?thesis by (simp add: undo_ready_def server3_simps)
qed

lemma applied_update_can_be_undone_witness:
  "\<exists>w2. synqro_rollback server3 (snd (synqro_apply_update server3 empty_stores world3)) = (result_ok, w2) \<and>
     file_at w2 [''bin'', ''app''] = Some ''exe''"
proof -
  let ?p = "[RootDir, Normal ''bin'', Normal ''app'']"
  from applied3 obtain w1 where run: "synqro_apply_update server3 empty_stores world3 = (result_ok, w1)" ..
  have en: "w_engine world3 = Some en1" by (simp add: world3_def eng_world_def)
  have id: "valid_utf8 (al_installation_id (en_audit en1))" unfolding en1_def lg2_def by simp code_simp
  have ok: "r_status result_ok = SynqroOk" by (simp add: result_ok_def)
  have version: "mf_version m = ''2.0''" if "serves en1 dl" "answered_with server3 dl m" for dl m
    using answers3 [OF that] by (simp add: manifest2_def manifest1_def)
  have exe: "e_exe server3 = Inr ?p" by (simp add: server3_def)
  from applied_update_can_be_undone [OF server3_simps(1,2) quiet_empty_stores id run ok en version exe undo_apart3 undo_ready3]
  show ?thesis using run
    by (simp add: target_name_def resolve_def server3_simps) (simp add: file_at_def world3_fs)
qed

end
