(* ===== verification/Ignored_Files.thy ===== *)
theory Ignored_Files
  imports Update_Facts
begin

text \<open>
  What an update does not look at. \<open>ignores f m\<close>: changing the world by \<open>f\<close> first has no effect on what \<open>m\<close>
  returns, and \<open>m\<close> leaves the same world changed by \<open>f\<close>. With \<open>f\<close> the replacement of one file this says that
  the file is neither read nor written; it is carried through the downloader (\<open>src/downloader.rs\<close>), the snapshot
  (\<open>src/rollback.rs\<close>) and \<open>synqro_apply_update\<close> (\<open>src/lib.rs\<close>).
\<close>

section \<open>Operations that ignore a change\<close>

named_theorems ignores_intro

definition ignores :: "('s \<Rightarrow> 's) \<Rightarrow> ('s, 'e, 'a) io \<Rightarrow> bool" where
  "ignores f m \<longleftrightarrow> (\<forall>w. m (f w) = apsnd f (m w))"

lemma ignoresD: "ignores f m \<Longrightarrow> m w = (r, w') \<Longrightarrow> m (f w) = (r, f w')"
  by (simp add: ignores_def)

lemma ignores_snd: "ignores f m \<Longrightarrow> snd (m (f w)) = f (snd (m w))"
  by (simp add: ignores_def)

lemma ignores_ret [ignores_intro]: "ignores f (ret x)"
  by (simp add: ignores_def ret_def)

lemma ignores_fail [ignores_intro]: "ignores f (fail e)"
  by (simp add: ignores_def fail_def)

lemma ignores_lift_res [ignores_intro]: "ignores f (lift_res r)"
  by (simp add: ignores_def lift_res_def)

lemma ignores_bindE_run:
  assumes "ignores f m" "\<And>x w w'. m w = (Inr x, w') \<Longrightarrow> ignores f (k x)"
  shows "ignores f (bindE m k)"
  unfolding ignores_def
proof
  fix w
  obtain r w1 where m: "m w = (r, w1)" by fastforce
  note m' = ignoresD [OF assms(1) m]
  show "bindE m k (f w) = apsnd f (bindE m k w)"
    using m m' assms(2) by (cases r) (auto simp: bindE_def ignores_def)
qed

lemma ignores_bindE [ignores_intro]: "ignores f m \<Longrightarrow> (\<And>x. ignores f (k x)) \<Longrightarrow> ignores f (bindE m k)"
  by (rule ignores_bindE_run)

lemma ignores_map_err [ignores_intro]: "ignores f m \<Longrightarrow> ignores f (map_err g m)"
  by (auto simp: ignores_def map_err_def split: prod.splits sum.splits)

lemma ignores_no_panic [ignores_intro]: "ignores f m \<Longrightarrow> ignores f (no_panic m)"
  by (simp add: no_panic_def ignores_map_err)

lemma ignores_panic [ignores_intro]: "ignores f panic"
  by (simp add: panic_def ignores_fail)

lemma ignores_on_linux [ignores_intro]: "ignores f m \<Longrightarrow> ignores f (on_linux E m)"
  by (simp add: on_linux_def ignores_ret)

lemma ignores_attempt [ignores_intro]: "ignores f m \<Longrightarrow> ignores f (attempt m)"
  by (auto simp: ignores_def attempt_def split: prod.splits)

lemma ignores_ignore [ignores_intro]: "ignores f m \<Longrightarrow> ignores f (ignore m)"
  by (auto simp: ignores_def ignore_def)

lemma ignores_on_err: "ignores f m \<Longrightarrow> (\<And>e w. h e (f w) = apsnd f (h e w)) \<Longrightarrow> ignores f (on_err h m)"
  by (auto simp: ignores_def on_err_def split: prod.splits sum.splits)

lemma ignores_if [ignores_intro]: "(b \<Longrightarrow> ignores f m) \<Longrightarrow> (\<not> b \<Longrightarrow> ignores f n) \<Longrightarrow> ignores f (if b then m else n)"
  by simp

lemma ignores_for_each [ignores_intro]: "(\<And>x. x \<in> set xs \<Longrightarrow> ignores f (g x)) \<Longrightarrow> ignores f (for_each xs g)"
  by (induction xs) (auto intro!: ignores_intro)

lemma ignores_case_sum [ignores_intro]:
  "(\<And>e. r = Inl e \<Longrightarrow> ignores f (m e)) \<Longrightarrow> (\<And>x. r = Inr x \<Longrightarrow> ignores f (n x)) \<Longrightarrow>
   ignores f (case r of Inl e \<Rightarrow> m e | Inr x \<Rightarrow> n x)"
  by (cases r) auto

lemma ignores_collect_each [ignores_intro]: "(\<And>x. x \<in> set xs \<Longrightarrow> ignores f (g x)) \<Longrightarrow> ignores f (collect_each xs g)"
  by (induction xs) (auto intro!: ignores_intro)

section \<open>Replacing a file\<close>

text \<open>\<open>q\<close> is the file, \<open>x\<close> what replaces it (\<open>None\<close>: it is removed).\<close>

lemma put_fields:
  "w_tick (fs_put q x w) = w_tick w" "w_trace (fs_put q x w) = w_trace w" "w_dl (fs_put q x w) = w_dl w"
  "w_dl_next (fs_put q x w) = w_dl_next w" "p \<noteq> q \<Longrightarrow> w_fs (fs_put q x w) p = w_fs w p"
  "p \<noteq> q \<Longrightarrow> is_dir (fs_put q x w) p = is_dir w p"
  by (simp_all add: fs_put_def is_dir_def)

lemma put_commute: "p \<noteq> q \<Longrightarrow> fs_put p y (fs_put q x w) = fs_put q x (fs_put p y w)"
  by (simp add: fs_put_def fun_upd_twist)

lemma append_put: "p \<noteq> q \<Longrightarrow> append_to p b (fs_put q x w) = fs_put q x (append_to p b w)"
  by (auto simp: append_to_def put_fields put_commute split: option.splits node.splits)

text \<open>A tick, an event, the atomics of the downloader: none of them sees a file.\<close>

lemma put_update:
  "(fs_put q x w)\<lparr>w_tick := t\<rparr> = fs_put q x (w\<lparr>w_tick := t\<rparr>)" "(fs_put q x w)\<lparr>w_trace := tr\<rparr> = fs_put q x (w\<lparr>w_trace := tr\<rparr>)"
  "(fs_put q x w)\<lparr>w_dl := d\<rparr> = fs_put q x (w\<lparr>w_dl := d\<rparr>)" "(fs_put q x w)\<lparr>w_dl_next := n\<rparr> = fs_put q x (w\<lparr>w_dl_next := n\<rparr>)"
  by (simp_all add: fs_put_def)

lemma ignores_sys:
  assumes "\<And>n w. part n (fs_put q x w) = fs_put q x (part n w)" "ignores (fs_put q x) k"
  shows "ignores (fs_put q x) (sys E op ns part k)"
  using assms by (auto simp: ignores_def sys_def Let_def put_fields put_update split: option.splits)

lemmas ignores_call = ignores_sys [where part = no_effect, unfolded no_effect_def, OF refl, folded no_effect_def]

lemma ignores_fs_read [ignores_intro]: "resolve E p \<noteq> q \<Longrightarrow> ignores (fs_put q x) (fs_read E p)"
  unfolding fs_read_def Let_def
  by (intro ignores_sys) (auto simp: no_effect_def ignores_def put_fields split: option.splits node.splits)

lemma ignores_file_create [ignores_intro]:
  "resolve E p \<noteq> q \<Longrightarrow> butlast (resolve E p) \<noteq> q \<Longrightarrow> ignores (fs_put q x) (file_create E p)"
  unfolding file_create_def Let_def
  by (intro ignores_sys) (auto simp: no_effect_def ignores_def put_fields put_commute split: option.splits node.splits)

lemma ignores_write_all [ignores_intro]: "resolve E p \<noteq> q \<Longrightarrow> ignores (fs_put q x) (write_all E p b)"
  unfolding write_all_def Let_def by (intro ignores_sys) (auto simp: ignores_def append_put)

lemma ignores_flush [ignores_intro]: "ignores (fs_put q x) (file_flush E p)"
  unfolding file_flush_def by (intro ignores_sys) (auto simp: no_effect_def ignores_def)

lemma ignores_fs_write [ignores_intro]:
  "resolve E p \<noteq> q \<Longrightarrow> butlast (resolve E p) \<noteq> q \<Longrightarrow> ignores (fs_put q x) (fs_write E p b)"
  unfolding fs_write_def by (intro ignores_intro)

lemma ignores_rename [ignores_intro]:
  "resolve E a \<noteq> q \<Longrightarrow> resolve E b \<noteq> q \<Longrightarrow> butlast (resolve E b) \<noteq> q \<Longrightarrow> ignores (fs_put q x) (fs_rename E a b)"
  unfolding fs_rename_def Let_def
  by (intro ignores_sys) (auto simp: no_effect_def ignores_def put_fields put_commute split: option.splits node.splits)

lemma ignores_remove [ignores_intro]: "resolve E p \<noteq> q \<Longrightarrow> ignores (fs_put q x) (remove_file E p)"
  unfolding remove_file_def Let_def
  by (intro ignores_sys) (auto simp: no_effect_def ignores_def put_fields put_commute split: option.splits node.splits)

lemma ignores_mkdirs: "q \<notin> set ds \<Longrightarrow> q \<notin> butlast ` set ds \<Longrightarrow> ignores (fs_put q x) (mkdirs E m ds :: ('z, unit) sio)"
proof (induction ds)
  case (Cons d ds)
  let ?mk = "sys E OpMkdir d no_effect (\<lambda>w. case w_fs w d of
              Some n \<Rightarrow> (Inl EEXIST, w)
            | None \<Rightarrow> if is_dir w (butlast d) then (Inr (), fs_put d (Some (Dir m)) w) else (Inl ENOTDIR, w))"
  have "ignores (fs_put q x) (?mk :: ('z, unit) sio)"
    using Cons.prems by (intro ignores_sys) (auto simp: no_effect_def ignores_def put_fields put_commute split: option.splits)
  then have 1: "ignores (fs_put q x) (bindE ?mk (\<lambda>_. mkdirs E m ds) :: ('z, unit) sio)" using Cons by (intro ignores_bindE) auto
  have 2: "ignores (fs_put q x) (mkdirs E m ds :: ('z, unit) sio)" using Cons by simp
  have "is_dir (fs_put q x w) d = is_dir w d" for w :: "'z world_scheme" using Cons.prems(1) by (intro put_fields(6)) auto
  with 1 2 show ?case by (simp add: ignores_def)
qed (simp add: ignores_ret)

lemma prefix_butlast_trans: "prefix ds p \<Longrightarrow> prefix (butlast ds) p"
  by (rule prefix_order.order_trans [OF prefixeq_butlast])

lemma ignores_create_dir_all [ignores_intro]:
  "\<not> prefix q (resolve E p) \<Longrightarrow> ignores (fs_put q x) (create_dir_all E m p)"
  unfolding create_dir_all_def
  by (auto intro!: ignores_ret ignores_mkdirs dest: prefix_butlast_trans)

lemma ignores_canonicalize [ignores_intro]: "resolve E p \<noteq> q \<Longrightarrow> ignores (fs_put q x) (canonicalize E p)"
  unfolding canonicalize_def Let_def
  by (intro ignores_sys) (auto simp: no_effect_def ignores_def put_fields split: option.splits node.splits)

lemma ignores_metadata [ignores_intro]: "resolve E p \<noteq> q \<Longrightarrow> ignores (fs_put q x) (metadata_mode E p)"
  unfolding metadata_mode_def Let_def
  by (intro ignores_sys) (auto simp: no_effect_def ignores_def put_fields split: option.splits node.splits)

lemma ignores_may_fail [ignores_intro]: "ignores (fs_put q x) (may_fail E op ns)"
  unfolding may_fail_def by (intro ignores_sys) (auto simp: no_effect_def ignores_def)

lemma ignores_append [ignores_intro]: "ns \<noteq> q \<Longrightarrow> ignores (fs_put q x) (append_all E ns b)"
  unfolding append_all_def by (intro ignores_sys) (auto simp: ignores_def append_put)

lemma ignores_utc_now [ignores_intro]: "ignores (fs_put q x) (utc_now E)"
  by (simp add: ignores_def utc_now_def put_fields put_update)

lemma ignores_events [ignores_intro]:
  "ignores (fs_put q x) (http_begin r)" "ignores (fs_put q x) (http_hop h)" "ignores (fs_put q x) (http_answer E r)"
  by (simp_all add: ignores_def http_begin_def http_hop_def http_answer_def put_fields) (simp_all add: fs_put_def)

lemma ignores_command [ignores_intro]: "ignores (fs_put q x) (run_command E c)"
  by (simp add: ignores_def run_command_def put_fields) (simp add: fs_put_def)

lemma ignores_sleep [ignores_intro]: "ignores (fs_put q x) (sleep_for s)"
  by (simp add: ignores_def sleep_for_def put_fields) (simp add: fs_put_def)

lemma ignores_gen [ignores_intro]: "ignores (fs_put q x) (gen_upto E b)"
  by (simp add: ignores_def gen_upto_def put_fields put_update)

lemma ignores_runtime [ignores_intro]: "ignores (fs_put q x) (runtime_build E)"
  by (simp add: ignores_def runtime_build_def put_fields put_update)

lemma ignores_audit_log [ignores_intro]: "al_file lg \<noteq> q \<Longrightarrow> ignores (fs_put q x) (audit_log E lg ev d)"
  unfolding audit_log_eq write_line_def by (intro ignores_intro)

lemma ignores_tls_accept [ignores_intro]: "al_file (cv_audit cv) \<noteq> q \<Longrightarrow> ignores (fs_put q x) (tls_accept E cv hs)"
  unfolding tls_accept_def verify_server_cert_def by (intro ignores_intro)

lemma ignores_send_hop [ignores_intro]: "al_file (cv_audit cv) \<noteq> q \<Longrightarrow> ignores (fs_put q x) (send_hop E cv h)"
  unfolding send_hop_def by (intro ignores_intro)

lemma ignores_follow_redirects [ignores_intro]:
  "al_file (cv_audit cv) \<noteq> q \<Longrightarrow> ignores (fs_put q x) (follow_redirects E cv previous hops)"
  by (induction hops arbitrary: previous) (auto intro!: ignores_intro)

lemma ignores_of_tick:
  assumes "\<And>t. ignores (fs_put q x) (m t)"
  shows "ignores (fs_put q x) (\<lambda>w. m (w_tick w) w)"
  using assms by (simp add: ignores_def put_fields)

lemma ignores_request [ignores_intro]:
  assumes "al_file (dl_audit dl) \<noteq> q"
  shows "ignores (fs_put q x) (client_send E dl r)"
proof -
  have "al_file (cv_audit (client_verifier dl)) \<noteq> q" using assms by (simp add: client_verifier_def)
  then show ?thesis
    unfolding client_send_def Let_def
    by (intro ignores_bindE ignores_of_tick [where m = "\<lambda>t. bindE (map_err (e_tls_failure E r)
      (bindE (send_hop E (client_verifier dl) (first_hop E t r u)) (\<lambda>_. follow_redirects E (client_verifier dl) [snd u]
        (e_redirects E t r)))) (\<lambda>_. http_answer E r)" for u]) (intro ignores_intro; assumption)+
qed

section \<open>The downloader\<close>

lemma ignores_check_degraded [ignores_intro]: "ignores (fs_put q x) (check_degraded dl)"
  by (simp add: ignores_def check_degraded_def dl_cells_of_def put_fields ret_def fail_def)

lemma ignores_record_success [ignores_intro]: "ignores (fs_put q x) (record_success dl)"
  by (simp add: ignores_def record_success_def dl_cells_of_def set_cells_def put_fields put_update ret_def)

lemma ignores_record_failure [ignores_intro]:
  assumes "al_file (dl_audit dl) \<noteq> q"
  shows "ignores (fs_put q x) (record_failure E dl)"
  by (simp add: ignores_def record_failure_def dl_cells_of_def set_cells_def put_fields put_update ret_def Let_def ignore_def
      ignores_snd [OF ignores_audit_log [OF assms]])

lemma ignores_log_err [ignores_intro]: "al_file lg \<noteq> q \<Longrightarrow> ignores (fs_put q x) m \<Longrightarrow> ignores (fs_put q x) (log_err E lg ev d m)"
  unfolding log_err_def by (intro ignores_on_err) (simp_all add: ignores_snd [OF ignores_audit_log])

lemma ignores_load_token:
  assumes "al_file (dl_audit dl) \<noteq> q" "\<And>s a. ignores (fs_put q x) (kc_load kc s a)"
  shows "ignores (fs_put q x) (load_token_for_request E dl kc)"
  unfolding load_token_for_request_def by (intro ignores_intro assms)

lemma ignores_fetch:
  assumes log: "al_file (dl_audit dl) \<noteq> q" and kc: "\<And>s a. ignores (fs_put q x) (kc_load kc s a)"
  shows "ignores (fs_put q x) (fetch_and_verify_manifest E dl kc)"
proof -
  have "ignores (fs_put q x) (verify_manifest_sig E dl v)" for v
    unfolding verify_manifest_sig_def split_beta
    by (intro ignores_intro ignores_on_err log) (simp add: ignores_snd [OF ignores_audit_log [OF log]])
  then have "ignores (fs_put q x) (accept_manifest E dl b)" for b
    unfolding accept_manifest_def by (intro ignores_intro)
  then have once: "ignores (fs_put q x) (fetch_manifest_once E dl kc)"
    unfolding fetch_manifest_once_def by (intro ignores_intro ignores_load_token log kc)
  have "ignores (fs_put q x) (fetch_attempts E dl kc rs e)" for rs e
    by (induction rs arbitrary: e)
      (auto simp: backoff_duration_def Let_def intro!: ignores_intro once log)
  then show ?thesis
    unfolding fetch_and_verify_manifest_def fetch_manifest_internal_def by (intro ignores_intro)
qed

lemma ignores_download:
  assumes log: "al_file (dl_audit dl) \<noteq> q" and kc: "\<And>s a. ignores (fs_put q x) (kc_load kc s a)"
    and temp: "resolve E (artifact_temp dir (current_platform_triple E)) \<noteq> q" "butlast (resolve E (artifact_temp dir (current_platform_triple E))) \<noteq> q"
    and final: "resolve E (artifact_final dir (current_platform_triple E)) \<noteq> q" "butlast (resolve E (artifact_final dir (current_platform_triple E))) \<noteq> q"
  shows "ignores (fs_put q x) (download_and_verify_artifact E dl manifest dir kc)"
proof -
  let ?t = "artifact_temp dir (current_platform_triple E)" and ?f = "artifact_final dir (current_platform_triple E)"
  have p: "find_artifact E manifest = Inr a \<Longrightarrow> ae_platform a = current_platform_triple E" for a
    by (auto simp: find_artifact_def Let_def ok_or_def find_Some_iff split: option.splits)
  have bytes: "ignores (fs_put q x) (download_bytes E dl a auth)" for a auth
    unfolding download_bytes_def by (intro ignores_intro log)
  have digest: "ignores (fs_put q x) (check_digest E dl ?t alg e a)" for alg e a
    unfolding check_digest_def by (intro ignores_intro log temp)
  have sig: "ignores (fs_put q x) (verify_artifact_sig E dl a ?t b)" for a b
    unfolding verify_artifact_sig_def
    by (intro ignores_intro ignores_on_err)
      (simp add: ignores_snd [OF ignores_audit_log [OF log]] ignores_snd [OF ignores_remove [OF temp(1)]] ignores_snd [OF ignores_record_failure [OF log]])
  have "ignores (fs_put q x) (publish E ?t ?f g)" for g
    unfolding publish_def
    by (intro ignores_on_err ignores_rename temp final) (simp add: remove_then_def ignores_snd [OF ignores_remove [OF temp(1)]])
  then have install: "ignores (fs_put q x) (install_artifact E dl a ?t ?f b)" for a b
    unfolding install_artifact_def stage_artifact_def verify_payload_def Let_def by (intro ignores_intro digest sig log temp)
  show ?thesis
    unfolding download_and_verify_artifact_def Let_def
    apply (rule ignores_bindE [OF ignores_check_degraded], rule ignores_bindE_run [OF ignores_lift_res])
    apply (simp only: lift_res_Inr)
    apply (elim conjE, drule p, simp only:)
    apply (intro ignores_intro ignores_load_token bytes install log kc temp)
    done
qed

section \<open>Snapshots\<close>

lemma ignores_take_snapshot:
  assumes dirs: "\<not> prefix q (resolve E bd)" "\<not> prefix q (resolve E (version_dir bd v))"
    and files: "\<And>n. resolve E (version_dir bd v) @ [n] \<noteq> q" and src: "\<forall>p \<in> set ps. resolve E p \<noteq> q"
  shows "ignores (fs_put q x) (take_snapshot E v ps bd key)"
proof -
  let ?vns = "resolve E (version_dir bd v)"
  have vns: "?vns \<noteq> q" using dirs(2) by auto
  have dest: "resolve E (path_join (abs_path ?vns) [Normal n]) \<noteq> q" "butlast (resolve E (path_join (abs_path ?vns) [Normal n])) \<noteq> q" for n
    using files vns by (simp_all add: resolve_join_name)
  have "ignores (fs_put q x) (snapshot_file E (abs_path ?vns) p)" if "p \<in> set ps" for p
    unfolding snapshot_file_def Let_def
    apply (rule ignores_bindE_run)
     apply (intro ignores_intro)
    using src that apply blast
    apply (simp only: map_err_Inr)
    apply (drule canonicalize_Inr, elim conjE, simp only:)
    apply (intro ignores_intro dest)
    using src that apply simp_all
    done
  then have each: "ignores (fs_put q x) (collect_each ps (snapshot_file E (abs_path ?vns)))" by (intro ignores_intro)
  have finish: "ignores (fs_put q x) (finish_snapshot E v key (abs_path ?vns) es)" for es
    unfolding finish_snapshot_def Let_def by (intro ignores_intro dest)
  show ?thesis
    unfolding take_snapshot_eq
    apply (rule ignores_bindE [OF ignores_map_err [OF ignores_create_dir_all [OF dirs(1)]]])
    apply (rule ignores_bindE [OF ignores_map_err [OF ignores_create_dir_all [OF dirs(2)]]])
    apply (rule ignores_bindE_run [OF ignores_map_err [OF ignores_canonicalize [OF vns]]])
    apply (simp only: map_err_Inr)
    apply (drule canonicalize_Inr, elim conjE, simp only:)
    apply (intro ignores_bindE each finish)
    done
qed

section \<open>Keychains\<close>

text \<open>The documented behaviour of the operating systems' stores: they are no part of the engine's files.\<close>

definition stores_ignore :: "('z world_scheme \<Rightarrow> 'z world_scheme) \<Rightarrow> 'z world_scheme os_stores \<Rightarrow> bool" where
  "stores_ignore f os \<longleftrightarrow> (\<forall>s a. ignores f (sf_get (os_security os) s a)) \<and>
     (\<forall>t w. wa_read (os_credentials os) t (f w) = apsnd f (wa_read (os_credentials os) t w)) \<and>
     (\<forall>w. wa_free (os_credentials os) (f w) = f (wa_free (os_credentials os) w))"

lemma ignores_provider:
  fixes os :: "'z world_scheme os_stores"
  assumes "stores_ignore (fs_put q x) os"
  shows "ignores (fs_put q x) (kc_load (keychain_of E os p) s a)"
proof -
  have run: "world_runner E c (fs_put q x w) = apsnd (fs_put q x) (world_runner E c w)" for c and w :: "'z world_scheme"
    by (simp add: world_runner_def put_fields) (simp add: fs_put_def)
  have get: "ignores (fs_put q x) (sf_get (os_security os) s a)" for s a using assms by (simp add: stores_ignore_def)
  show ?thesis
  proof (cases p)
    case (LinuxProvider b)
    have out: "ignores (fs_put q x) (run_with_timeout (world_runner E) c :: ('z world_scheme, synqro_error, int option \<times> bytes) io)" for c
      unfolding run_with_timeout_def ignores_def by (simp add: split_beta run)
    show ?thesis
      by (cases b) (auto simp: LinuxProvider linux_keychain_def secret_tool_lookup_def keyctl_read_def Let_def intro!: ignores_intro out)
  next
    case MacosProvider
    have cli: "ignores (fs_put q x) (mac_run (world_runner E) c :: ('z world_scheme, synqro_error, int option \<times> bytes) io)" for c
      unfolding mac_run_def ignores_def by (simp add: split_beta run)
    show ?thesis
      by (auto simp: MacosProvider macos_keychain_def macos_load_def macos_cli_load_def intro!: ignores_intro cli get)
  next
    case IosProvider
    then show ?thesis by (auto simp: ios_keychain_def ios_load_def intro!: ignores_intro get)
  next
    case AndroidProvider
    then show ?thesis
      by (simp add: android_provider_def android_load_def android_new_def callback_or_err_def
          jni_env_or_err_def ignores_def bindE_def lift_res_def)
  next
    case WindowsProvider
    have "windows_load (os_credentials os) s a (fs_put q x w) = apsnd (fs_put q x) (windows_load (os_credentials os) s a w)" for w
      using assms by (auto simp: stores_ignore_def windows_load_def Let_def split: prod.splits cred_read.splits)
    then show ?thesis by (simp add: WindowsProvider windows_keychain_def ignores_def)
  qed
qed

section \<open>The engine\<close>

lemma put_engine: "w_engine (fs_put q x w) = w_engine w"
  by (simp add: fs_put_def)

lemma ignores_get_engine [ignores_intro]: "ignores (fs_put q x) (get_engine :: ('z, engine) eng)"
  by (simp add: ignores_def get_engine_def put_engine ret_def fail_def split: option.split)

lemma ignores_new_downloader [ignores_intro]: "ignores (fs_put q x) (engine_downloader E en)"
  unfolding engine_downloader_def downloader_new_def Let_def
  by (intro ignores_intro) (simp add: ignores_def put_fields, simp add: fs_put_def)

lemma ignores_spawned [ignores_intro]: "ignores f (case r of SpawnFailed e \<Rightarrow> fail (err e) | _ \<Rightarrow> ret ())"
  by (cases r) (simp_all add: ignores_ret ignores_fail)

lemma ignores_watchdog [ignores_intro]: "ignores (fs_put q x) (start_watchdog E pid t g)"
proof (cases "e_exe E")
  case (Inl e)
  then show ?thesis by (simp add: ignores_def start_watchdog_def)
next
  case (Inr exe)
  show ?thesis unfolding start_watchdog_def Inr sum.case by (intro ignores_bindE ignores_command ignores_spawned)
qed

text \<open>The result a C caller gets does not depend on files either.\<close>

lemma put_result: "from_error e (fs_put q x w) = apsnd (fs_put q x) (from_error e w)"
  by (simp add: from_error_def next_error_id_def result_err_def into_raw_def Let_def) (simp add: fs_put_def)

lemma put_panic: "panic_result (fs_put q x w) = apsnd (fs_put q x) (panic_result w)"
  by (simp add: panic_result_eq fs_put_def)

lemma ignores_catch_all:
  assumes "ignores (fs_put q x) m"
  shows "catch_all m (fs_put q x w) = apsnd (fs_put q x) (catch_all m w)"
proof -
  obtain r w1 where m: "m w = (r, w1)" by fastforce
  show ?thesis
  proof (cases r)
    case (Inl e)
    with m ignoresD [OF assms m] show ?thesis
      by (cases e) (simp_all add: catch_all_Panic catch_all_Inl put_result put_panic)
  qed (use m ignoresD [OF assms m] in \<open>simp add: catch_all_def put_result\<close>)
qed

section \<open>The blacklist\<close>

text \<open>Where the blacklist is, and that nothing an update uses has this name or lies below it.\<close>

definition blacklist_of :: "env \<Rightarrow> engine \<Rightarrow> names" where
  "blacklist_of E en = resolve E (blacklist_path (backup_of en))"

definition blacklist_apart :: "env \<Rightarrow> engine \<Rightarrow> bool" where
  "blacklist_apart E en \<longleftrightarrow> blacklist_of E en \<notin> {al_file (en_audit en), staged E en, deployed E en} \<and>
     \<not> prefix (blacklist_of E en) (resolve E (staging_of en)) \<and> (\<forall>p. e_exe E = Inr p \<longrightarrow> resolve E p \<noteq> blacklist_of E en) \<and>
     CHR ''/'' \<notin> set (current_platform_triple E)"

lemma staged_butlast:
  assumes "CHR ''/'' \<notin> set p"
  shows "butlast (resolve E (artifact_temp dir p)) = resolve E dir" "butlast (resolve E (artifact_final dir p)) = resolve E dir"
proof -
  have "plain_name (''synqro_staging_'' @ p @ ''.tmp'')" "plain_name (''synqro_'' @ p @ ''.bin'')" using assms by (auto simp: plain_name_def)
  from this [THEN parse_plain_name] show "butlast (resolve E (artifact_temp dir p)) = resolve E dir" "butlast (resolve E (artifact_final dir p)) = resolve E dir"
    by (simp_all add: artifact_temp_def artifact_final_def path_join_normal resolve_def resolve_from_append)
qed

text \<open>C3. An update never looks at the blacklist: whatever the file holds, or whether it is there at all,
  \<open>synqro_apply_update\<close> returns the same and leaves the same world but for that file.\<close>

theorem updates_ignore_blacklist:
  assumes "w_engine w = Some en" "blacklist_apart E en" "stores_ignore (fs_put (blacklist_of E en) x) os"
    and version: "\<And>dl m. serves en dl \<Longrightarrow> answered_with E dl m \<Longrightarrow> CHR ''/'' \<notin> set (mf_version m)"
  shows "synqro_apply_update E os (fs_put (blacklist_of E en) x w) =
    apsnd (fs_put (blacklist_of E en) x) (synqro_apply_update E os w)"
proof -
  let ?q = "blacklist_of E en" and ?kc = "keychain_of E os (en_keychain en)"
  from assms(2) have q: "al_file (en_audit en) \<noteq> ?q" "staged E en \<noteq> ?q" "deployed E en \<noteq> ?q" "\<not> prefix ?q (resolve E (staging_of en))"
    and exe: "e_exe E = Inr p \<Longrightarrow> resolve E p \<noteq> ?q" and triple: "CHR ''/'' \<notin> set (current_platform_triple E)" for p
    by (auto simp: blacklist_apart_def)
  have qn: "?q = resolve E (backup_of en) @ [''blacklist.json'']" by (simp add: blacklist_of_def books_paths)
  note kc = ignores_provider [OF assms(3)]
  have lg: "al_file (dl_audit dl) \<noteq> ?q" if "serves en dl" for dl using that q(1) by (simp add: serves_def)
  have snap: "ignores (fs_put ?q x) (take_snapshot E (mf_version m) [p] (backup_of en) key)"
    if "serves en dl" "answered_with E dl m" "e_exe E = Inr p" for dl m p key
  proof (rule ignores_take_snapshot)
    from version [OF that(1,2)] have "plain_name (''v'' @ mf_version m)" by (auto simp: plain_name_def)
    from parse_plain_name [OF this] have v: "resolve E (version_dir (backup_of en) (mf_version m)) = resolve E (backup_of en) @ [''v'' @ mf_version m]"
      by (simp add: version_dir_def path_join_normal resolve_def resolve_from_append)
    show "\<not> prefix ?q (resolve E (backup_of en))" "\<not> prefix ?q (resolve E (version_dir (backup_of en) (mf_version m)))"
      "resolve E (version_dir (backup_of en) (mf_version m)) @ [n] \<noteq> ?q" for n
      by (auto simp: v qn dest: prefix_length_le)
  qed (use exe that(3) in simp)
  have load: "ignores (fs_put ?q x) (download_and_verify_artifact E dl m (staging_of en) ?kc)" if "serves en dl" for dl m
    using q(2,3,4) by (intro ignores_download kc lg [OF that]) (auto simp: staged_def deployed_def staged_butlast [OF triple])
  have "ignores (fs_put ?q x) (apply_update_with E os en)"
    unfolding apply_update_with_def Let_def
    apply (rule ignores_bindE_run [OF ignores_new_downloader])
    apply (drule engine_downloader_Inr, elim conjE)
    apply (rule ignores_no_panic)
    apply (rule ignores_bindE_run [OF ignores_fetch [OF lg kc]], assumption)
    apply (drule fetch_success, elim conjE)
    apply (rule ignores_bindE [OF ignores_map_err [OF ignores_create_dir_all [OF q(4)]]])
    apply (rule ignores_bindE [OF ignores_lift_res])
    apply (rule ignores_bindE_run [OF ignores_lift_res], simp only: lift_res_Inr map_inl_Inr, elim conjE)
    apply (rule ignores_bindE [OF snap], assumption, assumption, assumption)
    apply (intro ignores_bindE load ignores_audit_log ignores_ignore ignores_watchdog q(1), assumption)
    done
  then have "ignores (fs_put ?q x) (\<lambda>w. if w_engine w = Some en then apply_update_with E os en w else (Inl Panic, w))"
    by (auto simp: ignores_def put_engine)
  from ignores_catch_all [OF this, of w] show ?thesis
    using assms(1) by (simp add: synqro_apply_update_def apply_update_closure_def get_engine_def bindE_def ret_def catch_all_def no_panic_def map_err_def put_engine)
qed

section \<open>Witness\<close>

text \<open>The version the server offers is listed in a blacklist that verifies under the engine's key; the update to it
  succeeds.\<close>

definition key3 :: bytes where
  "key3 = ''synqro-audit-v1.id.hmac-key''"

definition listed3 :: blacklist where
  "listed3 = \<lparr>bl_blacklisted = [''2.0''], bl_list_hmac = enc_str (key3 @ ''.'' @ enc (blacklist_payload [''2.0'']))\<rparr>"

definition warned3 :: engine_world where
  "warned3 = fs_put [''bk'', ''blacklist.json''] (Some (File (enc (blacklist_json listed3)) 0x180)) world3"

lemma stored3: "stored_blacklist server3 key3 (blacklist_path (backup_of en1)) warned3 = Some listed3"
proof -
  have r: "resolve server3 (blacklist_path (backup_of en1)) = [''bk'', ''blacklist.json'']"
    unfolding books_paths by (simp add: paths3 resolve_def)
  have t: "json_typed server3 ''Blacklist'' decode_blacklist (enc (blacklist_json listed3)) = Inr listed3"
  proof -
    have fields: "e_json_parse server3 = e_json_parse env0" "e_json_dup server3 = e_json_dup env0" "e_json_shape_err server3 = e_json_shape_err env0"
      by (simp_all add: server3_def)
    show ?thesis using typed_blacklist0 [of listed3] unfolding json_typed_def fields .
  qed
  have "blacklist_accepted env0 key3 listed3"
    by (rule signed_blacklist.sealed_accepted) (simp add: seal_env0 blacklist_body_def blacklist_payload_wf listed3_def)
  then have "blacklist_accepted server3 key3 listed3"
    by (simp add: blacklist_accepted_def check_blacklist_def server3_def canonical_json_def compute_hmac_def Let_def
        canonical_json_sorted_eq del: enc.simps)
  with r t show ?thesis by (simp add: stored_blacklist_def file_at_def warned3_def fs_put_def del: enc.simps)
qed

lemma updates_ignore_blacklist_witness:
  "derive_hmac_key server3 (cfg_installation_id (en_config en1)) = Inr key3 \<and>
   fst (is_blacklisted server3 ''2.0'' (blacklist_path (backup_of en1)) key3 warned3) = Inr True \<and>
   r_status (fst (synqro_apply_update server3 empty_stores warned3)) = SynqroOk"
proof (intro conjI)
  show "derive_hmac_key server3 (cfg_installation_id (en_config en1)) = Inr key3"
    by (simp add: derive_hmac_key_def server3_def key3_def en1_def config1_def)
  from is_blacklisted_run [OF server3_simps(1) stored3, of "''2.0''"]
  show "fst (is_blacklisted server3 ''2.0'' (blacklist_path (backup_of en1)) key3 warned3) = Inr True"
    by (auto simp: blacklisted_in_def stored3) (simp add: listed3_def)
  have en: "w_engine world3 = Some en1" by (simp add: world3_def eng_world_def)
  have q: "blacklist_of server3 en1 = [''bk'', ''blacklist.json'']" unfolding blacklist_of_def books_paths by (simp add: paths3 resolve_def)
  have "resolve server3 (staging_of en1) = [''stage'']" by (simp add: paths3 resolve_def)
  moreover have "al_file (en_audit en1) = [''audit'']" by (simp add: en1_def lg2_def)
  moreover have "e_exe server3 = Inr p \<Longrightarrow> resolve server3 p = [''bin'', ''app'']" for p by (auto simp: server3_def resolve_def)
  ultimately have apart: "blacklist_apart server3 en1"
    by (auto simp: blacklist_apart_def q staged_def deployed_def server3_simps path_names3)
  have os: "stores_ignore (fs_put (blacklist_of server3 en1) x) empty_stores" for x
    by (simp add: stores_ignore_def empty_stores_def ignores_def)
  have v: "CHR ''/'' \<notin> set (mf_version m)" if "serves en1 dl" "answered_with server3 dl m" for dl m
    using answers3 [OF that] by (simp add: manifest2_def manifest1_def)
  from applied3 obtain w' where "synqro_apply_update server3 empty_stores world3 = (result_ok, w')" ..
  with updates_ignore_blacklist [OF en apart os v]
  show "r_status (fst (synqro_apply_update server3 empty_stores warned3)) = SynqroOk"
    by (simp add: warned3_def q result_ok_def)
qed

end
