(* ===== verification/Streaming.thy ===== *)
theory Streaming
  imports Artifact
begin

text \<open>
  The download loop of \<open>src/downloader.rs\<close> (\<open>download_and_verify_artifact\<close>) over a stream that need not end:
  each \<open>stream.next().await\<close> is a poll, and the loop may never return.
\<close>

section \<open>The loop\<close>

text \<open>The stream gives, for the i-th poll, the end, an error or a chunk. \<open>None\<close> of the loop is "does not return".\<close>

partial_function (option) download_loop :: "u64 \<Rightarrow> (nat \<Rightarrow> (string + bytes) option) \<Rightarrow> nat \<Rightarrow> bytes \<Rightarrow> (synqro_error + bytes) option" where
  "download_loop max_bytes next i buf =
     (case next i of
        None \<Rightarrow> Some (Inr buf)
      | Some item \<Rightarrow> (case item of
          Inl e \<Rightarrow> Some (Inl (Network (''Stream read error: '' @ e)))
        | Inr chunk \<Rightarrow>
            if min (length buf + length chunk) (2 ^ 64 - 1) > unat max_bytes then
              Some (Inl (InvalidInput (''Artifact exceeds max_payload_size_bytes ('' @ show_nat (unat max_bytes) @ '')'')))
            else download_loop max_bytes next (Suc i) (buf @ chunk)))"

text \<open>On a stream that ends, the loop computes \<open>capped_stream\<close>.\<close>

definition list_stream :: "(string + bytes) list \<Rightarrow> nat \<Rightarrow> (string + bytes) option" where
  "list_stream cs i = (if i < length cs then Some (cs ! i) else None)"

lemma download_loop_list:
  "i \<le> length cs \<Longrightarrow> download_loop m (list_stream cs) i buf = Some (capped_stream m buf (drop i cs))"
proof (induction "length cs - i" arbitrary: i buf)
  case 0
  then have "list_stream cs i = None" "drop i cs = []" by (simp_all add: list_stream_def)
  then show ?case by (simp add: download_loop.simps [of m "list_stream cs" i])
next
  case (Suc n)
  then have i: "i < length cs" and drop: "drop i cs = cs ! i # drop (Suc i) cs" by (auto simp: Cons_nth_drop_Suc)
  have rest: "download_loop m (list_stream cs) (Suc i) buf' = Some (capped_stream m buf' (drop (Suc i) cs))" for buf'
    using Suc.hyps(1) [of "Suc i"] Suc.hyps(2) i by simp
  have "list_stream cs i = Some (cs ! i)" using i by (simp add: list_stream_def)
  then show ?case
    using rest by (cases "cs ! i") (simp_all add: download_loop.simps [of m "list_stream cs" i] drop)
qed

section \<open>When it returns\<close>

definition item_bytes :: "(string + bytes) option \<Rightarrow> nat" where
  "item_bytes x = (case x of Some (Inr chunk) \<Rightarrow> length chunk | _ \<Rightarrow> 0)"

text \<open>The bytes of n polls from the i-th on.\<close>

fun sent_from :: "(nat \<Rightarrow> (string + bytes) option) \<Rightarrow> nat \<Rightarrow> nat \<Rightarrow> nat" where
  "sent_from next i 0 = 0"
| "sent_from next i (Suc n) = item_bytes (next i) + sent_from next (Suc i) n"

definition endless_from :: "(nat \<Rightarrow> (string + bytes) option) \<Rightarrow> nat \<Rightarrow> bool" where
  "endless_from next i \<longleftrightarrow> (\<forall>j. \<exists>chunk. next (i + j) = Some (Inr chunk))"

text \<open>The limit is never reached: it is the largest \<open>u64\<close>, or what is sent stays within it.\<close>

definition never_exceeds :: "u64 \<Rightarrow> (nat \<Rightarrow> (string + bytes) option) \<Rightarrow> nat \<Rightarrow> nat \<Rightarrow> bool" where
  "never_exceeds max_bytes next i already \<longleftrightarrow> max_bytes = - 1 \<or> (\<forall>n. already + sent_from next i n \<le> unat max_bytes)"

lemma endless_step: "endless_from next i \<Longrightarrow> \<exists>chunk. next i = Some (Inr chunk) \<and> endless_from next (Suc i)"
  unfolding endless_from_def by (metis add.right_neutral add_Suc_shift)

lemma limit_below: "m \<noteq> (- 1 :: u64) \<Longrightarrow> unat m < 2 ^ 64 - 1"
proof -
  have "unat m < 2 ^ LENGTH(64)" by (rule unsigned_less)
  then show "m \<noteq> - 1 \<Longrightarrow> unat m < 2 ^ 64 - 1"
    using unat_all_ones [where 'n = 64] word_unat_eq_iff [of m "- 1"] by simp
qed

lemma limit_max: "m = (- 1 :: u64) \<Longrightarrow> \<not> min n (2 ^ 64 - 1) > unat m"
  using unat_all_ones [where 'n = 64] by simp

lemma never_exceeds_step:
  assumes "never_exceeds m next i k" "next i = Some (Inr chunk)"
  shows "never_exceeds m next (Suc i) (k + length chunk)" "\<not> min (k + length chunk) (2 ^ 64 - 1) > unat m"
proof -
  have le: "k + (length chunk + sent_from next (Suc i) n) \<le> unat m" if "m \<noteq> - 1" for n
    using assms that spec [of "\<lambda>n. k + sent_from next i n \<le> unat m" "Suc n"] by (auto simp: never_exceeds_def item_bytes_def)
  then show "never_exceeds m next (Suc i) (k + length chunk)" by (auto simp: never_exceeds_def add.assoc)
  show "\<not> min (k + length chunk) (2 ^ 64 - 1) > unat m"
  proof (cases "m = - 1")
    case True
    then show ?thesis by (rule limit_max)
  next
    case False
    from le [OF this, of 0] show ?thesis by (simp add: min_def)
  qed
qed

lemma stuck_never_returns:
  assumes "download_loop m next i buf = Some r" "endless_from next i" "never_exceeds m next i (length buf)"
  shows False
proof -
  have "endless_from next i \<Longrightarrow> never_exceeds m next i (length buf) \<Longrightarrow> False"
  proof (rule download_loop.raw_induct [where P = "\<lambda>m next i buf r. endless_from next i \<longrightarrow> \<not> never_exceeds m next i (length buf)",
        OF _ assms(1), THEN mp, THEN notE])
    fix f m "next" i buf and r :: "synqro_error + bytes"
    assume IH: "\<And>m next i buf r. f m next i buf = Some r \<Longrightarrow> endless_from next i \<longrightarrow> \<not> never_exceeds m next i (length buf)"
      and eq: "(case next i of None \<Rightarrow> Some (Inr buf)
        | Some item \<Rightarrow> (case item of Inl e \<Rightarrow> Some (Inl (Network (''Stream read error: '' @ e)))
          | Inr chunk \<Rightarrow> if min (length buf + length chunk) (2 ^ 64 - 1) > unat m then
                Some (Inl (InvalidInput (''Artifact exceeds max_payload_size_bytes ('' @ show_nat (unat m) @ '')'')))
              else f m next (Suc i) (buf @ chunk))) = Some r"
    show "endless_from next i \<longrightarrow> \<not> never_exceeds m next i (length buf)"
    proof (intro impI notI)
      assume e: "endless_from next i" and nv: "never_exceeds m next i (length buf)"
      from endless_step [OF e] obtain chunk where c: "next i = Some (Inr chunk)" and e': "endless_from next (Suc i)" by blast
      note nv' = never_exceeds_step [OF nv c]
      from eq have "f m next (Suc i) (buf @ chunk) = Some r"
        by (simp only: c option.case sum.case if_not_P [OF nv'(2)])
      from IH [OF this] e' nv'(1) show False by simp
    qed
  qed
  with assms(2,3) show False by blast
qed

lemma returns_at_end:
  "\<nexists>chunk. next (i + n) = Some (Inr chunk) \<Longrightarrow> \<exists>r. download_loop m next i buf = Some r"
proof (induction n arbitrary: i buf)
  case 0
  then show ?case
    by (cases "next i" rule: option.exhaust; cases "the (next i)") (auto simp: download_loop.simps [of m "next" i])
next
  case (Suc n)
  then have "\<exists>r. download_loop m next (Suc i) buf' = Some r" for buf' by simp
  then show ?case by (auto simp: download_loop.simps [of m "next" i buf] split: option.split sum.split)
qed

lemma returns_at_limit:
  "m \<noteq> - 1 \<Longrightarrow> length buf + sent_from next i n > unat m \<Longrightarrow> \<exists>r. download_loop m next i buf = Some r"
proof (induction n arbitrary: i buf)
  case 0
  with limit_below [of m] show ?case
    by (auto simp: download_loop.simps [of m "next" i buf] min_def split: option.split sum.split)
next
  case (Suc n)
  have "\<exists>r. download_loop m next (Suc i) (buf @ chunk) = Some r" if "next i = Some (Inr chunk)" for chunk
    using Suc that by (simp add: item_bytes_def)
  then show ?case by (auto simp: download_loop.simps [of m "next" i buf] split: option.split sum.split)
qed

text \<open>C6. The download loop returns unless the server sends for ever: it does not return exactly when the stream never
  ends or fails and the limit is never exceeded, either because what is sent stays within it or because the
  configured limit is the largest \<open>u64\<close>. On a stream that ends, it gives the result of the capped download.\<close>

theorem download_loop_terminates:
  "(download_loop m next 0 [] \<noteq> None \<longleftrightarrow> \<not> (endless_from next 0 \<and> never_exceeds m next 0 0)) \<and>
   download_loop m (list_stream cs) 0 [] = Some (capped_stream m [] cs)"
proof
  show "download_loop m next 0 [] \<noteq> None \<longleftrightarrow> \<not> (endless_from next 0 \<and> never_exceeds m next 0 0)"
  proof
    assume "download_loop m next 0 [] \<noteq> None"
    then show "\<not> (endless_from next 0 \<and> never_exceeds m next 0 0)" using stuck_never_returns [of m "next" 0 "[]"] by auto
  next
    assume "\<not> (endless_from next 0 \<and> never_exceeds m next 0 0)"
    then consider n where "\<nexists>chunk. next (0 + n) = Some (Inr chunk)" | n where "m \<noteq> - 1" "sent_from next 0 n > unat m"
      by (auto simp: endless_from_def never_exceeds_def not_le)
    then show "download_loop m next 0 [] \<noteq> None"
      by cases (use returns_at_end [of "next" 0 _ m "[]"] returns_at_limit [of m "[]" "next" 0] in auto)
  qed
  show "download_loop m (list_stream cs) 0 [] = Some (capped_stream m [] cs)" using download_loop_list [of 0 cs] by simp
qed

end
