(* ===== verification/C_Heap.thy ===== *)
theory C_Heap
  imports Engine_Facts
begin

text \<open>
  The strings that cross the C interface (\<open>src/error.rs\<close>, \<open>src/lib.rs\<close>): who owns them. The host program is a
  machine beside the library; it calls the exported functions in any order and gives back only what it holds.
\<close>

section \<open>The host\<close>

text \<open>A call of one of the functions that return a \<open>SynqroResult\<close>.\<close>

inductive c_call :: "env \<Rightarrow> 'z engine_world_scheme os_stores \<Rightarrow> 'z engine_world_scheme \<Rightarrow> synqro_result \<Rightarrow> 'z engine_world_scheme \<Rightarrow> bool"
  for E os w where
  init: "synqro_init E path w = (r, w') \<Longrightarrow> c_call E os w r w'"
| check: "synqro_check_update E os w = (r, w') \<Longrightarrow> c_call E os w r w'"
| apply_update: "synqro_apply_update E os w = (r, w') \<Longrightarrow> c_call E os w r w'"
| roll_back: "synqro_rollback E w = (r, w') \<Longrightarrow> c_call E os w r w'"
| audit_event: "synqro_audit_event E event data w = (r, w') \<Longrightarrow> c_call E os w r w'"
| health: "synqro_health_check E w = (r, w') \<Longrightarrow> c_call E os w r w'"

definition keep :: "nat \<Rightarrow> nat set \<Rightarrow> nat set" where
  "keep p held = (if p = 0 then held else insert p held)"

text \<open>\<open>held\<close> are the addresses of the strings the host has been given and has not given back. It may give back a
  null pointer, a result without a message, or what it holds, each string through either function.\<close>

inductive host_step :: "env \<Rightarrow> 'z engine_world_scheme os_stores \<Rightarrow> 'z engine_world_scheme \<times> nat set \<Rightarrow> 'z engine_world_scheme \<times> nat set \<Rightarrow> bool"
  for E os where
  call: "c_call E os w r w' \<Longrightarrow> host_step E os (w, held) (w', keep (r_message r) held)"
| installation_id: "synqro_installation_id w = (p, w') \<Longrightarrow> host_step E os (w, held) (w', keep p held)"
| free_string: "p = 0 \<or> p \<in> held \<Longrightarrow> host_step E os (w, held) (synqro_free_string p w, held - {p})"
| free_result: "r_message r = 0 \<or> r_message r \<in> held \<Longrightarrow>
    host_step E os (w, held) (snd (synqro_free_result (Some r) w), held - {r_message r})"
| free_null: "host_step E os (w, held) (snd (synqro_free_result None w), held)"

section \<open>The heap\<close>

text \<open>The heap holds exactly the strings of the host, all of them C strings.\<close>

definition owned :: "'z engine_world_scheme \<Rightarrow> nat set \<Rightarrow> bool" where
  "owned w held \<longleftrightarrow> heap_ok w \<and> dom (w_heap w) = held \<and> (\<forall>s \<in> ran (w_heap w). CHR 0x00 \<notin> set s)"

lemma owned_null: "owned w held \<Longrightarrow> 0 \<notin> held"
  by (auto simp: owned_def heap_ok_def)

lemma owned_fresh: "owned w held \<Longrightarrow> w_brk w \<notin> held \<and> w_brk w \<noteq> 0"
  by (auto simp: owned_def heap_ok_def)

lemma owned_cong: "w_heap w' = w_heap w \<Longrightarrow> w_brk w' = w_brk w \<Longrightarrow> owned w' held = owned w held"
  by (simp add: owned_def heap_ok_def)

lemma owned_new:
  assumes "owned w held" "CHR 0x00 \<notin> set s"
    and "w_heap w' = (w_heap w)(w_brk w \<mapsto> s)" "w_brk w' = Suc (w_brk w)"
  shows "owned w' (keep (w_brk w) held)"
  using assms owned_fresh [OF assms(1)] by (auto simp: owned_def heap_ok_def keep_def ran_def)

lemma owned_drop: "owned w held \<Longrightarrow> owned (drop_raw p w) (held - {p})"
  by (auto simp: owned_def heap_ok_def drop_raw_def ran_def)

text \<open>A message is the text of an error, at a fresh address; a success has none.\<close>

lemma owned_error:
  assumes "owned w held" "from_error e w = (r, w')"
  shows "owned w' (keep (r_message r) held) \<and> r_message r \<notin> held \<and> r_message r \<noteq> 0 \<and> r_status r \<noteq> SynqroOk"
proof -
  have "owned (snd (from_error e w)) (keep (w_brk w) held)"
    by (rule owned_new [OF assms(1), of "sanitise (public_message e (w_next_id w))"]) (simp_all add: from_error_eq sanitise_no_nul)
  with assms(2) owned_fresh [OF assms(1)] show ?thesis by (auto simp: from_error_eq status_not_ok)
qed

lemma owned_panic:
  assumes "owned w held" "panic_result w = (r, w')"
  shows "owned w' (keep (r_message r) held) \<and> r_message r \<notin> held \<and> r_message r \<noteq> 0 \<and> r_status r \<noteq> SynqroOk"
proof -
  have "owned (snd (panic_result w)) (keep (w_brk w) held)"
    by (rule owned_new [OF assms(1), of "sanitise ''an unexpected internal error occurred''"]) (simp_all add: panic_result_eq sanitise_no_nul)
  with assms(2) owned_fresh [OF assms(1)] show ?thesis by (auto simp: panic_result_eq)
qed

lemma owned_closure:
  assumes "owned w held" "w_heap (snd (m w)) = w_heap w" "w_brk (snd (m w)) = w_brk w" "catch_all m w = (r, w')"
  shows "owned w' (keep (r_message r) held) \<and> r_message r \<notin> held \<and> (r_status r = SynqroOk \<longleftrightarrow> r_message r = 0)"
proof -
  obtain x w1 where m: "m w = (x, w1)" by fastforce
  with assms(1-3) have w1: "owned w1 held" using owned_cong [of w1 w] by simp
  show ?thesis
  proof (cases x)
    case (Inl x')
    show ?thesis
    proof (cases x')
      case (Err e)
      with assms(4) m Inl catch_all_Inl [of m w e w1] have "from_error e w1 = (r, w')" by simp
      from owned_error [OF w1 this] show ?thesis by simp
    next
      case Panic
      with assms(4) m Inl catch_all_Panic [of m w w1] have "panic_result w1 = (r, w')" by simp
      from owned_panic [OF w1 this] show ?thesis by simp
    qed
  next
    case (Inr u)
    with assms(4) m catch_all_Inr [of m w w1] w1 owned_null [OF w1] show ?thesis
      by (auto simp: result_ok_def keep_def)
  qed
qed

lemma init_heap: "w_heap (snd (init_closure E p w)) = w_heap w \<and> w_brk (snd (init_closure E p w)) = w_brk w"
proof -
  obtain x w1 where part: "init_part E p w = (x, w1)" by fastforce
  from stepsD [OF engine_kept.on_init_part part] have "w_heap w1 = w_heap w" "w_brk w1 = w_brk w" by (simp_all add: same_engine_def)
  with part show ?thesis
    by (cases x) (auto simp: init_split bindE_def engine_set_def ret_def fail_def log_keeps_engine split: option.split)
qed

lemma owned_call:
  assumes "stores_quiet os" "owned w held" "c_call E os w r w'"
  shows "owned w' (keep (r_message r) held) \<and> r_message r \<notin> held \<and> (r_status r = SynqroOk \<longleftrightarrow> r_message r = 0)"
proof -
  have closure: "owned w' (keep (r_message r) held) \<and> r_message r \<notin> held \<and> (r_status r = SynqroOk \<longleftrightarrow> r_message r = 0)"
    if "steps same_engine m" "catch_all m w = (r, w')" for m
    by (rule owned_closure [OF assms(2) _ _ that(2)]) (use steps_snd [OF that(1), of w] in \<open>simp_all add: same_engine_def\<close>)
  from assms(3) show ?thesis
  proof cases
    case (init path)
    then show ?thesis by (intro owned_closure [OF assms(2), of "no_panic (init_closure E path)"]) (simp_all add: init_heap snd_no_panic synqro_init_def)
  next
    case check
    then show ?thesis using closure [OF closures_keep_engine(1) [OF assms(1)]] by (simp add: synqro_check_update_def)
  next
    case apply_update
    then show ?thesis using closure [OF closures_keep_engine(2) [OF assms(1)]] by (simp add: synqro_apply_update_def)
  next
    case roll_back
    then show ?thesis using closure [OF steps_no_panic [OF closures_keep_engine(3)]] by (simp add: synqro_rollback_def)
  next
    case audit_event
    then show ?thesis using closure [OF steps_no_panic [OF closures_keep_engine(4)]] by (simp add: synqro_audit_event_def)
  next
    case health
    then show ?thesis using closure [OF closures_keep_engine(5)] by (simp add: synqro_health_check_def)
  qed
qed

lemma owned_installation_id:
  assumes "owned w held" "synqro_installation_id w = (p, w')"
  shows "owned w' (keep p held)"
proof (cases "w_engine w")
  case None
  with assms show ?thesis by (auto simp: synqro_installation_id_def get_engine_def fail_def keep_def)
next
  case (Some en)
  show ?thesis
  proof (cases "cstring_new (cfg_installation_id (en_config en))")
    case None
    with Some assms show ?thesis by (auto simp: synqro_installation_id_def get_engine_def ret_def keep_def)
  next
    case s: (Some s)
    with Some assms(2) have "p = w_brk w" "w_heap w' = (w_heap w)(w_brk w \<mapsto> s)" "w_brk w' = Suc (w_brk w)"
      by (auto simp: synqro_installation_id_def get_engine_def ret_def into_raw_def)
    moreover have "CHR 0x00 \<notin> set s" using s by (auto simp: cstring_new_def split: if_splits)
    ultimately show ?thesis using owned_new [OF assms(1)] by simp
  qed
qed

lemma owned_step:
  assumes "stores_quiet os" "host_step E os a b" "owned (fst a) (snd a)"
  shows "owned (fst b) (snd b)"
  using assms(2,3)
proof (induction rule: host_step.induct)
  case (call w r w' held)
  with owned_call [OF assms(1)] show ?case by auto
next
  case (installation_id w p w' held)
  with owned_installation_id show ?case by auto
next
  case (free_string p held w)
  then show ?case using owned_drop [of w held p] owned_null [of w held] by (auto simp: synqro_free_string_def)
next
  case (free_result r held w)
  then show ?case using owned_drop [of w held "r_message r"] owned_null [of w held] by (auto simp: synqro_free_result_def)
next
  case (free_null w held)
  then show ?case by (simp add: synqro_free_result_def)
qed

text \<open>C28. The strings that cross the C interface are owned: whatever a host calls and gives back, in any order,
  the C heap holds exactly the strings the host has not given back, so nothing leaks and nothing is
  freed twice; they are all NUL-free; and the next call returns a null message exactly when it
  succeeds, and otherwise one at an address the host does not hold.\<close>

theorem c_heap_owned:
  assumes "stores_quiet os" "heap_ok w" "w_heap w = Map.empty" "(host_step E os)\<^sup>*\<^sup>* (w, {}) (w', held)"
  shows "dom (w_heap w') = held \<and> (\<forall>s \<in> ran (w_heap w'). CHR 0x00 \<notin> set s) \<and>
    (\<forall>r w''. c_call E os w' r w'' \<longrightarrow> (r_status r = SynqroOk \<longleftrightarrow> r_message r = 0) \<and> r_message r \<notin> held)"
proof -
  have "owned (fst b) (snd b)" if "(host_step E os)\<^sup>*\<^sup>* (w, {}) b" for b
    using that
  proof (induction rule: rtranclp_induct)
    case base
    then show ?case using assms(2,3) by (simp add: owned_def)
  next
    case (step b c)
    then show ?case using owned_step [OF assms(1)] by blast
  qed
  from this [OF assms(4)] have "owned w' held" by simp
  with owned_call [OF assms(1) this] show ?thesis by (auto simp: owned_def)
qed

lemma c_heap_owned_witness:
  "dom (w_heap (snd (synqro_health_check env0 (eng_world None [])))) = {1}"
proof -
  let ?w = "eng_world None []" and ?os = "empty_stores :: engine_world os_stores"
  obtain r w1 where run: "synqro_health_check env0 ?w = (r, w1)" by fastforce
  from host_step.call [OF c_call.health [OF run]]
  have "(host_step env0 ?os)\<^sup>*\<^sup>* (?w, {}) (w1, keep (r_message r) {})" by blast
  moreover have "heap_ok ?w" "w_heap ?w = Map.empty" by (simp_all add: eng_world_def heap_ok_def)
  moreover have "r_message r = 1"
    using run unfolding synqro_health_check_def health_check_closure_def
    by (subst (asm) no_engine) (auto simp: eng_world_def from_error_eq)
  ultimately have "dom (w_heap w1) = keep 1 {}" using c_heap_owned [OF quiet_empty_stores, of ?w env0 w1 "keep (r_message r) {}"] by simp
  then show ?thesis by (simp add: run keep_def)
qed

end
