(* ===== verification/Connections.thy ===== *)
theory Connections
  imports Engine_Facts
begin

text \<open>
  Where the engine's requests go (\<open>src/lib.rs\<close> over \<open>src/downloader.rs\<close>): whatever sequence of functions a C
  caller calls, nothing is sent over a TLS connection that the certificate verifier of the engine's
  configuration has not accepted.
\<close>

section \<open>Verified sending, as a relation\<close>

text \<open>The verifier in the clients of an engine's downloaders.\<close>

definition engine_verifier :: "engine \<Rightarrow> synqro_cert_verifier" where
  "engine_verifier en =
     \<lparr>cv_pinned_spki_sha256 = cc_github_api_cert_pin (cfg_crypto (en_config en)), cv_audit = en_audit en\<rparr>"

definition sends_verified :: "env \<Rightarrow> synqro_cert_verifier \<Rightarrow> 'z world_scheme \<Rightarrow> 'z world_scheme \<Rightarrow> bool" where
  "sends_verified E cv w w' \<longleftrightarrow>
     (\<exists>xs. w_trace w' = w_trace w @ xs \<and> (\<forall>h. EvHop h \<in> set xs \<longrightarrow> hop_verified E cv h))"

lemma sends_verified_quiet: "w_trace w' = w_trace w \<Longrightarrow> sends_verified E cv w w'"
  by (simp add: sends_verified_def)

lemma sends_verified_trans: "sends_verified E cv a b \<Longrightarrow> sends_verified E cv b c \<Longrightarrow> sends_verified E cv a c"
  unfolding sends_verified_def by (elim exE conjE, rule_tac x = "xs @ xsa" in exI) auto

lemma preorder_sends_verified [intro, simp]: "preorder_rel (sends_verified E cv)"
  by (auto simp: preorder_rel_def sends_verified_quiet intro!: reflpI transpI elim: sends_verified_trans)

lemma sends_effects:
  assumes "client_verifier dl = cv"
  shows "effect_relation (sends_verified E cv) E dl UNIV"
proof
  show "steps (sends_verified E cv) (record_failure E dl)"
    unfolding steps_def by (metis record_failure_cells sends_verified_quiet surjective_pairing)
  show "steps (sends_verified E cv) (record_success dl)"
    unfolding steps_def by (metis record_success_cells sends_verified_quiet surjective_pairing)
qed (use assms in \<open>auto simp: sends_verified_quiet fs_only_trace\<close>, auto simp: sends_verified_def)

interpretation connections: engine_relation "sends_verified E cv" E "\<lambda>en. engine_verifier en = cv" for E cv
proof (rule engine_relation.intro [OF preorder_sends_verified])
  show "effect_relation (sends_verified E cv) E dl UNIV" if "engine_verifier en = cv" "serves en dl" for en dl
    using that by (intro sends_effects) (simp add: client_verifier_def engine_verifier_def serves_def)
qed (auto simp: sends_verified_quiet fs_only_trace, auto simp: sends_verified_def)

section \<open>Sequences of calls\<close>

lemma catch_all_trace: "w_trace (snd (catch_all f w)) = w_trace (snd (f w))"
  by (rule catch_all_world [of f w]) (simp_all add: from_error_eq panic_result_eq)

lemma sends_catch_all:
  "sends_verified E cv w (snd (f w)) \<Longrightarrow> sends_verified E cv w (snd (catch_all f w))"
  "sends_verified E cv w (snd (m w)) \<Longrightarrow> sends_verified E cv w (snd (catch_all (no_panic m) w))"
  by (simp_all add: sends_verified_def catch_all_trace snd_no_panic)

lemma sends_init: "sends_verified E cv w (snd (init_closure E p w))"
proof -
  have tail: "sends_verified E cv w (snd (bindE (engine_set en) (\<lambda>_. audit_log E lg ev d) w))" for en lg ev d w
    by (auto simp: engine_set_def bindE_def ret_def fail_def sends_verified_def audit_log_trace split: option.splits)
  obtain x w1 where part: "init_part E p w = (x, w1)" by fastforce
  from stepsD [OF connections.on_init_part part] have "sends_verified E cv w w1" .
  moreover have "sends_verified E cv w1 (snd (init_closure E p w))"
    using part tail [of w1] by (cases x) (simp_all add: init_split bindE_def [of "init_part E p"] sends_verified_quiet)
  ultimately show ?thesis by (rule sends_verified_trans)
qed

lemma ffi_step_sends:
  assumes "stores_quiet os" "w_engine w = Some en" "ffi_step E os w w'"
  shows "sends_verified E (engine_verifier en) w w'"
proof -
  have good: "engine_verifier en' = engine_verifier en" if "w_engine w = Some en'" for en' using that assms(2) by simp
  note closures = connections.on_check_update [OF assms(1) good] connections.on_apply_update [OF assms(1) good]
    connections.on_rollback_closure connections.on_audit_event connections.on_health_check [OF good] sends_init
  from assms(3) show ?thesis
  proof cases
    case installation_id
    then show ?thesis
      using assms(2)
      by (auto simp: synqro_installation_id_def get_engine_def ret_def into_raw_def split: option.splits intro: sends_verified_quiet)
  next
    case (free_string ptr)
    then show ?thesis by (simp add: synqro_free_string_def drop_raw_def sends_verified_quiet)
  next
    case (free_result res)
    then show ?thesis by (auto simp: synqro_free_result_def drop_raw_def split: option.splits intro: sends_verified_quiet)
  qed (simp_all only: synqro_init_def synqro_check_update_def synqro_apply_update_def synqro_rollback_def synqro_audit_event_def
      synqro_health_check_def, (rule sends_catch_all, rule closures, assumption?)+)
qed

text \<open>C9. Whatever functions of the C interface are called, in any order and with any outcome, once the engine
  is set every hop a request takes over TLS was verified with the pin of its configuration: each
  handshake had the pinned key or a chain that validates, and was TLS 1.3 with a valid signature.\<close>

theorem connections_verified:
  assumes "stores_quiet os" "w_engine w = Some en" "(ffi_step E os)\<^sup>*\<^sup>* w w'"
  shows "\<exists>xs. w_trace w' = w_trace w @ xs \<and>
    (\<forall>h hs. EvHop h \<in> set xs \<longrightarrow> hop_https h \<longrightarrow> hs \<in> set (hop_handshakes h) \<longrightarrow>
       cert_accepted E (engine_verifier en) hs \<and> hs_tls13 hs \<and>
       verify_tls13_signature E (hs_message hs) (hs_end_entity hs) (hs_dss hs) = Inr ())"
proof -
  from assms(3) have "w_engine w' = Some en \<and> sends_verified E (engine_verifier en) w w'"
  proof (induction rule: rtranclp_induct)
    case base
    show ?case using assms(2) by (simp add: sends_verified_quiet)
  next
    case (step v v')
    with ffi_step_engine [OF assms(1)] ffi_step_sends [OF assms(1)] show ?case by (blast intro: sends_verified_trans)
  qed
  then show ?thesis
    by (auto simp: sends_verified_def hop_verified_def handshake_verified_def list_all_iff)
qed

section \<open>Witness\<close>

text \<open>A server whose key is not the pinned one, with a chain that validates.\<close>

definition chain_handshake :: tls_handshake where
  "chain_handshake = \<lparr>hs_end_entity = ''other'', hs_intermediates = [''ca''], hs_server_name = ''api.github.com'', hs_ocsp_response = [],
     hs_now = 0, hs_tls13 = True, hs_message = [], hs_dss = []\<rparr>"

definition chain_env :: env where
  "chain_env = env0\<lparr>e_handshakes := \<lambda>t r. [chain_handshake],
     e_http := \<lambda>t r. Inr \<lparr>rs_status = 200, rs_retry_after = None, rs_chunks = []\<rparr>\<rparr>"

lemma chain_accepted: "\<exists>w'. tls_accept chain_env cv chain_handshake w = (Inr (), w')"
  by (simp add: tls_accept_def verify_server_cert_def spki_sha256_def bind_res_def ca_chain_def verify_tls13_signature_def bindE_def
      ignore_def lift_res_def ret_def chain_env_def chain_handshake_def)

lemma chain_request: "\<exists>resp w'. client_send chain_env dl r w = (Inr resp, w')"
proof -
  let ?w = "w\<lparr>w_trace := w_trace w @ [EvHttp r]\<rparr>"
  obtain w' where "tls_accept chain_env (client_verifier dl) chain_handshake ?w = (Inr (), w')" using chain_accepted by blast
  then show ?thesis
    by (simp add: client_send_def http_begin_def bindE_def lift_res_def Let_def map_err_def send_hop_def first_hop_def ret_def
        http_hop_def http_answer_def) (simp add: chain_env_def bindE_def ret_def)
qed

lemma connections_verified_witness:
  "\<exists>h hs. EvHop h \<in> set (w_trace (snd (synqro_health_check chain_env (eng_world (Some en1) [])))) \<and> hop_https h \<and>
     hs \<in> set (hop_handshakes h) \<and> cert_accepted chain_env (engine_verifier en1) hs"
proof -
  let ?w = "eng_world (Some en1) []"
  define dl where "dl = \<lparr>dl_update_config = cfg_update (en_config en1), dl_source_config = cfg_source (en_config en1),
    dl_installation_id = cfg_installation_id (en_config en1), dl_crypto_config = cfg_crypto (en_config en1), dl_audit = en_audit en1, dl_atomics = 0\<rparr>"
  define r where "r = \<lparr>rq_method = ''HEAD'', rq_url = manifest_api_url dl, rq_headers = []\<rparr>"
  define w1 where "w1 = ?w\<lparr>w_dl := (w_dl ?w)(0 := \<lparr>dl_failures = 0, dl_degraded = False\<rparr>), w_dl_next := Suc 0, w_tick := Suc 0\<rparr>"
  obtain resp w2 where send: "client_send chain_env dl r w1 = (Inr resp, w2)" using chain_request by blast
  have "health_check_closure chain_env ?w = (Inr (), w2)"
    using send
    by (simp add: health_check_closure_def get_engine_def bindE_def ret_def no_panic_def engine_downloader_def downloader_new_def Let_def lift_res_def
        connectivity_check_def map_err_def runtime_build_def w1_def dl_def r_def manifest_api_url_def eng_world_def chain_env_def)
  then have snd: "w_trace (snd (synqro_health_check chain_env ?w)) = w_trace w2"
    by (simp add: synqro_health_check_def catch_all_trace)
  have "(ffi_step chain_env empty_stores)\<^sup>*\<^sup>* ?w (snd (synqro_health_check chain_env ?w))"
    by (intro r_into_rtranclp ffi_step.health)
  from connections_verified [OF quiet_empty_stores _ this, of en1] snd obtain xs where xs: "w_trace w2 = w_trace ?w @ xs"
    and ok: "\<And>h hs. EvHop h \<in> set xs \<Longrightarrow> hop_https h \<Longrightarrow> hs \<in> set (hop_handshakes h) \<Longrightarrow> cert_accepted chain_env (engine_verifier en1) hs"
    by (auto simp: eng_world_def)
  from client_send_events [OF send] obtain hops url where "w_trace w2 = w_trace w1 @ EvHttp r # map EvHop hops"
    "e_url chain_env (rq_url r) = Inr url" "hops = hops_of chain_env (w_tick w1) r url" by blast
  with xs have "EvHop (first_hop chain_env (w_tick w1) r url) \<in> set xs"
    by (auto simp: hops_of_def w1_def eng_world_def)
  moreover have "hop_https (first_hop chain_env (w_tick w1) r url)" "chain_handshake \<in> set (hop_handshakes (first_hop chain_env (w_tick w1) r url))"
    using \<open>e_url chain_env (rq_url r) = Inr url\<close> by (auto simp: first_hop_def chain_env_def)
  ultimately show ?thesis using ok xs snd by (auto intro!: exI)
qed

end
