(* ===== verification/Engine_Init.thy ===== *)
theory Engine_Init
  imports Engine_Facts
begin

text \<open>
  What a successful \<open>synqro_init\<close> (\<open>src/lib.rs\<close>) leaves behind: which configuration the engine has, which key
  signs its log, its snapshots and its blacklist, and the first line of the log.
\<close>

section \<open>A new logger\<close>

lemma open_append_Inr:
  assumes "open_append E p w = (Inr ns, w')"
  shows "ns = resolve E p \<and> file_at w' ns = Some (case file_at w ns of Some b \<Rightarrow> b | None \<Rightarrow> [])"
  using assms
  by (auto simp: open_append_def Let_def file_at_def fs_put_def dest!: sys_Inr split: option.splits node.splits if_splits)

lemma audit_new_Inr:
  assumes "audit_new E cfg iid w = (Inr lg, w')"
  shows "derive_hmac_key E iid = Inr (al_hmac_key lg) \<and> al_installation_id lg = iid \<and>
    al_file lg = resolve E (parse_path (lc_audit_log_path cfg)) \<and>
    file_at w' (al_file lg) = Some (case file_at w (al_file lg) of Some b \<Rightarrow> b | None \<Rightarrow> [])"
proof -
  let ?p = "parse_path (lc_audit_log_path cfg)"
  from assms obtain key u w1 ns where key: "e_hkdf E ''synqro-audit-v1'' iid ''hmac-key'' 32 = Inr key"
    and dirs: "(case path_parent ?p of Some parent \<Rightarrow> map_err (\<lambda>e. Permission (''Cannot create audit log directory: '' @ e))
                               (create_dir_all E (e_mkdir_mode E) parent) | None \<Rightarrow> ret ()) w = (Inr u, w1)"
    and opn: "open_append E ?p w1 = (Inr ns, w')"
    and lg: "lg = \<lparr>al_log_path = ?p, al_hmac_key = key, al_installation_id = iid, al_file = ns\<rparr>"
    by (auto simp: audit_new_def run_iff Let_def)
  have "file_at w1 q = file_at w q" for q
    using dirs create_dir_all_files [of E _ _ w "Inr u" w1] by (auto simp: run_iff split: option.splits)
  with open_append_Inr [OF opn] key show ?thesis by (auto simp: lg derive_hmac_key_def)
qed

lemma platform_keychain_files: "platform_keychain E w = (Inr k, w') \<Longrightarrow> file_at w' q = file_at w q"
  by (auto simp: platform_keychain_def run_iff linux_new_def binary_available_def world_runner_def file_at_def Let_def
      split: if_splits prod.splits)

section \<open>The initialised engine\<close>

definition init_data :: json where
  "init_data = json_obj [(''version'', JString SYNQRO_VERSION)]"

definition log_content :: "'z world_scheme \<Rightarrow> names \<Rightarrow> bytes" where
  "log_content w ns = (case file_at w ns of Some b \<Rightarrow> b | None \<Rightarrow> [])"

lemma init_part_Inr:
  assumes "init_part E cp w = (Inr en, w')"
  shows "\<exists>path raw doc. decode_cstr cp ''config_path'' = Inr path \<and>
    file_at w (resolve E (parse_path path)) = Some raw \<and> e_yaml_parse E raw = Inr doc \<and>
    decode_config_file E doc = Some (en_config en) \<and> config_valid (en_config en) \<and>
    derive_hmac_key E (cfg_installation_id (en_config en)) = Inr (al_hmac_key (en_audit en)) \<and>
    al_file (en_audit en) = resolve E (parse_path (lc_audit_log_path (cfg_logging (en_config en)))) \<and>
    file_at w' (al_file (en_audit en)) = Some (log_content w (al_file (en_audit en)))"
proof -
  from assms obtain path cfg w1 k w2 lg where path: "decode_cstr cp ''config_path'' = Inr path"
    and cfg: "load_config E (parse_path path) w = (Inr cfg, w1)" and kc: "platform_keychain E w1 = (Inr k, w2)"
    and lg: "audit_new E (cfg_logging cfg) (cfg_installation_id cfg) w2 = (Inr lg, w')"
    and en: "en = \<lparr>en_config = cfg, en_audit = lg, en_keychain = k\<rparr>"
    by (auto simp: init_part_def run_iff)
  from load_config_Inr [OF cfg] platform_keychain_files [OF kc] have "file_at w2 q = file_at w q" for q
    by (auto simp: file_at_def)
  with audit_new_Inr [OF lg] load_config_Inr [OF cfg] path show ?thesis
    by (auto simp: en log_content_def)
qed

text \<open>C11. When \<open>synqro_init\<close> reports success the engine had not been set and is now: its configuration is the
  valid one in the file of the given path, the key that signs the log is the one that will sign
  snapshots and the blacklist, and the log is what it was before (empty when there was none) followed by one
  complete signed line with the event \<open>SYNQRO_INIT\<close> and the version.\<close>

theorem initialised_engine:
  assumes "synqro_init E cp w = (r, w')" "r_status r = SynqroOk"
  shows "\<exists>path en raw doc now t. cp = Some path \<and> valid_utf8 path \<and> length path \<le> 4096 \<and>
    w_engine w = None \<and> w_engine w' = Some en \<and>
    file_at w (resolve E (parse_path path)) = Some raw \<and> e_yaml_parse E raw = Inr doc \<and>
    decode_config_file E doc = Some (en_config en) \<and> config_valid (en_config en) \<and>
    derive_hmac_key E (cfg_installation_id (en_config en)) = Inr (al_hmac_key (en_audit en)) \<and>
    al_file (en_audit en) = resolve E (parse_path (lc_audit_log_path (cfg_logging (en_config en)))) \<and>
    line_text E (en_audit en) now SynqroInit init_data = Inr t \<and>
    file_at w' (al_file (en_audit en)) = Some (log_content w (al_file (en_audit en)) @ t @ [CHR 0x0A])"
proof -
  from catch_all_ok [OF assms(1) [unfolded synqro_init_def] assms(2)]
  obtain en w1 w2 where part: "init_part E cp w = (Inr en, w1)" and set: "engine_set en w1 = (Inr (), w2)"
    and log: "audit_log E (en_audit en) SynqroInit init_data w2 = (Inr (), w')"
    by (auto simp: init_split run_iff init_data_def)
  from init_part_Inr [OF part] obtain path raw doc where path: "decode_cstr cp ''config_path'' = Inr path"
    and conf: "file_at w (resolve E (parse_path path)) = Some raw" "e_yaml_parse E raw = Inr doc"
      "decode_config_file E doc = Some (en_config en)" "config_valid (en_config en)"
      "derive_hmac_key E (cfg_installation_id (en_config en)) = Inr (al_hmac_key (en_audit en))"
      "al_file (en_audit en) = resolve E (parse_path (lc_audit_log_path (cfg_logging (en_config en))))"
    and old: "file_at w1 (al_file (en_audit en)) = Some (log_content w (al_file (en_audit en)))"
    by blast
  from path have cp: "cp = Some path" "valid_utf8 path" "length path \<le> 4096"
    by (auto simp: decode_cstr_def validate_input_def SYNQRO_MAX_INPUT_LEN_def split: option.splits if_splits)
  have w1: "w_engine w1 = w_engine w" using stepsD [OF engine_kept.on_init_part part] by (simp add: same_engine_def)
  from set w1 have none: "w_engine w = None" and w2: "w2 = w1\<lparr>w_engine := Some en\<rparr>"
    by (auto simp: engine_set_def ret_def fail_def split: option.splits)
  have "w_engine w' = Some en" using log log_keeps_engine(1) [of E "en_audit en" SynqroInit init_data w2] by (simp add: w2)
  moreover have "file_at w2 (al_file (en_audit en)) = Some (log_content w (al_file (en_audit en)))"
    using old by (simp add: w2 file_at_def)
  from audit_log_outcome [OF log this] obtain t where
    "line_text E (en_audit en) (e_clock E (w_tick w2)) SynqroInit init_data = Inr t"
    "file_at w' (al_file (en_audit en)) = Some (log_content w (al_file (en_audit en)) @ t @ [CHR 0x0A])" by auto
  ultimately show ?thesis using cp none conf by blast
qed

section \<open>Witness\<close>

definition init_env :: env where
  "init_env = yaml_env1\<lparr>e_proc := \<lambda>t tr c. Exited (Some 0) []\<rparr>"

definition init_world :: engine_world where
  "init_world = eng_world None [([''conf''], File ''axiomota: ...'' 0x1A4)]"

lemma init_paths: "parse_path ''/conf'' = [RootDir, Normal ''conf'']" "parse_path ''/audit'' = [RootDir, Normal ''audit'']"
  by code_simp+

lemma init_decodes: "decode_cstr (Some ''/conf'') ''config_path'' = Inr ''/conf''"
  by code_simp

lemma init_reads: "\<exists>w'. load_config init_env [RootDir, Normal ''conf''] init_world = (Inr config1, w') \<and> w_fs w' = w_fs init_world"
proof -
  have "valid_utf8 ''axiomota: ...''" by (simp add: valid_utf8.simps seq_len_def byte_val_def)
  then have "\<exists>w'. read_to_string init_env [RootDir, Normal ''conf''] init_world = (Inr ''axiomota: ...'', w')"
    by (simp add: read_to_string_def run_iff fs_read_def resolve_def sys_def init_env_def yaml_env1_def init_world_def eng_world_def)
  moreover have "decode_config_file init_env doc1 = Some config1"
    by (rule decode_doc) (simp_all add: init_env_def yaml_env1_def)
  ultimately have "\<exists>w'. load_config init_env [RootDir, Normal ''conf''] init_world = (Inr config1, w')"
    using config1_valid by (auto simp: load_config_def run_iff init_env_def yaml_env1_def)
  then show ?thesis using load_config_Inr by blast
qed

lemma init_succeeds: "\<exists>w'. init_closure init_env (Some ''/conf'') init_world = (Inr (), w')"
proof -
  have fields: "no_faults init_env" "e_os init_env = ''linux''" "e_hkdf init_env = e_hkdf env0" "e_cwd init_env = []"
    "e_proc init_env = (\<lambda>t tr c. Exited (Some 0) [])"
    by (simp_all add: init_env_def yaml_env1_def no_faults_def)
  have env: "logging_env init_env"
    using logging_env0 by (simp add: init_env_def yaml_env1_def logging_env_def json_laws_def hmac_total_def hex_ascii_def time_ascii_def)
  obtain w1 where cfg: "load_config init_env [RootDir, Normal ''conf''] init_world = (Inr config1, w1)" and fs1: "w_fs w1 = w_fs init_world"
    using init_reads by blast
  obtain w2 where kc: "platform_keychain init_env w1 = (Inr (LinuxProvider SecretTool), w2)" and fs2: "w_fs w2 = w_fs w1"
    by (simp add: platform_keychain_def fields linux_new_def binary_available_def world_runner_def bindE_def ret_def)
  have iid: "cfg_installation_id config1 = ''id''" "lc_audit_log_path (cfg_logging config1) = ''/audit''" by (simp_all add: config1_def)
  obtain lg w3 where au: "audit_new init_env (cfg_logging config1) ''id'' w2 = (Inr lg, w3)"
    using fs1 fs2
    by (simp add: audit_new_def bindE_def lift_res_def Let_def iid init_paths path_parent_def map_err_def create_dir_all_def resolve_def
        fields open_append_def sys_nofault is_dir_def init_world_def eng_world_def ret_def fs_put_def)
  have none: "w_engine w3 = None"
  proof -
    have "init_part init_env (Some ''/conf'') init_world = (Inr \<lparr>en_config = config1, en_audit = lg, en_keychain = LinuxProvider SecretTool\<rparr>, w3)"
      using cfg kc au by (simp add: init_part_def bindE_def lift_res_def init_decodes init_paths iid ret_def)
    from stepsD [OF engine_kept.on_init_part this] show ?thesis by (simp add: same_engine_def init_world_def eng_world_def)
  qed
  have "valid_utf8 ''id''" by (simp add: valid_utf8.simps seq_len_def byte_val_def)
  moreover have "al_installation_id lg = ''id''" using audit_new_Inr [OF au] by simp
  moreover have "printable_event (SynqroInit, init_data)"
    unfolding printable_event_def init_data_def SYNQRO_VERSION_def by code_simp
  ultimately obtain w4 where "audit_log init_env lg SynqroInit init_data (w3\<lparr>w_engine := Some
      \<lparr>en_config = config1, en_audit = lg, en_keychain = LinuxProvider SecretTool\<rparr>\<rparr>) = (Inr (), w4)"
    using audit_log_ok [OF fields(1) env] by metis
  with cfg kc au none show ?thesis
    by (simp add: init_closure_def bindE_def lift_res_def init_decodes init_paths iid engine_set_def ret_def init_data_def)
qed

lemma initialised_engine_witness:
  "\<exists>en. w_engine (snd (synqro_init init_env (Some ''/conf'') init_world)) = Some en \<and> config_valid (en_config en)"
proof -
  obtain w' where "init_closure init_env (Some ''/conf'') init_world = (Inr (), w')" using init_succeeds by blast
  then have run: "synqro_init init_env (Some ''/conf'') init_world = (result_ok, w')"
    unfolding synqro_init_def by (intro catch_all_Inr) (simp add: run_iff)
  from initialised_engine [OF this] show ?thesis by (simp add: run result_ok_def) blast
qed

end
