(* ===== verification/Spec2Isabelle.thy ===== *)
theory Spec2Isabelle
  imports Audit_Threads Blacklist Snapshot_Roundtrip Result_FFI Configuration Transport Update_Rollback Ignored_Files Streaming C_Heap Connections Engine_Init
    Keychain_Linux Keychain_Apple Keychain_Android Keychain_Windows
begin

text \<open>
  Synqro is an updater: a host application loads it as a C library, and it fetches a signed manifest,
  downloads and verifies the artifact the manifest names, keeps signed snapshots to go back to, and
  writes an authenticated audit log of all of it. This library models the Rust implementation under
  \<open>src/\<close> and proves what makes it correct. Every definition names the source's own functions and fields.

  The program's parts and the theories that model them, in the order of import:

  \<^item> \<^bold>\<open>Foundations.\<close> \<open>Prelude\<close>: a function returning \<open>Result\<close> that acts on the outside is a function from the
    world to a result and a new world; \<open>bindE\<close> is \<open>?\<close>, \<open>map_err\<close>, \<open>attempt\<close>, \<open>ignore\<close> and \<open>on_err\<close> are the ways the
    source handles errors; the collections \<open>run_iff\<close>, \<open>wp_simps\<close> and \<open>steps_intro\<close> carry the proofs.
    \<open>Rust_Strings\<close>, \<open>Rust_Path\<close>, \<open>Json\<close>: strings as lists of bytes with UTF-8, \<open>std::path\<close> on Unix, JSON values and
    the canonical (sorted) form that is signed. \<open>World\<close>: \<open>env\<close>, everything the sources call but do not
    contain, and \<open>world\<close>, the mutable state (files, atomics, the C heap, a trace of requests, child processes
    and pauses). \<open>Fs_Facts\<close>, \<open>Atomic\<close>, \<open>Mac\<close>: what file operations can have changed, replacing a file
    through a temporary one, message authentication codes. \<open>Json_Codec\<close> and \<open>Witness_Env\<close>: a concrete
    environment in which all the assumed behaviour of libraries holds.
  \<^item> \<^bold>\<open>Errors and C results\<close> (\<open>src/error.rs\<close>): \<open>Errors\<close>, \<open>Result_FFI\<close>. The error type, its texts and status codes, the
    error counter, \<open>SynqroResult\<close> and its release, \<open>catch_all\<close> and the decoding of C strings of \<open>src/lib.rs\<close>.
  \<^item> \<^bold>\<open>Configuration\<close> (\<open>src/config.rs\<close>): \<open>Configuration\<close> (sections and semantic validation), \<open>Config_File\<close>
    (derived deserialisation of the YAML document and \<open>load_config\<close>).
  \<^item> \<^bold>\<open>Audit log\<close> (\<open>src/audit.rs\<close>): \<open>Audit_Log\<close>, and \<open>Audit_Threads\<close>, in which \<open>log\<close> is cut into the steps of
    concurrent threads and processes.
  \<^item> \<^bold>\<open>Snapshots, rollback and blacklist\<close> (\<open>src/rollback.rs\<close>): \<open>Blacklist\<close> (blacklist, rollback counters and atomic
    JSON files), \<open>Rollback\<close>, \<open>Rollback_Facts\<close>, \<open>Snapshot_Roundtrip\<close>.
  \<^item> \<^bold>\<open>Keychain\<close> (\<open>src/keychain/\<close>): \<open>Keychain\<close> states the trait \<open>KeychainProvider\<close> as a locale, \<open>Keychain_Linux\<close>,
    \<open>Keychain_Apple\<close>, \<open>Keychain_Android\<close> and \<open>Keychain_Windows\<close> are its backends and interpret it, \<open>Keychain_Router\<close>
    is \<open>platform_keychain\<close>.
  \<^item> \<^bold>\<open>Downloader\<close> (\<open>src/downloader.rs\<close>): \<open>Downloader\<close> (certificate verifier, redirect policy, one request
    with both, degraded mode, backoff), \<open>Requests\<close> (what a request respects), \<open>Manifest_Fetch\<close> and \<open>Manifest_Facts\<close> (the manifest chain and the loop of attempts), \<open>Artifact\<close> and
    \<open>Artifact_Facts\<close> (the artifact chain), \<open>Streaming\<close> (its download loop over a stream that may not end), \<open>Transport\<close>.
  \<^item> \<^bold>\<open>Engine and C interface\<close> (\<open>src/lib.rs\<close>): \<open>Engine\<close>, \<open>Engine_Facts\<close>, \<open>Update_Facts\<close>. The engine cell, and every
    exported function as its closure inside \<open>catch_all\<close>, which may return, fail or panic (\<open>exn\<close> of \<open>Prelude\<close>). \<open>Update_Rollback\<close> (an update followed by a rollback) and
    \<open>Ignored_Files\<close> (files an update never looks at) compose the components. \<open>C_Heap\<close>: a host that calls the
    exported functions and gives back their strings, as a machine beside the library. \<open>Connections\<close>: what goes
    over the network in any sequence of calls. \<open>Engine_Init\<close>: what a successful \<open>synqro_init\<close> leaves.

  The interfaces are locales, each interpreted on the model: \<open>sealed_record\<close> (audit lines, blacklist,
  snapshot manifests), \<open>atomic_replace\<close> (JSON files, restored files), \<open>keychain_provider\<close> (six backends),
  \<open>effect_relation\<close> and its extension \<open>downloader_relation\<close> (any reflexive and transitive relation on worlds
  that the atomics, the files and the requests of a downloader respect), \<open>engine_relation\<close> (the same for the
  functions of the engine; for the engine cell and the C heap, and for verified connections).

  What is shown:

  \<^item> \<^bold>\<open>Updates.\<close> A manifest is accepted exactly when it is authentic, fresh and for this installation, in one
    equivalence for the whole chain; one that \<open>fetch_and_verify_manifest\<close> returns is the body of an answer to
    the request for the configured repository. An artifact that is returned passed both digests, the
    signature and the size limit, and is the content of the final file; at every exit, the final file
    has its old content or a verified one. \<open>synqro_apply_update\<close> composes the two, and touches nothing but
    the log, the staging and the backup area. Where the new version is the textually largest of
    the backups it can be undone: \<open>synqro_rollback\<close> then brings the program back as it was. It returns the same whatever the blacklist holds. The download loop returns on every
    stream that ends, fails or exceeds the limit, and on no other.
  \<^item> \<^bold>\<open>Degraded mode.\<close> The two atomics refine a small machine (\<open>dl_step\<close>): from any sequence of operations, the
    threshold implies the flag and the flag is final; five failed attempts reach it. Each fetch sends a
    bounded number of requests and pauses at most 300 seconds between them.
  \<^item> \<^bold>\<open>Transport.\<close> Which certificates pass. Every request goes over hops on the host of its address,
    and every handshake of a TLS hop passed the verifier of the configured pin, for one request and for any
    sequence of calls of the C interface; redirects are followed exactly up to the first that leaves the host.
  \<^item> \<^bold>\<open>Audit log.\<close> Round trip of writing and verifying, append only, soundness of verification, detection of an
    altered line (the first that is neither blank nor authentic), and what it does not detect. The round trip
    is shown for data that can be read back exactly: no floating-point numbers, not nested to the limit of the
    JSON parser. Under any interleaving of callers the lines stay whole: on Linux through any number of
    loggers, elsewhere, where no file lock is compiled in, through one. On Linux a failed write keeps the file
    lock; the sequential function is one run of the machine of threads.
  \<^item> \<^bold>\<open>Rollback.\<close> A snapshot taken by the code is restored by the code; at every exit each target is old or
    verified; a tampered snapshot changes nothing; names that leave the backup are refused; the third
    rollback blacklists. Blacklist lookups, what happens to a tampered blacklist, and to one that is out of order.
  \<^item> \<^bold>\<open>Keychain, configuration, C interface.\<close> Round trips of the backends and their limits; a loaded
    configuration is valid and comes from a document with exactly the declared keys in every section; calls before \<open>synqro_init\<close> are refused, a successful one
    sets the engine from the file and starts the log, and the engine is set once; opaque errors
    reveal nothing but a number; the C heap holds exactly the strings that a host was given and has not
    given back, whatever it calls.

  Conventions and bounds. No definition uses fuel: the loop of attempts recurses on the list of attempt
  numbers, the download on the chunks of the response, \<open>create_dir_all\<close> on the path, and all are total. In
  \<open>Streaming\<close> the download loop is a partial function over the polls of a stream, and not returning is \<open>None\<close>.
  Integers are words of their width (\<open>u32\<close>, \<open>u64\<close>; \<open>usize\<close> has 64 bits), saturating where the source saturates.
  Any system call may fail at any moment (\<open>e_io\<close>), a failing write may leave a prefix; the safety theorems hold
  for all of these faults, the theorems that something succeeds assume \<open>no_faults\<close>. The file system has no
  links, so canonical paths are resolved names. Time is in nanoseconds.

  Platforms and panics. \<open>e_os\<close> names the operating system; code compiled for Linux only (the file lock of the
  audit log) is gated on it. A closure of the C interface may panic: where it builds the TLS configuration of a
  downloader and rustls has no default provider (\<open>e_tls_provider\<close>). \<open>catch_all\<close> then reports an internal error,
  as it does in a build that unwinds; the release profile of \<open>Cargo.toml\<close> aborts the process instead, which is
  not modelled.

  Requests. Of the HTTP client and of TLS the model has what they document about their callbacks: a full
  handshake asks the verifier for the certificate and then for the signature of its version, an error of it
  fails the request, and a redirect is followed when the policy says so. Which handshakes are made, where
  redirects lead and what is answered is decided by the environment.

  Parameters. Hashes, HMAC, HKDF, Ed25519, Base64, hexadecimal, X.509 and chain validation, the HTTP client,
  the text of JSON and YAML, dates, child processes and the credential stores of the operating systems are
  fields of \<open>env\<close> or of a store record. Where a proof needs their behaviour it is a named hypothesis (\<open>json_laws\<close>,
  \<open>json_prints\<close>, \<open>logging_env\<close>, \<open>hmac_total\<close>, \<open>keyctl_works\<close>, \<open>quiet_keychain\<close>, \<open>stores_quiet\<close>, \<open>stores_ignore\<close>), and a witness instantiates it.
  \<open>json_laws\<close> says that a parser reads back what was printed for values without floating-point numbers that are
  nested at most \<open>JSON_MAX_DEPTH\<close> deep, and \<open>keyctl_works\<close> that a key is stored when payload and description
  have the sizes that the kernel takes.

  Not modelled: the Python package, the Dart bindings, the Telegram reporter, the C header, the scripts and
  packaging (other languages); tracing output; the zeroing of secrets, which is not observable in the model;
  memory-level details of \<open>unsafe\<close> blocks; branches compiled for systems without Unix permissions in
  \<open>src/rollback.rs\<close>; unit tests. Two simplifications are noted at their definitions: \<open>json_typed\<close> parses the whole
  document before it decodes a type, which differs from serde only in unknown fields that are skipped, and
  \<open>parse_path\<close> drops a trailing slash, which matters only for a name in a signed snapshot. Threads interleave in
  \<open>Audit_Threads\<close> only: everywhere else calls run one after the other, so the mutex of the Android callbacks
  and two calls of the C interface at the same time are not interleaved.

  Divergences between the code and its documentation that the model brought out are theorems or are
  noted at the definitions: an applied update stays in the staging directory, the most recent backup is
  the largest text, manifests are accepted up to the age of 25 hours, a matching pin replaces chain
  validation, the macOS fallback returns hexadecimal text, a tampered blacklist is dropped on the next
  write, the deletion of whole log lines is not noticed, a redirect from https to plain HTTP on the same host is
  followed, a failed log write keeps the file lock, the
  Android router cannot load a token, no update looks at the blacklist, nothing handles the flag
  that the watchdog process is started with, the file lock of the log exists on Linux only, event data with
  floating-point numbers or of great depth may not verify, a blacklist out of order is signed so that it no longer
  verifies, files with one base name overwrite each other in a snapshot, a version with slashes leads out
  of the backup directory, the kernel keyring does not take every secret, a downloader panics when
  no TLS provider is installed, and panics are not caught in the release build.
\<close>

end
